(* ===== verification/Relayer_Prelude.thy ===== *)
theory Relayer_Prelude
  imports Main "HOL-Library.Word" "HOL-Library.Multiset"
begin

text \<open>
  Shared vocabulary of the development: the fixed-width types of the Go sources, errors as
  values, the result type of fallible calls, the list and word facts the components share.

  A Go value of type \<^verbatim>\<open>(T, error)\<close> is a sum \<open>error + 'a\<close>, with \<open>Inl\<close> for a non-nil error.
  A panic is an error of its own (\<open>Panic\<close>): it leaves the function early like an error does,
  and no caller in the sources recovers from one.
\<close>

section \<open>Types of the sources\<close>

text \<open>
  \<^verbatim>\<open>ids.ID\<close> and \<^verbatim>\<open>common.Hash\<close> are arrays of 32 bytes, \<^verbatim>\<open>ids.NodeID\<close> and
  \<^verbatim>\<open>common.Address\<close> arrays of 20 bytes. The sources compare them, use them as map keys and
  compare them with the zero value, so a word of the same width is an exact model. A Go string
  is a list of bytes, and so is an Isabelle \<open>string\<close>.
\<close>

type_synonym u8 = "8 word"
type_synonym u32 = "32 word"
type_synonym u64 = "64 word"
type_synonym ids_ID = "256 word"
type_synonym hash = "256 word"
type_synonym nodeID = "160 word"
type_synonym address = "160 word"
type_synonym bytes = "u8 list"

section \<open>Errors as values\<close>

text \<open>
  \<open>Sentinel\<close> is a package-level \<^verbatim>\<open>errors.New\<close> value, known by its text; \<open>Errorf\<close> a fresh error
  with no wrapped cause; \<open>Wrap\<close> is \<^verbatim>\<open>fmt.Errorf("...%w")\<close> or \<^verbatim>\<open>errors.Wrap\<close>; \<open>Join\<close> is
  \<^verbatim>\<open>errors.Join\<close>.
\<close>

datatype error =
    Sentinel string
  | Errorf string
  | Wrap string error
  | Join error error
  | Panic string

type_synonym 'a result = "error + 'a"

text \<open>The chain walk of \<^verbatim>\<open>errors.Is\<close>: the error itself, then what it wraps or joins.\<close>

fun errors_Is :: "error \<Rightarrow> error \<Rightarrow> bool" where
  "errors_Is (Wrap m e) t = (Wrap m e = t \<or> errors_Is e t)"
| "errors_Is (Join a b) t = (Join a b = t \<or> errors_Is a t \<or> errors_Is b t)"
| "errors_Is e t = (e = t)"

text \<open>Whether a result left the function by a panic rather than by a returned error.\<close>

fun is_panic :: "'a result \<Rightarrow> bool" where
  "is_panic (Inl (Panic m)) = True"
| "is_panic r = False"

text \<open>A caller wraps the error it got; a panic passes through it.\<close>

fun err_wrap :: "string \<Rightarrow> error \<Rightarrow> error" where
  "err_wrap m (Panic p) = Panic p"
| "err_wrap m e = Wrap m e"

text \<open>The conversion of a slice to an array of \<open>n\<close> elements.\<close>

definition to_array :: "nat \<Rightarrow> 'a list \<Rightarrow> 'a list result" where
  "to_array n xs =
     (if length xs < n then Inl (Panic ''cannot convert slice to array'') else Inr (take n xs))"

lemma errors_Is_refl [simp]: "errors_Is e e"
  by (cases e) auto

section \<open>Collections of rules\<close>

named_theorems go_simps \<open>unfolding rules for the small operations of the sources\<close>
named_theorems go_invs \<open>preservation of component invariants\<close>

section \<open>The first value of a list\<close>

fun first_some :: "'a option list \<Rightarrow> 'a option" where
  "first_some [] = None"
| "first_some (None # xs) = first_some xs"
| "first_some (Some x # xs) = Some x"

lemma first_some_single [simp]: "first_some [x] = x"
  by (cases x) auto

lemma first_some_Some: "first_some xs = Some x \<Longrightarrow> Some x \<in> set xs"
  by (induction xs rule: first_some.induct) auto

lemma first_some_None: "first_some xs = None \<longleftrightarrow> (\<forall>x \<in> set xs. x = None)"
  by (induction xs rule: first_some.induct) auto

section \<open>Lists updated in place\<close>

lemma mset_swap_nth:
  assumes "i < length xs" and "j < length xs"
  shows "mset (xs[i := xs ! j, j := xs ! i]) = mset xs"
  by (rule mset_swap [OF assms(2,1)])

lemma set_swap_nth:
  assumes "i < length xs" and "j < length xs"
  shows "set (xs[i := xs ! j, j := xs ! i]) = set xs"
  by (metis assms mset_swap_nth set_mset_mset)

lemma mset_butlast_last: "xs \<noteq> [] \<Longrightarrow> mset xs = add_mset (last xs) (mset (butlast xs))"
  by (induction xs) auto

section \<open>Successors of machine integers\<close>

lemma unat_Suc_less:
  fixes a b :: "'a::len word"
  assumes "a < b"
  shows "unat (a + 1) = Suc (unat a)"
proof -
  have "unat a + 1 < 2 ^ LENGTH('a)"
    using assms by (metis Suc_eq_plus1 Suc_lessI not_less_eq unsigned_less word_less_nat_alt)
  then show ?thesis
    by (simp add: unat_word_ariths)
qed

lemma less_plus1_word:
  fixes a :: "'a::len word"
  shows "a + 1 \<noteq> 0 \<Longrightarrow> a < a + 1"
  by (metis add_neg_numeral_special(8) inc_less_eq_self_iff_eq linorder_not_le)

lemma plus1_le_iff_less:
  fixes a b :: "'a::len word"
  assumes "a < c"
  shows "a + 1 \<le> b \<longleftrightarrow> a < b"
  using unat_Suc_less [OF assms] by (simp add: word_le_nat_alt word_less_nat_alt Suc_le_eq)

lemma less_plus1_iff_le:
  fixes a b :: "'a::len word"
  assumes "a < c"
  shows "b < a + 1 \<longleftrightarrow> b \<le> a"
  using unat_Suc_less [OF assms] by (simp add: word_le_nat_alt word_less_nat_alt less_Suc_eq_le)

lemma word_less_cases_plus1:
  fixes a b :: "'a::len word"
  assumes "a < b"
  shows "b = a + 1 \<or> a + 1 < b"
  using plus1_le_iff_less [OF assms, of b] assms by auto

lemma unat_sum:
  fixes f :: "'b \<Rightarrow> 'a::len word"
  assumes "finite A" and "(\<Sum>x \<in> A. unat (f x)) < 2 ^ LENGTH('a)"
  shows "unat (\<Sum>x \<in> A. f x) = (\<Sum>x \<in> A. unat (f x))"
  using assms
proof (induction A rule: finite_induct)
  case (insert x A)
  then have "unat (\<Sum>x \<in> A. f x) = (\<Sum>x \<in> A. unat (f x))" by simp
  with insert.prems insert.hyps show ?case by (simp add: unat_word_ariths)
qed simp

lemma sum_list_nth: "sum_list (map f xs) = (\<Sum>i < length xs. f (xs ! i))"
  by (simp add: sum_list_sum_nth atLeast0LessThan)

end
