(* ===== verification/UInt64_Heap.thy ===== *)
theory UInt64_Heap
  imports Relayer_Prelude
begin

text \<open>
  The min-heap of pending heights: \<^verbatim>\<open>UInt64Heap\<close> of \<^verbatim>\<open>utils/uint64_heap.go\<close>, driven by the
  sift loops of Go's \<^verbatim>\<open>container/heap\<close>. The heap is the slice itself, a list of 64-bit words.
  The theory shows that the sift loops restore the heap order and keep the contents, and
  interprets the interface of a priority queue (\<open>min_queue\<close>) on them, which is all that the
  checkpoint manager relies on.
\<close>

section \<open>The methods of UInt64Heap\<close>

type_synonym uint64_heap = "u64 list"

definition heap_Len :: "uint64_heap \<Rightarrow> nat" where
  "heap_Len h = length h"

definition heap_Less :: "uint64_heap \<Rightarrow> nat \<Rightarrow> nat \<Rightarrow> bool" where
  "heap_Less h i j \<longleftrightarrow> h ! i < h ! j"

definition heap_Swap :: "uint64_heap \<Rightarrow> nat \<Rightarrow> nat \<Rightarrow> uint64_heap" where
  "heap_Swap h i j = h[i := h ! j, j := h ! i]"

text \<open>Reading element 0 of an empty slice panics.\<close>

definition heap_Peek :: "uint64_heap \<Rightarrow> u64 result" where
  "heap_Peek h = (case h of [] \<Rightarrow> Inl (Panic ''index out of range'') | x # _ \<Rightarrow> Inr x)"

definition heap_Push :: "uint64_heap \<Rightarrow> u64 \<Rightarrow> uint64_heap" where
  "heap_Push h x = h @ [x]"

definition heap_Pop :: "uint64_heap \<Rightarrow> (u64 \<times> uint64_heap) result" where
  "heap_Pop h = (if h = [] then Inl (Panic ''index out of range'') else Inr (last h, butlast h))"

lemmas [go_simps] = heap_Len_def heap_Less_def heap_Swap_def heap_Peek_def heap_Push_def heap_Pop_def

section \<open>The sift loops of container/heap\<close>

text \<open>
  Go's division truncates towards zero, so the parent of index 0 is 0: truncated subtraction on
  natural numbers gives the same.
\<close>

definition parent :: "nat \<Rightarrow> nat" where
  "parent j = (j - 1) div 2"

function heap_up :: "uint64_heap \<Rightarrow> nat \<Rightarrow> uint64_heap" where
  "heap_up h j =
     (let i = parent j
      in if i = j \<or> \<not> heap_Less h j i then h else heap_up (heap_Swap h i j) i)"
  by pat_completeness auto
termination
  by (relation "measure (\<lambda>(h, j). j)") (auto simp: parent_def)

text \<open>The smaller child of \<open>i\<close> among the first \<open>n\<close> elements, the left one on a tie.\<close>

definition min_child :: "uint64_heap \<Rightarrow> nat \<Rightarrow> nat \<Rightarrow> nat" where
  "min_child h i n =
     (let j1 = 2 * i + 1; j2 = j1 + 1 in if j2 < n \<and> heap_Less h j2 j1 then j2 else j1)"

function heap_down :: "uint64_heap \<Rightarrow> nat \<Rightarrow> nat \<Rightarrow> uint64_heap" where
  "heap_down h i n =
     (if 2 * i + 1 \<ge> n then h
      else if \<not> heap_Less h (min_child h i n) i then h
      else heap_down (heap_Swap h i (min_child h i n)) (min_child h i n) n)"
  by pat_completeness auto
termination
  by (relation "measure (\<lambda>(h, i, n). n - i)") (auto simp: min_child_def Let_def)

declare heap_up.simps [simp del] heap_down.simps [simp del]

fun heap_init_from :: "uint64_heap \<Rightarrow> nat \<Rightarrow> uint64_heap" where
  "heap_init_from h 0 = h"
| "heap_init_from h (Suc i) = heap_init_from (heap_down h i (length h)) i"

definition heap_Init :: "uint64_heap \<Rightarrow> uint64_heap" where
  "heap_Init h = heap_init_from h (heap_Len h div 2)"

definition heap_push :: "uint64_heap \<Rightarrow> u64 \<Rightarrow> uint64_heap" where
  "heap_push h x = (let h' = heap_Push h x in heap_up h' (heap_Len h' - 1))"

text \<open>\<^verbatim>\<open>heap.Pop\<close> on an empty heap swaps index 0 with index -1, which panics.\<close>

definition heap_pop :: "uint64_heap \<Rightarrow> (u64 \<times> uint64_heap) result" where
  "heap_pop h =
     (if h = [] then Inl (Panic ''index out of range'')
      else let n = heap_Len h - 1 in heap_Pop (heap_down (heap_Swap h 0 n) 0 n))"

section \<open>Parents and children\<close>

lemma parent_less [simp]: "0 < k \<Longrightarrow> parent k < k"
  by (simp add: parent_def)

lemma parent_le [simp]: "parent k \<le> k"
  by (simp add: parent_def)

lemma parent_less_trans [simp]: "k < n \<Longrightarrow> parent k < n"
  using parent_le [of k] by linarith

lemma parent_eq_iff: "0 < k \<Longrightarrow> parent k = i \<longleftrightarrow> k = 2 * i + 1 \<or> k = 2 * i + 2"
  by (auto simp: parent_def)

lemma parent_fixpoint: "parent j = j \<longleftrightarrow> j = 0"
  by (cases j) (auto simp: parent_def)

section \<open>Contents: the sift loops only permute\<close>

lemma length_heap_Swap [simp]: "length (heap_Swap h i j) = length h"
  by (simp add: heap_Swap_def)

lemma nth_heap_Swap:
  "i < length h \<Longrightarrow> j < length h \<Longrightarrow>
     heap_Swap h i j ! k = (if k = j then h ! i else if k = i then h ! j else h ! k)"
  by (auto simp: heap_Swap_def nth_list_update)

lemma mset_heap_Swap [simp]:
  "i < length h \<Longrightarrow> j < length h \<Longrightarrow> mset (heap_Swap h i j) = mset h"
  by (simp add: heap_Swap_def mset_swap_nth)

lemma heap_up_perm:
  "j < length h \<Longrightarrow> length (heap_up h j) = length h \<and> mset (heap_up h j) = mset h"
proof (induction h j rule: heap_up.induct)
  case (1 h j)
  have "parent j < length h"
    using "1.prems" parent_le [of j] by linarith
  with "1" show ?case
    by (subst (1 2) heap_up.simps) (auto simp: Let_def)
qed

lemma min_child_bounds:
  "2 * i + 1 < n \<Longrightarrow> i < min_child h i n \<and> min_child h i n < n"
  by (auto simp: min_child_def Let_def)

lemma heap_down_perm:
  "n \<le> length h \<Longrightarrow>
     length (heap_down h i n) = length h \<and> mset (heap_down h i n) = mset h \<and>
     (\<forall>k. n \<le> k \<longrightarrow> k < length h \<longrightarrow> heap_down h i n ! k = h ! k)"
proof (induction h i n rule: heap_down.induct)
  case (1 h i n)
  show ?case
  proof (cases "2 * i + 1 \<ge> n \<or> \<not> heap_Less h (min_child h i n) i")
    case True
    then show ?thesis by (auto simp: heap_down.simps [of h i n])
  next
    case False
    then have "i < min_child h i n" and "min_child h i n < n"
      using min_child_bounds [of i n h] by auto
    with "1" False show ?thesis
      by (simp add: heap_down.simps [of h i n] nth_heap_Swap)
  qed
qed

section \<open>Heap order\<close>

text \<open>
  The first \<open>n\<close> elements are in heap order; and in heap order but for the pair above \<open>j\<close>
  (while sifting up) or the pairs below \<open>i\<close> (while sifting down), where in both cases the
  parent of the exception is below the children of the exception.
\<close>

definition is_heap :: "uint64_heap \<Rightarrow> nat \<Rightarrow> bool" where
  "is_heap h n \<longleftrightarrow> (\<forall>k. 0 < k \<longrightarrow> k < n \<longrightarrow> h ! parent k \<le> h ! k)"

definition heap_but_up :: "uint64_heap \<Rightarrow> nat \<Rightarrow> nat \<Rightarrow> bool" where
  "heap_but_up h n j \<longleftrightarrow>
     (\<forall>k. 0 < k \<longrightarrow> k < n \<longrightarrow>
        (k \<noteq> j \<longrightarrow> h ! parent k \<le> h ! k) \<and> (parent k = j \<longrightarrow> 0 < j \<longrightarrow> h ! parent j \<le> h ! k))"

definition heap_but_down :: "uint64_heap \<Rightarrow> nat \<Rightarrow> nat \<Rightarrow> bool" where
  "heap_but_down h n i \<longleftrightarrow>
     (\<forall>k. 0 < k \<longrightarrow> k < n \<longrightarrow>
        (parent k \<noteq> i \<longrightarrow> h ! parent k \<le> h ! k) \<and> (parent k = i \<longrightarrow> 0 < i \<longrightarrow> h ! parent i \<le> h ! k))"

lemma is_heap_but_up: "0 < j \<Longrightarrow> h ! parent j \<le> h ! j \<Longrightarrow> heap_but_up h n j \<Longrightarrow> is_heap h n"
  unfolding is_heap_def heap_but_up_def by metis

lemma is_heap_but_up_root: "heap_but_up h n 0 \<Longrightarrow> is_heap h n"
  unfolding is_heap_def heap_but_up_def by auto

lemma heap_but_up_swap:
  assumes "heap_but_up h n j" and "0 < j" and "j < n" and "n \<le> length h" and "h ! j < h ! parent j"
  shows "heap_but_up (heap_Swap h (parent j) j) n (parent j)"
  unfolding heap_but_up_def
proof (intro allI impI)
  fix k
  assume k: "0 < k" "k < n"
  have pj: "parent j < j" using assms(2) by simp
  have sw: "heap_Swap h (parent j) j ! m = (if m = j then h ! parent j else if m = parent j then h ! j else h ! m)"
    for m
    using assms(3,4) pj by (simp add: nth_heap_Swap)
  have ord: "m \<noteq> j \<Longrightarrow> h ! parent m \<le> h ! m" "parent m = j \<Longrightarrow> h ! parent j \<le> h ! m"
    if "0 < m" "m < n" for m
    using assms(1,2) that unfolding heap_but_up_def by auto
  have ppj: "0 < parent j \<Longrightarrow> h ! parent (parent j) \<le> h ! parent j"
    using ord(1) [of "parent j"] pj assms(3) by simp
  have pk: "parent k < k" using k by simp
  have "heap_Swap h (parent j) j ! parent k \<le> heap_Swap h (parent j) j ! k" if "k \<noteq> parent j"
  proof -
    consider "k = j" | "k \<noteq> j" "parent k = j" | "k \<noteq> j" "parent k = parent j"
      | "k \<noteq> j" "parent k \<noteq> j" "parent k \<noteq> parent j" by blast
    then show ?thesis
    proof cases
      case 3
      then have "h ! j \<le> h ! k" using ord(1) [OF k] assms(5) by simp
      with 3 that pj show ?thesis by (simp add: sw)
    qed (use that assms(5) ord [OF k] pj in \<open>auto simp: sw\<close>)
  qed
  moreover have "heap_Swap h (parent j) j ! parent (parent j) \<le> heap_Swap h (parent j) j ! k"
    if "parent k = parent j" "0 < parent j"
  proof -
    have "h ! parent j \<le> h ! k" if "k \<noteq> j"
      using ord(1) [OF k that] \<open>parent k = parent j\<close> by simp
    moreover have "parent (parent j) < parent j" "k \<noteq> parent j"
      using that pk by auto
    ultimately show ?thesis
      using ppj [OF that(2)] pj by (cases "k = j") (auto simp: sw)
  qed
  ultimately show "(k \<noteq> parent j \<longrightarrow> heap_Swap h (parent j) j ! parent k \<le> heap_Swap h (parent j) j ! k) \<and>
        (parent k = parent j \<longrightarrow> 0 < parent j \<longrightarrow>
           heap_Swap h (parent j) j ! parent (parent j) \<le> heap_Swap h (parent j) j ! k)"
    by blast
qed

lemma heap_up_is_heap:
  "heap_but_up h n j \<Longrightarrow> j < n \<Longrightarrow> n \<le> length h \<Longrightarrow> is_heap (heap_up h j) n"
proof (induction h j rule: heap_up.induct)
  case (1 h j)
  show ?case
  proof (cases "parent j = j \<or> \<not> heap_Less h j (parent j)")
    case True
    then have "is_heap h n"
      using "1.prems"(1) is_heap_but_up [of j h n] is_heap_but_up_root [of h n]
      by (cases "j = 0") (auto simp: parent_fixpoint heap_Less_def)
    with True show ?thesis by (simp add: heap_up.simps [of h j] Let_def)
  next
    case False
    then have "0 < j" "h ! j < h ! parent j"
      by (auto simp: parent_fixpoint heap_Less_def)
    then have "heap_but_up (heap_Swap h (parent j) j) n (parent j)" and "parent j < n"
      using heap_but_up_swap "1.prems" parent_le [of j] by auto
    with "1.IH" [OF refl] False "1.prems" show ?thesis
      by (simp add: heap_up.simps [of h j] Let_def)
  qed
qed

lemma is_heap_but_down:
  assumes "heap_but_down h n i" and "2 * i + 1 < n \<Longrightarrow> h ! i \<le> h ! min_child h i n"
  shows "is_heap h n"
  unfolding is_heap_def
proof (intro allI impI)
  fix k
  assume k: "0 < k" "k < n"
  show "h ! parent k \<le> h ! k"
  proof (cases "parent k = i")
    case True
    then have "k = 2 * i + 1 \<or> k = 2 * i + 2" using k parent_eq_iff by blast
    with k have "2 * i + 1 < n" and "h ! min_child h i n \<le> h ! k"
      by (auto simp: min_child_def Let_def heap_Less_def not_less)
    with assms(2) True show ?thesis by (auto intro: order_trans)
  qed (use k assms(1) in \<open>simp add: heap_but_down_def\<close>)
qed

lemma heap_but_down_swap:
  assumes "heap_but_down h n i" and "2 * i + 1 < n" and "n \<le> length h"
    and "h ! min_child h i n < h ! i"
  shows "heap_but_down (heap_Swap h i (min_child h i n)) n (min_child h i n)"
proof -
  define j where "j = min_child h i n"
  have ij: "i < j" "j < n" using min_child_bounds assms(2) by (auto simp: j_def)
  have sw: "heap_Swap h i j ! m = (if m = j then h ! i else if m = i then h ! j else h ! m)" for m
    using ij assms(3) by (simp add: nth_heap_Swap)
  have pj: "parent j = i"
    using ij assms(2) by (subst parent_eq_iff) (auto simp: j_def min_child_def Let_def)
  have ord: "parent m \<noteq> i \<Longrightarrow> h ! parent m \<le> h ! m" "parent m = i \<Longrightarrow> 0 < i \<Longrightarrow> h ! parent i \<le> h ! m"
    "parent m = i \<Longrightarrow> h ! j \<le> h ! m"
    if "0 < m" "m < n" for m
    using assms(1) that parent_eq_iff [of m i]
    by (auto simp: heap_but_down_def j_def min_child_def Let_def heap_Less_def not_less)
  have "heap_but_down (heap_Swap h i j) n j"
    unfolding heap_but_down_def
  proof (intro allI impI conjI)
    fix k
    assume k: "0 < k" "k < n" "parent k \<noteq> j"
    consider "k = j" | "k = i" | "k \<noteq> j" "k \<noteq> i" "parent k = i" | "k \<noteq> j" "k \<noteq> i" "parent k \<noteq> i" by blast
    then show "heap_Swap h i j ! parent k \<le> heap_Swap h i j ! k"
    proof cases
      case 2
      then have "h ! parent i \<le> h ! j" "parent i \<noteq> i" "parent i \<noteq> j"
        using 2 ord(2) [of j] k pj ij by (auto simp: parent_fixpoint)
      with 2 ij show ?thesis by (simp add: sw)
    qed (use k pj ij assms(4) ord [OF k(1,2)] in \<open>auto simp: sw j_def [symmetric]\<close>)
  next
    fix k
    assume k: "0 < k" "k < n" "parent k = j"
    then have "h ! j \<le> h ! k" "k \<noteq> i" "k \<noteq> j"
      using ord(1) [of k] ij parent_less [of k] by auto
    with k show "heap_Swap h i j ! parent j \<le> heap_Swap h i j ! k"
      using pj ij by (simp add: sw)
  qed
  then show ?thesis by (simp add: j_def)
qed

lemma heap_down_is_heap:
  "heap_but_down h n i \<Longrightarrow> n \<le> length h \<Longrightarrow> is_heap (heap_down h i n) n"
proof (induction h i n rule: heap_down.induct)
  case (1 h i n)
  show ?case
  proof (cases "n \<le> 2 * i + 1 \<or> \<not> heap_Less h (min_child h i n) i")
    case True
    then have "is_heap h n"
      using is_heap_but_down [OF "1.prems"(1)] by (auto simp: heap_Less_def not_less)
    with True show ?thesis by (auto simp: heap_down.simps [of h i n])
  next
    case False
    then have "heap_but_down (heap_Swap h i (min_child h i n)) n (min_child h i n)"
      using heap_but_down_swap "1.prems" by (simp add: heap_Less_def)
    with "1.IH" False "1.prems" show ?thesis
      by (simp add: heap_down.simps [of h i n])
  qed
qed

section \<open>The interface of a priority queue\<close>

text \<open>
  What the checkpoint manager relies on: \<open>push\<close> adds one element, \<open>peek\<close> reads a least element
  and \<open>pop\<close> removes it, both panic on an empty queue only, and the invariant is kept.
\<close>

locale min_queue =
  fixes push :: "'q \<Rightarrow> 'a::linorder \<Rightarrow> 'q"
    and pop :: "'q \<Rightarrow> ('a \<times> 'q) result"
    and peek :: "'q \<Rightarrow> 'a result"
    and elems :: "'q \<Rightarrow> 'a multiset"
    and invar :: "'q \<Rightarrow> bool"
  assumes elems_push: "invar q \<Longrightarrow> elems (push q x) = add_mset x (elems q)"
    and invar_push: "invar q \<Longrightarrow> invar (push q x)"
    and peek_min: "invar q \<Longrightarrow> elems q \<noteq> {#} \<Longrightarrow> \<exists>x. peek q = Inr x \<and> x \<in># elems q \<and> (\<forall>y \<in># elems q. x \<le> y)"
    and pop_peek: "invar q \<Longrightarrow> peek q = Inr x \<Longrightarrow> \<exists>q'. pop q = Inr (x, q') \<and> invar q' \<and> elems q = add_mset x (elems q')"
begin

text \<open>On a non-empty queue whose elements are all above \<open>c\<close>, the element at the top tells
  whether the successor of \<open>c\<close> is queued.\<close>

lemma peek_least_above:
  assumes "invar q" and "peek q = Inr x" and "\<forall>y \<in># elems q. c \<le> y" and "elems q \<noteq> {#}"
  shows "x = c \<longleftrightarrow> c \<in># elems q"
proof
  assume "x = c"
  then show "c \<in># elems q" using peek_min [OF assms(1,4)] assms(2) by auto
next
  assume "c \<in># elems q"
  then have "x \<le> c" "x \<in># elems q" using peek_min [OF assms(1,4)] assms(2) by auto
  then show "x = c" using assms(3) by force
qed

lemma peek_in_elems: "invar q \<Longrightarrow> elems q \<noteq> {#} \<Longrightarrow> peek q = Inr x \<Longrightarrow> x \<in># elems q"
  using peek_min by fastforce

lemma peek_le: "invar q \<Longrightarrow> peek q = Inr x \<Longrightarrow> y \<in># elems q \<Longrightarrow> x \<le> y"
  using peek_min [of q] by fastforce

lemma push_not_empty: "invar q \<Longrightarrow> elems (push q x) \<noteq> {#}"
  by (simp add: elems_push)

end

section \<open>The heap is a priority queue\<close>

definition heap_invar :: "uint64_heap \<Rightarrow> bool" where
  "heap_invar h \<longleftrightarrow> is_heap h (length h)"

lemma is_heap_root: "is_heap h n \<Longrightarrow> k < n \<Longrightarrow> h ! 0 \<le> h ! k"
proof (induction k rule: less_induct)
  case (less k)
  show ?case
  proof (cases "k = 0")
    case False
    then have "h ! parent k \<le> h ! k" "h ! 0 \<le> h ! parent k"
      using less.prems less.IH [of "parent k"] parent_less [of k]
      by (auto simp: is_heap_def)
    then show ?thesis by simp
  qed simp
qed

lemma root_le_elem: "heap_invar h \<Longrightarrow> y \<in> set h \<Longrightarrow> h ! 0 \<le> y"
  unfolding heap_invar_def in_set_conv_nth using is_heap_root by blast

lemma heap_push_correct:
  assumes "heap_invar h"
  shows "mset (heap_push h x) = add_mset x (mset h) \<and> heap_invar (heap_push h x)"
proof -
  have "heap_but_up (h @ [x]) (length (h @ [x])) (length h)"
    using assms by (auto simp: heap_but_up_def heap_invar_def is_heap_def nth_append parent_eq_iff
        dest: parent_less)
  moreover have "length h < length (h @ [x])" by simp
  ultimately have "is_heap (heap_up (h @ [x]) (length h)) (length (h @ [x]))"
    by (blast intro: heap_up_is_heap)
  then show ?thesis
    using heap_up_perm [of "length h" "h @ [x]"]
    by (simp add: heap_push_def heap_Push_def heap_Len_def Let_def heap_invar_def)
qed

lemma heap_pop_correct:
  assumes "heap_invar h" and "h \<noteq> []"
  shows "\<exists>h'. heap_pop h = Inr (h ! 0, h') \<and> heap_invar h' \<and> mset h = add_mset (h ! 0) (mset h')"
proof -
  define n where "n = length h - 1"
  define g where "g = heap_down (heap_Swap h 0 n) 0 n"
  have n: "n < length h" "0 < length h" using assms(2) by (auto simp: n_def)
  have "heap_but_down (heap_Swap h 0 n) n 0"
    using assms(1) n parent_eq_iff by (auto simp: heap_but_down_def nth_heap_Swap heap_invar_def is_heap_def)
  then have "is_heap g n"
    unfolding g_def using n by (intro heap_down_is_heap) auto
  moreover have g: "length g = length h" "mset g = mset h" "g ! n = h ! 0"
    using heap_down_perm [of n "heap_Swap h 0 n" 0] n by (auto simp: g_def nth_heap_Swap)
  ultimately have "heap_invar (butlast g)"
    by (simp add: heap_invar_def is_heap_def nth_butlast n_def)
  moreover have "g \<noteq> []" using g(1) assms(2) by auto
  moreover from this have "last g = h ! 0"
    using g by (simp add: last_conv_nth n_def)
  moreover from calculation have "mset h = add_mset (h ! 0) (mset (butlast g))"
    using mset_butlast_last [of g] g by simp
  ultimately show ?thesis
    using assms(2) by (simp add: heap_pop_def heap_Pop_def heap_Len_def Let_def n_def g_def)
qed

interpretation hq: min_queue heap_push heap_pop heap_Peek mset heap_invar
proof
  fix q :: uint64_heap and x :: u64
  assume inv: "heap_invar q"
  then show "mset (heap_push q x) = add_mset x (mset q)" and "heap_invar (heap_push q x)"
    using heap_push_correct by blast+
  show "\<exists>x. heap_Peek q = Inr x \<and> x \<in># mset q \<and> (\<forall>y \<in># mset q. x \<le> y)" if "mset q \<noteq> {#}"
    using that root_le_elem [OF inv] by (cases q) (auto simp: heap_Peek_def)
  show "\<exists>q'. heap_pop q = Inr (x, q') \<and> heap_invar q' \<and> mset q = add_mset x (mset q')"
    if "heap_Peek q = Inr x"
    using that heap_pop_correct [OF inv] by (cases q) (auto simp: heap_Peek_def)
qed

end
