(* ===== verification/Go_Std.thy ===== *)
theory Go_Std
  imports Relayer_Prelude
begin

text \<open>
  The parts of Go's standard library that the components compute with: decimal conversion
  (\<^verbatim>\<open>strconv.FormatUint\<close> and \<^verbatim>\<open>strconv.ParseUint\<close> in base 10), prefixes, joins and searches of
  \<^verbatim>\<open>strings\<close>, hexadecimal decoding of \<^verbatim>\<open>encoding/hex\<close> and the lexical path operations of
  \<^verbatim>\<open>path/filepath\<close>. The round trip of decimal conversion carries the persistence of block
  heights; the path lemmas keep the files of different relayers apart.
\<close>

section \<open>Decimal conversion\<close>

definition digit_char :: "nat \<Rightarrow> char" where
  "digit_char d = char_of (48 + d)"

text \<open>The value of a decimal digit character, \<open>None\<close> for any other character.\<close>

definition char_digit :: "char \<Rightarrow> nat option" where
  "char_digit c = (let n = (of_char c :: nat) in if 48 \<le> n \<and> n \<le> 57 then Some (n - 48) else None)"

fun decimal :: "nat \<Rightarrow> string" where
  "decimal n = (if n < 10 then [digit_char n] else decimal (n div 10) @ [digit_char (n mod 10)])"

declare decimal.simps [simp del]

definition FormatUint :: "u64 \<Rightarrow> string" where
  "FormatUint n = decimal (unat n)"

definition ErrSyntax :: error where
  "ErrSyntax = Sentinel ''invalid syntax''"

definition ErrRange :: error where
  "ErrRange = Sentinel ''value out of range''"

text \<open>
  The loop of \<^verbatim>\<open>ParseUint\<close>: a character that is no digit is a syntax error; an accumulator at the
  cutoff \<open>maxUint64 / 10 + 1\<close> would overflow when multiplied; an addition that wraps around is
  out of range.
\<close>

definition parse_cutoff :: u64 where
  "parse_cutoff = 1844674407370955162"

fun parse_uint_loop :: "u64 \<Rightarrow> string \<Rightarrow> u64 result" where
  "parse_uint_loop n [] = Inr n"
| "parse_uint_loop n (c # cs) =
     (case char_digit c of
        None \<Rightarrow> Inl (Wrap ''ParseUint'' ErrSyntax)
      | Some d \<Rightarrow>
          if n \<ge> parse_cutoff then Inl (Wrap ''ParseUint'' ErrRange)
          else let m = n * 10; n1 = m + of_nat d
               in if n1 < m then Inl (Wrap ''ParseUint'' ErrRange) else parse_uint_loop n1 cs)"

definition ParseUint :: "string \<Rightarrow> u64 result" where
  "ParseUint s = (if s = [] then Inl (Wrap ''ParseUint'' ErrSyntax) else parse_uint_loop 0 s)"

lemma char_digit_digit_char [simp]: "d < 10 \<Longrightarrow> char_digit (digit_char d) = Some d"
  by (simp add: char_digit_def digit_char_def Let_def)

lemma decimal_not_Nil [simp]: "decimal n \<noteq> []"
  by (subst decimal.simps) simp

text \<open>The numeric value of a digit string read from the left, starting at \<open>a\<close>.\<close>

fun digits_value :: "nat \<Rightarrow> string \<Rightarrow> nat option" where
  "digits_value a [] = Some a"
| "digits_value a (c # cs) =
     (case char_digit c of None \<Rightarrow> None | Some d \<Rightarrow> digits_value (10 * a + d) cs)"

lemma digits_value_append:
  "digits_value a (xs @ ys) = (case digits_value a xs of None \<Rightarrow> None | Some b \<Rightarrow> digits_value b ys)"
  by (induction xs arbitrary: a) (auto split: option.splits)

lemma digits_value_decimal: "digits_value 0 (decimal n) = Some n"
proof (induction n rule: decimal.induct)
  case (1 n)
  show ?case
    using "1.IH" by (subst decimal.simps) (auto simp: digits_value_append)
qed

lemma digits_value_mono: "digits_value a s = Some v \<Longrightarrow> a \<le> v"
proof (induction s arbitrary: a)
  case (Cons c cs)
  then show ?case by (fastforce split: option.splits)
qed simp

lemma char_digit_bound: "char_digit c = Some d \<Longrightarrow> d < 10"
  by (auto simp: char_digit_def Let_def split: if_splits)

lemma parse_step_exact:
  fixes n :: u64
  assumes "10 * unat n + d < 2 ^ 64" and "d < 10"
  shows "n < parse_cutoff" and "unat (n * 10 + of_nat d) = 10 * unat n + d"
    and "\<not> n * 10 + of_nat d < n * 10"
proof -
  have cutoff: "unat parse_cutoff = 1844674407370955162"
    by (simp add: parse_cutoff_def)
  show "n < parse_cutoff"
    using assms(1) unfolding word_less_nat_alt cutoff by simp
  have ten: "unat (n * 10) = 10 * unat n"
    using assms(1) by (simp add: unat_word_ariths)
  have d: "unat (of_nat d :: u64) = d"
    using assms(2) by (simp add: unat_of_nat)
  show sum: "unat (n * 10 + of_nat d) = 10 * unat n + d"
    using assms(1) by (simp add: unat_word_ariths ten d)
  show "\<not> n * 10 + of_nat d < n * 10"
    by (simp add: word_less_nat_alt sum ten)
qed

lemma parse_uint_loop_value:
  "digits_value (unat n) s = Some v \<Longrightarrow> v < 2 ^ 64 \<Longrightarrow> parse_uint_loop n s = Inr (of_nat v)"
proof (induction s arbitrary: n)
  case (Cons c cs)
  then obtain d where d: "char_digit c = Some d" "digits_value (10 * unat n + d) cs = Some v"
    by (auto split: option.splits)
  then have "10 * unat n + d < 2 ^ 64" "d < 10"
    using digits_value_mono Cons.prems(2) char_digit_bound by (fastforce, blast)
  note step = parse_step_exact [OF this]
  have "parse_uint_loop (n * 10 + of_nat d) cs = Inr (of_nat v)"
    using Cons.IH [of "n * 10 + of_nat d"] d(2) Cons.prems(2) step(2) by simp
  with d(1) step(1,3) show ?case
    by (simp add: Let_def not_le)
qed auto

lemma ParseUint_FormatUint [simp]: "ParseUint (FormatUint n) = Inr n"
proof -
  have "digits_value (unat (0::u64)) (decimal (unat n)) = Some (unat n)"
    by (simp add: digits_value_decimal)
  moreover have "unat n < 2 ^ 64"
    using unsigned_less [of n] by simp
  ultimately show ?thesis
    using parse_uint_loop_value [of 0 "decimal (unat n)" "unat n"]
    by (simp add: ParseUint_def FormatUint_def)
qed

section \<open>Strings\<close>

definition HasPrefix :: "string \<Rightarrow> string \<Rightarrow> bool" where
  "HasPrefix s p \<longleftrightarrow> take (length p) s = p"

definition TrimPrefix :: "string \<Rightarrow> string \<Rightarrow> string" where
  "TrimPrefix s p = (if HasPrefix s p then drop (length p) s else s)"

text \<open>\<^verbatim>\<open>strings.Index\<close>: the position of the first occurrence, \<open>None\<close> for the sources' -1.\<close>

fun string_Index :: "string \<Rightarrow> string \<Rightarrow> nat option" where
  "string_Index [] p = (if p = [] then Some 0 else None)"
| "string_Index (c # s) p =
     (if HasPrefix (c # s) p then Some 0 else map_option Suc (string_Index s p))"

definition string_Contains :: "string \<Rightarrow> string \<Rightarrow> bool" where
  "string_Contains s p \<longleftrightarrow> string_Index s p \<noteq> None"

text \<open>\<^verbatim>\<open>strings.Join\<close> and \<^verbatim>\<open>strings.Split\<close> for a separator of one character.\<close>

fun string_Join :: "string list \<Rightarrow> char \<Rightarrow> string" where
  "string_Join [] c = []"
| "string_Join [x] c = x"
| "string_Join (x # y # xs) c = x @ c # string_Join (y # xs) c"

fun string_Split :: "string \<Rightarrow> char \<Rightarrow> string list" where
  "string_Split [] c = [[]]"
| "string_Split (x # xs) c =
     (if x = c then [] # string_Split xs c
      else case string_Split xs c of [] \<Rightarrow> [[x]] | y # ys \<Rightarrow> (x # y) # ys)"

lemma string_Split_not_Nil [simp]: "string_Split s c \<noteq> []"
  by (cases s) (auto split: list.splits)

lemma string_Split_no_sep: "c \<notin> set s \<Longrightarrow> string_Split s c = [s]"
  by (induction s) auto

lemma string_Split_append:
  "string_Split (a @ c # b) c = string_Split a c @ string_Split b c"
  by (induction a) (auto split: list.splits)

lemma string_Split_Join:
  "xs \<noteq> [] \<Longrightarrow> (\<forall>x \<in> set xs. c \<notin> set x) \<Longrightarrow> string_Split (string_Join xs c) c = xs"
  by (induction xs c rule: string_Join.induct)
    (auto simp: string_Split_no_sep string_Split_append)

lemma string_Join_inj:
  assumes "string_Join xs c = string_Join ys c" and "xs \<noteq> []" and "ys \<noteq> []"
    and "\<forall>x \<in> set xs. c \<notin> set x" and "\<forall>y \<in> set ys. c \<notin> set y"
  shows "xs = ys"
  using assms string_Split_Join by metis

lemma string_Join_snoc: "xs \<noteq> [] \<Longrightarrow> string_Join (xs @ [y]) c = string_Join xs c @ c # y"
  by (induction xs c rule: string_Join.induct) auto

section \<open>Hexadecimal\<close>

definition hex_digit :: "char \<Rightarrow> nat option" where
  "hex_digit c =
     (let n = (of_char c :: nat)
      in if 48 \<le> n \<and> n \<le> 57 then Some (n - 48)
         else if 97 \<le> n \<and> n \<le> 102 then Some (n - 87)
         else if 65 \<le> n \<and> n \<le> 70 then Some (n - 55) else None)"

text \<open>\<^verbatim>\<open>hex.DecodeString\<close>: two digits a byte; a bad character or an odd length is an error.\<close>

fun hex_DecodeString :: "string \<Rightarrow> bytes result" where
  "hex_DecodeString [] = Inr []"
| "hex_DecodeString [c] =
     (case hex_digit c of None \<Rightarrow> Inl (Errorf ''invalid byte'') | Some _ \<Rightarrow> Inl (Sentinel ''odd length hex string''))"
| "hex_DecodeString (a # b # s) =
     (case (hex_digit a, hex_digit b) of
        (Some x, Some y) \<Rightarrow>
          (case hex_DecodeString s of Inl e \<Rightarrow> Inl e | Inr bs \<Rightarrow> Inr (of_nat (16 * x + y) # bs))
      | _ \<Rightarrow> Inl (Errorf ''invalid byte''))"

definition hex_char :: "nat \<Rightarrow> char" where
  "hex_char d = (if d < 10 then char_of (48 + d) else char_of (87 + d))"

definition hex_EncodeToString :: "bytes \<Rightarrow> string" where
  "hex_EncodeToString bs = concat (map (\<lambda>b. [hex_char (unat b div 16), hex_char (unat b mod 16)]) bs)"

lemma hex_digit_hex_char [simp]: "d < 16 \<Longrightarrow> hex_digit (hex_char d) = Some d"
  by (simp add: hex_digit_def hex_char_def Let_def)

lemma hex_DecodeString_EncodeToString [simp]: "hex_DecodeString (hex_EncodeToString bs) = Inr bs"
proof (induction bs)
  case (Cons b bs)
  have "unat b < 2 ^ LENGTH(8)" by (rule unsigned_less)
  then have "unat b div 16 < 16" by simp
  with Cons show ?case by (simp add: hex_EncodeToString_def)
qed (simp add: hex_EncodeToString_def)

section \<open>Paths\<close>

text \<open>
  \<^verbatim>\<open>filepath.Clean\<close> on a slash-separated path: empty and \<open>.\<close> elements go, \<open>..\<close> removes the element
  before it where there is one, and at the root it goes too. The stack holds the elements kept
  so far, the last one first.
\<close>

fun clean_elems :: "bool \<Rightarrow> string list \<Rightarrow> string list \<Rightarrow> string list" where
  "clean_elems rooted st [] = rev st"
| "clean_elems rooted st (e # es) =
     (if e = [] \<or> e = ''.'' then clean_elems rooted st es
      else if e = ''..'' then
        (case st of
           [] \<Rightarrow> if rooted then clean_elems rooted [] es else clean_elems rooted [e] es
         | t # ts \<Rightarrow> if t = ''..'' then clean_elems rooted (e # st) es else clean_elems rooted ts es)
      else clean_elems rooted (e # st) es)"

definition filepath_Clean :: "string \<Rightarrow> string" where
  "filepath_Clean p =
     (let rooted = HasPrefix p ''/'';
          s = string_Join (clean_elems rooted [] (string_Split p (CHR ''/''))) (CHR ''/'')
      in if rooted then CHR ''/'' # s else if s = [] then ''.'' else s)"

text \<open>\<^verbatim>\<open>filepath.Join\<close> ignores empty elements and cleans the rest.\<close>

definition filepath_Join :: "string list \<Rightarrow> string" where
  "filepath_Join ps =
     (let qs = filter (\<lambda>p. p \<noteq> []) ps
      in if qs = [] then [] else filepath_Clean (string_Join qs (CHR ''/'')))"

text \<open>A file name: one path element that \<open>Clean\<close> keeps.\<close>

definition plain_name :: "string \<Rightarrow> bool" where
  "plain_name n \<longleftrightarrow> CHR ''/'' \<notin> set n \<and> n \<noteq> [] \<and> n \<noteq> ''.'' \<and> n \<noteq> ''..''"

lemma clean_elems_snoc:
  assumes "plain_name n"
  shows "clean_elems r st (es @ [n]) = clean_elems r st es @ [n]"
  using assms by (induction r st es rule: clean_elems.induct) (auto simp: plain_name_def split: list.splits)

lemma filepath_Join_plain:
  assumes "plain_name n"
  shows "\<exists>pre. filepath_Join [d, n] = pre @ n \<and> (\<forall>m. plain_name m \<longrightarrow> filepath_Join [d, m] = pre @ m)"
proof (cases "d = []")
  case True
  have "filepath_Join [[], m] = m" if "plain_name m" for m
  proof -
    have "\<not> HasPrefix m ''/''" using that by (cases m) (auto simp: HasPrefix_def plain_name_def)
    with that show ?thesis
      by (simp add: filepath_Join_def filepath_Clean_def string_Split_no_sep plain_name_def)
  qed
  with True assms show ?thesis by (intro exI [of _ "[]"]) simp
next
  case False
  define r where "r = HasPrefix d ''/''"
  define ds where "ds = clean_elems r [] (string_Split d (CHR ''/''))"
  define pre where "pre = (if r then ''/'' else []) @ (if ds = [] then [] else string_Join ds (CHR ''/'') @ ''/'')"
  have "filepath_Join [d, m] = pre @ m" if m: "plain_name m" for m
  proof -
    have rooted: "HasPrefix (d @ CHR ''/'' # m) ''/'' = r"
      using False by (cases d) (auto simp: HasPrefix_def r_def)
    have elems: "clean_elems r [] (string_Split (d @ CHR ''/'' # m) (CHR ''/'')) = ds @ [m]"
      using m clean_elems_snoc [OF m]
      by (simp add: string_Split_append string_Split_no_sep plain_name_def ds_def)
    have joined: "string_Join (ds @ [m]) (CHR ''/'') = (if ds = [] then [] else string_Join ds (CHR ''/'') @ ''/'') @ m"
      by (simp add: string_Join_snoc)
    have "m \<noteq> []" using m by (simp add: plain_name_def)
    then show ?thesis
      unfolding filepath_Join_def filepath_Clean_def Let_def pre_def
      using False rooted elems joined by (cases r) simp_all
  qed
  with assms show ?thesis by blast
qed

end
