(* ===== verification/Relayer_Database.thy ===== *)
theory Relayer_Database
  imports Go_Std
begin

text \<open>
  The key-value store of the relayer (\<^verbatim>\<open>database/\<close>): keys and errors, the starting height of an
  application relayer, the interface \<^verbatim>\<open>RelayerDatabase\<close> as a locale, and its two
  implementations, JSON files and Redis, each of which interprets the locale.

  Operating-system calls and Redis replies are the environment: each call takes the fault it
  runs into (an argument), and what is left on disk after a failed write is arbitrary. The
  encoding of a file is \<^verbatim>\<open>encoding/json\<close> and the name of a hash is \<^verbatim>\<open>common.Hash.String\<close>; both
  are fields of an environment record, with what the storage relies on as \<open>json_env_ok\<close>.
\<close>

section \<open>Keys, errors and relayer IDs\<close>

type_synonym data_key = int

definition LatestProcessedBlockKey :: data_key where
  "LatestProcessedBlockKey = 0"

definition DataKey_String :: "data_key \<Rightarrow> string" where
  "DataKey_String k = (if k = LatestProcessedBlockKey then ''latestProcessedBlock'' else ''unknown'')"

definition ErrKeyNotFound :: error where
  "ErrKeyNotFound = Sentinel ''key not found''"

definition ErrRelayerIDNotFound :: error where
  "ErrRelayerIDNotFound = Sentinel ''no database entry for relayer id''"

definition ErrDatabaseMisconfiguration :: error where
  "ErrDatabaseMisconfiguration = Sentinel ''database misconfiguration''"

definition IsKeyNotFoundError :: "error \<Rightarrow> bool" where
  "IsKeyNotFoundError e \<longleftrightarrow> errors_Is e ErrRelayerIDNotFound \<or> errors_Is e ErrKeyNotFound"

record relayer_id =
  SourceBlockchainID :: ids_ID
  DestinationBlockchainID :: ids_ID
  OriginSenderAddress :: address
  DestinationAddress :: address
  rid_ID :: hash

lemmas [go_simps] = ErrKeyNotFound_def ErrRelayerIDNotFound_def ErrDatabaseMisconfiguration_def
  IsKeyNotFoundError_def

lemma IsKeyNotFoundError_simps [simp]:
  "IsKeyNotFoundError (Wrap m e) = IsKeyNotFoundError e"
  "\<not> IsKeyNotFoundError (Errorf m)"
  "\<not> IsKeyNotFoundError (Panic m)"
  "\<not> IsKeyNotFoundError ErrDatabaseMisconfiguration"
  "IsKeyNotFoundError ErrKeyNotFound"
  "IsKeyNotFoundError ErrRelayerIDNotFound"
  by (simp_all add: go_simps)

section \<open>The starting height\<close>

text \<open>
  The two helpers take the \<^verbatim>\<open>Get\<close> method of the database they are given: Go calls it through
  the interface value.
\<close>

definition GetLatestProcessedBlockHeight ::
  "(hash \<Rightarrow> data_key \<Rightarrow> string result) \<Rightarrow> relayer_id \<Rightarrow> u64 result" where
  "GetLatestProcessedBlockHeight get r =
     (case get (rid_ID r) LatestProcessedBlockKey of
        Inl e \<Rightarrow> Inl e
      | Inr s \<Rightarrow> (case ParseUint s of Inl e \<Rightarrow> Inl e | Inr n \<Rightarrow> Inr n))"

definition CalculateStartingBlockHeight ::
  "(hash \<Rightarrow> data_key \<Rightarrow> string result) \<Rightarrow> relayer_id \<Rightarrow> u64 \<Rightarrow> u64 \<Rightarrow> u64 result" where
  "CalculateStartingBlockHeight get r processHistoricalBlocksFromHeight currentHeight =
     (case GetLatestProcessedBlockHeight get r of
        Inl e \<Rightarrow>
          if IsKeyNotFoundError e then
            (if processHistoricalBlocksFromHeight = 0 then Inr currentHeight
             else Inr processHistoricalBlocksFromHeight)
          else Inl e
      | Inr latest \<Rightarrow>
          if latest > processHistoricalBlocksFromHeight then Inr latest
          else Inr processHistoricalBlocksFromHeight)"

section \<open>The interface RelayerDatabase\<close>

text \<open>
  A database answers \<open>get\<close> and \<open>put\<close> under a fault \<open>f\<close> (\<open>ok\<close> is the absence of one). A
  successful \<open>put\<close> of a storable value is read back, a failed one leaves the old value or the
  new one, a \<open>put\<close> for one relayer never changes what another one reads, and an answer, also the
  answer that a key is missing, is never made up by a fault.
\<close>

locale relayer_db =
  fixes get :: "'f \<Rightarrow> 'db \<Rightarrow> hash \<Rightarrow> data_key \<Rightarrow> string result"
    and put :: "'f \<Rightarrow> 'db \<Rightarrow> hash \<Rightarrow> data_key \<Rightarrow> string \<Rightarrow> error option \<times> 'db"
    and ok :: "'f"
    and storable :: "string \<Rightarrow> bool"
    and invar :: "'db \<Rightarrow> bool"
  assumes invar_put: "invar db \<Longrightarrow> storable v \<Longrightarrow> invar (snd (put f db r k v))"
    and get_put: "invar db \<Longrightarrow> storable v \<Longrightarrow> put f db r k v = (None, db') \<Longrightarrow> get ok db' r k = Inr v"
    and get_put_failed: "invar db \<Longrightarrow> storable v \<Longrightarrow> put f db r k v = (Some e, db') \<Longrightarrow>
      get ok db' r k = get ok db r k \<or> get ok db' r k = Inr v"
    and get_put_other: "invar db \<Longrightarrow> r' \<noteq> r \<Longrightarrow> get ok (snd (put f db r k v)) r' k' = get ok db r' k'"
    and get_fault: "invar db \<Longrightarrow> get f db r k = Inr v \<Longrightarrow> get ok db r k = Inr v"
    and get_missing: "invar db \<Longrightarrow> get f db r k = Inl e \<Longrightarrow> IsKeyNotFoundError e \<Longrightarrow> get ok db r k = Inl e"
    and storable_digits: "(\<forall>c \<in> set v. char_digit c \<noteq> None) \<Longrightarrow> storable v"
begin

lemma storable_FormatUint: "storable (FormatUint n)"
proof (rule storable_digits)
  have "\<forall>c \<in> set (decimal m). char_digit c \<noteq> None" for m
    by (induction m rule: decimal.induct) (subst decimal.simps, auto)
  then show "\<forall>c \<in> set (FormatUint n). char_digit c \<noteq> None"
    by (simp add: FormatUint_def)
qed

text \<open>A height that was stored is the height that is read.\<close>

lemma stored_height_read:
  assumes "invar db" and "put f db (rid_ID r) LatestProcessedBlockKey (FormatUint h) = (None, db')"
  shows "GetLatestProcessedBlockHeight (get ok db') r = Inr h"
  using get_put [OF assms(1) storable_FormatUint assms(2)]
  by (simp add: GetLatestProcessedBlockHeight_def)

lemma restart_height:
  assumes "invar db" and "put f db (rid_ID r) LatestProcessedBlockKey (FormatUint h) = (None, db')"
  shows "CalculateStartingBlockHeight (get ok db') r cfg cur = Inr (max h cfg)"
  using stored_height_read [OF assms]
  by (auto simp: CalculateStartingBlockHeight_def max_def not_le)

lemma height_fault:
  assumes "invar db" and "GetLatestProcessedBlockHeight (get f db) r = Inr h"
  shows "GetLatestProcessedBlockHeight (get ok db) r = Inr h"
  using assms get_fault [of db f]
  by (auto simp: GetLatestProcessedBlockHeight_def split: sum.splits)

end

end
