(* ===== verification/JSON_File_Storage.thy ===== *)
theory JSON_File_Storage
  imports Relayer_Database
begin

text \<open>
  \<^verbatim>\<open>database/json_file_storage.go\<close>: one JSON file per relayer ID, written through a temporary file
  and a rename. The theory shows that the storage is a \<open>relayer_db\<close>, whatever call fails.
\<close>

section \<open>The operating system\<close>

record 'b file_system =
  fs_files :: "string \<Rightarrow> 'b option"
  fs_dirs :: "string \<Rightarrow> bool"

text \<open>
  The errors the calls of one operation return: a failed \<^verbatim>\<open>os.WriteFile\<close> may leave anything at
  the path it was given.
\<close>

record 'b os_faults =
  flt_stat :: "string option"
  flt_read :: "string option"
  flt_write :: "(string \<times> 'b option) option"
  flt_rename :: "string option"
  flt_mkdir :: "string option"

definition no_faults :: "'b os_faults" where
  "no_faults = \<lparr>flt_stat = None, flt_read = None, flt_write = None, flt_rename = None, flt_mkdir = None\<rparr>"

definition ErrNotExist :: error where
  "ErrNotExist = Sentinel ''file does not exist''"

definition os_Stat :: "'b os_faults \<Rightarrow> 'b file_system \<Rightarrow> string \<Rightarrow> error option" where
  "os_Stat f fs p =
     (case flt_stat f of
        Some m \<Rightarrow> Some (Errorf m)
      | None \<Rightarrow> if fs_files fs p \<noteq> None \<or> fs_dirs fs p then None else Some ErrNotExist)"

definition os_ReadFile :: "'b os_faults \<Rightarrow> 'b file_system \<Rightarrow> string \<Rightarrow> 'b result" where
  "os_ReadFile f fs p =
     (case flt_read f of
        Some m \<Rightarrow> Inl (Errorf m)
      | None \<Rightarrow> (case fs_files fs p of None \<Rightarrow> Inl ErrNotExist | Some b \<Rightarrow> Inr b))"

definition os_WriteFile ::
  "'b os_faults \<Rightarrow> 'b file_system \<Rightarrow> string \<Rightarrow> 'b \<Rightarrow> error option \<times> 'b file_system" where
  "os_WriteFile f fs p b =
     (case flt_write f of
        Some (m, rest) \<Rightarrow> (Some (Errorf m), fs\<lparr>fs_files := (fs_files fs)(p := rest)\<rparr>)
      | None \<Rightarrow> (None, fs\<lparr>fs_files := (fs_files fs)(p \<mapsto> b)\<rparr>))"

definition os_Rename ::
  "'b os_faults \<Rightarrow> 'b file_system \<Rightarrow> string \<Rightarrow> string \<Rightarrow> error option \<times> 'b file_system" where
  "os_Rename f fs p q =
     (case flt_rename f of
        Some m \<Rightarrow> (Some (Errorf m), fs)
      | None \<Rightarrow>
          (case fs_files fs p of
             None \<Rightarrow> (Some ErrNotExist, fs)
           | Some b \<Rightarrow> (None, fs\<lparr>fs_files := (fs_files fs)(p := None, q \<mapsto> b)\<rparr>)))"

definition os_MkdirAll :: "'b os_faults \<Rightarrow> 'b file_system \<Rightarrow> string \<Rightarrow> error option \<times> 'b file_system" where
  "os_MkdirAll f fs p =
     (case flt_mkdir f of
        Some m \<Rightarrow> (Some (Errorf m), fs)
      | None \<Rightarrow> (None, fs\<lparr>fs_dirs := (fs_dirs fs)(p := True)\<rparr>))"

section \<open>The storage\<close>

type_synonym chainState = "string \<Rightarrow> string option"

text \<open>
  The environment of the storage: the text of a hash, the JSON encoding of a chain state, and
  which strings are valid UTF-8 (the ones JSON carries unchanged).
\<close>

record 'b json_env =
  je_hash_String :: "hash \<Rightarrow> string"
  je_Marshal :: "chainState \<Rightarrow> 'b result"
  je_Unmarshal :: "'b \<Rightarrow> chainState result"
  je_utf8 :: "string \<Rightarrow> bool"

record json_file_storage =
  js_dir :: string
  js_mutexes :: "hash set"
  js_currentState :: "hash \<Rightarrow> chainState option"

definition getFileName :: "'b json_env \<Rightarrow> json_file_storage \<Rightarrow> hash \<Rightarrow> string" where
  "getFileName env s rid = filepath_Join [js_dir s, je_hash_String env rid @ ''.json'']"

text \<open>\<^verbatim>\<open>json.Unmarshal\<close> into a map adds the decoded entries to those the map has.\<close>

definition json_read ::
  "'b json_env \<Rightarrow> 'b os_faults \<Rightarrow> json_file_storage \<Rightarrow> 'b file_system \<Rightarrow> hash \<Rightarrow> chainState
     \<Rightarrow> (chainState \<times> bool) result" where
  "json_read env f s fs rid v =
     (let path = getFileName env s rid
      in if (case os_Stat f fs path of None \<Rightarrow> False | Some e \<Rightarrow> errors_Is e ErrNotExist) then Inr (v, False)
         else case os_ReadFile f fs path of
             Inl e \<Rightarrow> Inl (Wrap ''failed to read file'' e)
           | Inr b \<Rightarrow>
               (case je_Unmarshal env b of
                  Inl e \<Rightarrow> Inl (Wrap ''failed to unmarshal json file'' e)
                | Inr m \<Rightarrow> Inr (v ++ m, True)))"

definition getCurrentState ::
  "'b json_env \<Rightarrow> 'b os_faults \<Rightarrow> json_file_storage \<Rightarrow> 'b file_system \<Rightarrow> hash
     \<Rightarrow> (chainState \<times> bool) result" where
  "getCurrentState env f s fs rid =
     (case json_read env f s fs rid Map.empty of
        Inl e \<Rightarrow> Inl e
      | Inr (currentState, fileExists) \<Rightarrow> Inr (currentState, fileExists))"

definition json_write ::
  "'b json_env \<Rightarrow> 'b os_faults \<Rightarrow> json_file_storage \<Rightarrow> 'b file_system \<Rightarrow> hash \<Rightarrow> chainState
     \<Rightarrow> error option \<times> 'b file_system" where
  "json_write env f s fs rid v =
     (let fnlPath = getFileName env s rid; tmpPath = fnlPath @ ''.tmp''
      in case je_Marshal env v of
           Inl e \<Rightarrow> (Some e, fs)
         | Inr b \<Rightarrow>
             (case os_WriteFile f fs tmpPath b of
                (Some e, fs1) \<Rightarrow> (Some (Wrap ''failed to write file'' e), fs1)
              | (None, fs1) \<Rightarrow>
                  (case os_Rename f fs1 tmpPath fnlPath of
                     (Some e, fs2) \<Rightarrow> (Some (Wrap ''failed to rename file'' e), fs2)
                   | (None, fs2) \<Rightarrow> (None, fs2))))"

definition JSON_Get ::
  "'b json_env \<Rightarrow> 'b os_faults \<Rightarrow> json_file_storage \<Rightarrow> 'b file_system \<Rightarrow> hash \<Rightarrow> data_key \<Rightarrow> string result" where
  "JSON_Get env f s fs relayerID dataKey =
     (if relayerID \<notin> js_mutexes s then Inl (Wrap ''database not configured for key'' ErrDatabaseMisconfiguration)
      else case getCurrentState env f s fs relayerID of
          Inl e \<Rightarrow> Inl e
        | Inr (currentState, fileExists) \<Rightarrow>
            if \<not> fileExists then Inl ErrRelayerIDNotFound
            else case currentState (DataKey_String dataKey) of
                None \<Rightarrow> Inl ErrKeyNotFound
              | Some val \<Rightarrow> Inr val)"

definition JSON_Put ::
  "'b json_env \<Rightarrow> 'b os_faults \<Rightarrow> json_file_storage \<Rightarrow> 'b file_system \<Rightarrow> hash \<Rightarrow> data_key \<Rightarrow> string
     \<Rightarrow> error option \<times> json_file_storage \<times> 'b file_system" where
  "JSON_Put env f s fs relayerID dataKey value =
     (if relayerID \<notin> js_mutexes s
      then (Some (Wrap ''database not configured for key'' ErrDatabaseMisconfiguration), s, fs)
      else case js_currentState s relayerID of
          None \<Rightarrow> (Some (Panic ''assignment to entry in nil map''), s, fs)
        | Some st \<Rightarrow>
            let st' = st(DataKey_String dataKey \<mapsto> value);
                s' = s\<lparr>js_currentState := (js_currentState s)(relayerID \<mapsto> st')\<rparr>;
                (err, fs') = json_write env f s' fs relayerID st'
            in (err, s', fs'))"

fun json_register :: "json_file_storage \<Rightarrow> relayer_id list \<Rightarrow> json_file_storage" where
  "json_register s [] = s"
| "json_register s (r # rs) =
     json_register (s\<lparr>js_currentState := (js_currentState s)(rid_ID r \<mapsto> Map.empty),
                      js_mutexes := insert (rid_ID r) (js_mutexes s)\<rparr>) rs"

text \<open>Each read of an existing file runs into the fault given for its relayer ID.\<close>

fun json_load ::
  "'b json_env \<Rightarrow> (hash \<Rightarrow> 'b os_faults) \<Rightarrow> 'b file_system \<Rightarrow> json_file_storage \<Rightarrow> relayer_id list
     \<Rightarrow> json_file_storage result" where
  "json_load env flt fs s [] = Inr s"
| "json_load env flt fs s (r # rs) =
     (case getCurrentState env (flt (rid_ID r)) s fs (rid_ID r) of
        Inl e \<Rightarrow> Inl e
      | Inr (currentState, fileExists) \<Rightarrow>
          json_load env flt fs
            (if fileExists then s\<lparr>js_currentState := (js_currentState s)(rid_ID r \<mapsto> currentState)\<rparr> else s) rs)"

definition NewJSONFileStorage ::
  "'b json_env \<Rightarrow> 'b os_faults \<Rightarrow> (hash \<Rightarrow> 'b os_faults) \<Rightarrow> 'b file_system \<Rightarrow> string \<Rightarrow> relayer_id list
     \<Rightarrow> json_file_storage result \<times> 'b file_system" where
  "NewJSONFileStorage env f flt fs dir relayerIDs =
     (let storage = json_register \<lparr>js_dir = filepath_Clean dir, js_mutexes = {}, js_currentState = Map.empty\<rparr> relayerIDs
      in case os_Stat f fs dir of
           None \<Rightarrow> (json_load env flt fs storage relayerIDs, fs)
         | Some _ \<Rightarrow>
             (case os_MkdirAll f fs dir of
                (Some e, fs1) \<Rightarrow> (Inl e, fs1)
              | (None, fs1) \<Rightarrow> (Inr storage, fs1)))"

lemmas json_defs [go_simps] = os_Stat_def os_ReadFile_def os_WriteFile_def os_Rename_def os_MkdirAll_def
  json_read_def getCurrentState_def json_write_def JSON_Get_def JSON_Put_def no_faults_def ErrNotExist_def

section \<open>What the storage relies on\<close>

text \<open>
  Hashes have distinct names that are plain file names; JSON decoding gives valid UTF-8, and what
  was encoded from valid UTF-8 is decoded unchanged; ASCII is valid UTF-8; a decoding error is no
  error of this package.
\<close>

definition utf8_state :: "'b json_env \<Rightarrow> chainState \<Rightarrow> bool" where
  "utf8_state env m \<longleftrightarrow> (\<forall>k v. m k = Some v \<longrightarrow> je_utf8 env k \<and> je_utf8 env v)"

definition ascii :: "string \<Rightarrow> bool" where
  "ascii s \<longleftrightarrow> (\<forall>c \<in> set s. (of_char c :: nat) < 128)"

definition json_env_ok :: "'b json_env \<Rightarrow> bool" where
  "json_env_ok env \<longleftrightarrow>
     inj (je_hash_String env) \<and>
     (\<forall>h. CHR ''/'' \<notin> set (je_hash_String env h)) \<and>
     (\<forall>s. ascii s \<longrightarrow> je_utf8 env s) \<and>
     (\<forall>b e. je_Unmarshal env b = Inl e \<longrightarrow> \<not> IsKeyNotFoundError e) \<and>
     (\<forall>b m. je_Unmarshal env b = Inr m \<longrightarrow> utf8_state env m) \<and>
     (\<forall>m b. utf8_state env m \<longrightarrow> je_Marshal env m = Inr b \<longrightarrow> je_Unmarshal env b = Inr m)"

text \<open>The invariant of a storage: every relayer with a mutex has a chain state, of valid strings.\<close>

definition json_storage_ok :: "'b json_env \<Rightarrow> json_file_storage \<Rightarrow> bool" where
  "json_storage_ok env s \<longleftrightarrow>
     (\<forall>r. r \<in> js_mutexes s \<longrightarrow> (\<exists>m. js_currentState s r = Some m \<and> utf8_state env m))"

lemma json_env_okD:
  assumes "json_env_ok env"
  shows "je_hash_String env r = je_hash_String env r' \<longleftrightarrow> r = r'"
    and "CHR ''/'' \<notin> set (je_hash_String env r)"
    and "ascii w \<Longrightarrow> je_utf8 env w"
    and "je_Unmarshal env b = Inr m \<Longrightarrow> utf8_state env m"
    and "je_Unmarshal env b = Inl e \<Longrightarrow> \<not> IsKeyNotFoundError e"
    and "utf8_state env m \<Longrightarrow> je_Marshal env m = Inr b \<Longrightarrow> je_Unmarshal env b = Inr m"
  using assms unfolding json_env_ok_def by (blast dest: injD)+

lemma ascii_key: "ascii (DataKey_String k)"
  by (auto simp: ascii_def DataKey_String_def)

lemma utf8_state_update:
  assumes "json_env_ok env" and "utf8_state env m" and "ascii v"
  shows "utf8_state env (m(DataKey_String k \<mapsto> v))"
  using assms(2) json_env_okD(3) [OF assms(1) assms(3)] json_env_okD(3) [OF assms(1) ascii_key]
  by (simp add: utf8_state_def)

section \<open>File names\<close>

lemma file_name_shape:
  assumes "json_env_ok env"
  shows "\<exists>pre. \<forall>r. getFileName env s r = pre @ je_hash_String env r @ ''.json''"
proof -
  have plain: "plain_name (je_hash_String env r @ ''.json'')" for r
  proof -
    have "je_hash_String env r @ ''.json'' \<noteq> ''.''" "je_hash_String env r @ ''.json'' \<noteq> ''..''"
      by (auto simp: append_eq_Cons_conv)
    then show ?thesis using json_env_okD(2) [OF assms] by (simp add: plain_name_def)
  qed
  obtain pre where "\<forall>m. plain_name m \<longrightarrow> filepath_Join [js_dir s, m] = pre @ m"
    using filepath_Join_plain [OF plain] by blast
  with plain show ?thesis by (auto simp: getFileName_def)
qed

lemma file_name_inj:
  assumes "json_env_ok env"
  shows "getFileName env s r = getFileName env s r' \<longleftrightarrow> r = r'"
proof -
  obtain pre where "\<forall>r. getFileName env s r = pre @ je_hash_String env r @ ''.json''"
    using file_name_shape [OF assms] by blast
  then show ?thesis by (simp add: json_env_okD(1) [OF assms])
qed

lemma tmp_not_final: "json_env_ok env \<Longrightarrow> getFileName env s r @ ''.tmp'' \<noteq> getFileName env s r'"
proof
  assume ok: "json_env_ok env" and eq: "getFileName env s r @ ''.tmp'' = getFileName env s r'"
  from file_name_shape [OF ok, of s] obtain pre where
    "\<forall>r. getFileName env s r = pre @ je_hash_String env r @ ''.json''" by blast
  with eq have "last (pre @ je_hash_String env r @ ''.json.tmp'') = last (pre @ je_hash_String env r' @ ''.json'')"
    by simp
  then show False by simp
qed

section \<open>The storage is a relayer database\<close>

text \<open>
  The state of the database is the storage with its environment and the file system. A \<^verbatim>\<open>Put\<close> writes
  the temporary file and the final file of its relayer only, and the final file only by the
  rename, when everything before it succeeded.
\<close>

lemma json_write_files:
  assumes "json_env_ok env"
  shows "q \<noteq> getFileName env s r \<Longrightarrow> q \<noteq> getFileName env s r @ ''.tmp'' \<Longrightarrow>
      fs_files (snd (json_write env f s fs r v)) q = fs_files fs q"
    and "fst (json_write env f s fs r v) \<noteq> None \<Longrightarrow>
      fs_files (snd (json_write env f s fs r v)) (getFileName env s r) = fs_files fs (getFileName env s r)"
    and "fst (json_write env f s fs r v) = None \<Longrightarrow>
      \<exists>b. je_Marshal env v = Inr b \<and> fs_files (snd (json_write env f s fs r v)) (getFileName env s r) = Some b"
    and "fs_dirs (snd (json_write env f s fs r v)) = fs_dirs fs"
  using tmp_not_final [OF assms, of s r r]
  by (auto simp: json_write_def os_WriteFile_def os_Rename_def Let_def split: sum.splits option.splits prod.splits)

lemma JSON_Get_eq:
  "JSON_Get env f s fs r k =
     (let p = getFileName env s r
      in if r \<notin> js_mutexes s then Inl (Wrap ''database not configured for key'' ErrDatabaseMisconfiguration)
         else if flt_stat f = None \<and> fs_files fs p = None \<and> \<not> fs_dirs fs p then Inl ErrRelayerIDNotFound
         else case os_ReadFile f fs p of
             Inl e \<Rightarrow> Inl (Wrap ''failed to read file'' e)
           | Inr b \<Rightarrow>
               (case je_Unmarshal env b of
                  Inl e \<Rightarrow> Inl (Wrap ''failed to unmarshal json file'' e)
                | Inr m \<Rightarrow> (case m (DataKey_String k) of None \<Rightarrow> Inl ErrKeyNotFound | Some v \<Rightarrow> Inr v)))"
proof -
  let ?p = "getFileName env s r"
  have "(case os_Stat f fs ?p of None \<Rightarrow> False | Some e \<Rightarrow> errors_Is e ErrNotExist) \<longleftrightarrow>
      flt_stat f = None \<and> fs_files fs ?p = None \<and> \<not> fs_dirs fs ?p"
    by (simp add: os_Stat_def ErrNotExist_def split: option.split)
  then show ?thesis
    by (simp add: JSON_Get_def getCurrentState_def json_read_def Let_def split: sum.split)
qed

lemma JSON_Get_files:
  assumes "fs_files fs' (getFileName env s r) = fs_files fs (getFileName env s r)"
    and "fs_dirs fs' = fs_dirs fs" and "js_mutexes s' = js_mutexes s" and "js_dir s' = js_dir s"
  shows "JSON_Get env f s' fs' r k = JSON_Get env f s fs r k"
proof -
  have name: "getFileName env s' r = getFileName env s r"
    using assms(4) by (simp add: getFileName_def)
  have read: "os_ReadFile f fs' (getFileName env s r) = os_ReadFile f fs (getFileName env s r)"
    unfolding os_ReadFile_def assms(1) by (rule refl)
  show ?thesis
    unfolding JSON_Get_eq Let_def name read assms by (rule refl)
qed

lemma JSON_Put_shape:
  fixes v :: string and k :: data_key
  assumes "r \<in> js_mutexes s" and "js_currentState s r = Some m"
  defines "m' \<equiv> m(DataKey_String k \<mapsto> v)"
  shows "JSON_Put env f s fs r k v =
    (fst (json_write env f s fs r m'), s\<lparr>js_currentState := (js_currentState s)(r \<mapsto> m')\<rparr>,
     snd (json_write env f s fs r m'))"
proof -
  have "json_write env f (s\<lparr>js_currentState := c\<rparr>) fs r m' = json_write env f s fs r m'" for c
    by (simp add: json_write_def getFileName_def)
  with assms(1,2) show ?thesis
    by (simp add: JSON_Put_def Let_def m'_def case_prod_beta)
qed

definition jdb_get :: "'b os_faults \<Rightarrow> 'b json_env \<times> json_file_storage \<times> 'b file_system \<Rightarrow> hash \<Rightarrow> data_key \<Rightarrow> string result" where
  "jdb_get f db = JSON_Get (fst db) f (fst (snd db)) (snd (snd db))"

definition jdb_put :: "'b os_faults \<Rightarrow> 'b json_env \<times> json_file_storage \<times> 'b file_system \<Rightarrow> hash \<Rightarrow> data_key \<Rightarrow> string
    \<Rightarrow> error option \<times> 'b json_env \<times> json_file_storage \<times> 'b file_system" where
  "jdb_put f db r k v =
     (let (e, s, fs) = JSON_Put (fst db) f (fst (snd db)) (snd (snd db)) r k v in (e, fst db, s, fs))"

definition jdb_ok :: "'b json_env \<times> json_file_storage \<times> 'b file_system \<Rightarrow> bool" where
  "jdb_ok db \<longleftrightarrow> json_env_ok (fst db) \<and> json_storage_ok (fst db) (fst (snd db))"

lemma JSON_Put_unconfigured: "r \<notin> js_mutexes s \<Longrightarrow> fst (JSON_Put env f s fs r k v) \<noteq> None \<and> snd (JSON_Put env f s fs r k v) = (s, fs)"
  by (simp add: JSON_Put_def)

lemma JSON_Get_written:
  assumes "r \<in> js_mutexes s" and "fs_files fs (getFileName env s r) = Some b" and "je_Unmarshal env b = Inr m"
    and "m (DataKey_String k) = Some v"
  shows "JSON_Get env no_faults s fs r k = Inr v"
  using assms by (simp add: JSON_Get_eq Let_def os_ReadFile_def no_faults_def)

lemma jdb_invar_put: "jdb_ok db \<Longrightarrow> ascii v \<Longrightarrow> jdb_ok (snd (jdb_put f db r k v))"
proof -
  assume ok: "jdb_ok db" and v: "ascii v"
  obtain env s fs where db: "db = (env, s, fs)" by (cases db)
  have env: "json_env_ok env" and st: "json_storage_ok env s"
    using ok by (auto simp: jdb_ok_def db)
  show ?thesis
  proof (cases "r \<in> js_mutexes s")
    case True
    then obtain m where m: "js_currentState s r = Some m" "utf8_state env m"
      using st by (auto simp: json_storage_ok_def)
    show ?thesis
      using env st utf8_state_update [OF env m(2) v]
      by (simp add: jdb_ok_def jdb_put_def db JSON_Put_shape [OF True m(1)] json_storage_ok_def)
  next
    case False
    with ok show ?thesis
      by (simp add: jdb_put_def db JSON_Put_def)
  qed
qed

lemma jdb_get_put:
  assumes "jdb_ok db" and v: "ascii v" and put: "jdb_put f db r k v = (None, db')"
  shows "jdb_get no_faults db' r k = Inr v"
proof -
  obtain env s fs where db: "db = (env, s, fs)" by (cases db)
  have env: "json_env_ok env" and st: "json_storage_ok env s"
    using assms(1) by (auto simp: jdb_ok_def db)
  have r: "r \<in> js_mutexes s"
    using put JSON_Put_unconfigured [of r s env f fs k v]
    by (auto simp: jdb_put_def db split: prod.splits)
  then obtain m where m: "js_currentState s r = Some m" "utf8_state env m"
    using st by (auto simp: json_storage_ok_def)
  define m' where "m' = m(DataKey_String k \<mapsto> v)"
  define w where "w = json_write env f s fs r m'"
  have w: "fst w = None" "db' = (env, s\<lparr>js_currentState := (js_currentState s)(r \<mapsto> m')\<rparr>, snd w)"
    using put by (auto simp: jdb_put_def db JSON_Put_shape [OF r m(1)] w_def m'_def)
  obtain b where b: "je_Marshal env m' = Inr b" "fs_files (snd w) (getFileName env s r) = Some b"
    using json_write_files(3) [OF env, of f s fs r m'] w(1) by (auto simp: w_def)
  have "je_Unmarshal env b = Inr m'"
    using json_env_okD(6) [OF env] utf8_state_update [OF env m(2) v] b(1) by (simp add: m'_def)
  then show ?thesis
    using r b(2) unfolding w(2) jdb_get_def
    by (intro JSON_Get_written [of _ _ _ _ b m']) (auto simp: getFileName_def m'_def)
qed

lemma jdb_put_files:
  assumes "jdb_ok db"
  shows "r' \<noteq> r \<or> fst (jdb_put f db r k v) \<noteq> None \<Longrightarrow>
    jdb_get g (snd (jdb_put f db r k v)) r' k' = jdb_get g db r' k'"
proof -
  assume other: "r' \<noteq> r \<or> fst (jdb_put f db r k v) \<noteq> None"
  obtain env s fs where db: "db = (env, s, fs)" by (cases db)
  have env: "json_env_ok env" and st: "json_storage_ok env s"
    using assms by (auto simp: jdb_ok_def db)
  show ?thesis
  proof (cases "r \<in> js_mutexes s")
    case True
    then obtain m where m: "js_currentState s r = Some m"
      using st by (auto simp: json_storage_ok_def)
    let ?w = "json_write env f s fs r (m(DataKey_String k \<mapsto> v))"
    have "fs_files (snd ?w) (getFileName env s r') = fs_files fs (getFileName env s r')"
    proof (cases "r' = r")
      case True
      with other have "fst ?w \<noteq> None"
        by (simp add: jdb_put_def db JSON_Put_shape [OF \<open>r \<in> js_mutexes s\<close> m])
      with True show ?thesis using json_write_files(2) [OF env] by simp
    next
      case False
      then show ?thesis
        using json_write_files(1) [OF env] file_name_inj [OF env] tmp_not_final [OF env, of s r r'] by metis
    qed
    then have "JSON_Get env g (s\<lparr>js_currentState := c\<rparr>) (snd ?w) r' k' = JSON_Get env g s fs r' k'" for c
      by (intro JSON_Get_files) (simp_all add: json_write_files(4) [OF env])
    then show ?thesis
      by (simp add: jdb_get_def jdb_put_def db JSON_Put_shape [OF True m])
  next
    case False
    then show ?thesis by (simp add: jdb_get_def jdb_put_def db JSON_Put_def)
  qed
qed

lemma os_ReadFile_fault: "os_ReadFile f fs p = Inr b \<Longrightarrow> os_ReadFile no_faults fs p = Inr b \<and> fs_files fs p = Some b"
  by (simp add: os_ReadFile_def no_faults_def split: option.splits)

lemma jdb_get_fault: "jdb_get f db r k = Inr v \<Longrightarrow> jdb_get no_faults db r k = Inr v"
  by (auto simp: jdb_get_def JSON_Get_eq Let_def dest: os_ReadFile_fault
      split: if_split_asm sum.split_asm option.split_asm)

lemma ReadFile_error_not_missing: "os_ReadFile f fs p = Inl e \<Longrightarrow> \<not> IsKeyNotFoundError e"
  by (auto simp: os_ReadFile_def go_simps split: option.splits)

lemma JSON_Get_missing_cases:
  assumes "json_env_ok env" and "JSON_Get env f s fs r k = Inl e" and "IsKeyNotFoundError e"
  defines "p \<equiv> getFileName env s r"
  shows "r \<in> js_mutexes s \<and>
    (fs_files fs p = None \<and> \<not> fs_dirs fs p \<and> e = ErrRelayerIDNotFound \<or>
     (\<exists>b m. fs_files fs p = Some b \<and> je_Unmarshal env b = Inr m \<and> m (DataKey_String k) = None \<and> e = ErrKeyNotFound))"
  using assms(2,3) json_env_okD(5) [OF assms(1)] ReadFile_error_not_missing [of f fs p]
  by (auto simp: JSON_Get_eq Let_def p_def dest: os_ReadFile_fault
      split: if_split_asm sum.split_asm option.split_asm)

lemma jdb_get_missing:
  assumes "jdb_ok db" and "jdb_get f db r k = Inl e" and "IsKeyNotFoundError e"
  shows "jdb_get no_faults db r k = Inl e"
  using JSON_Get_missing_cases [OF _ assms(2) [unfolded jdb_get_def] assms(3)] assms(1)
  by (auto simp: jdb_ok_def jdb_get_def JSON_Get_eq Let_def no_faults_def os_ReadFile_def)

lemma digits_ascii: "\<forall>c \<in> set v. char_digit c \<noteq> None \<Longrightarrow> ascii v"
  by (fastforce simp: ascii_def char_digit_def Let_def split: if_splits)

interpretation jdb: relayer_db jdb_get jdb_put no_faults ascii jdb_ok
proof
  show "jdb_get no_faults db' r k = jdb_get no_faults db r k \<or> jdb_get no_faults db' r k = Inr v"
    if "jdb_ok db" "jdb_put f db r k v = (Some e, db')" for db f r k v e db'
    using jdb_put_files [of db r r f k v no_faults k] that by simp
qed (auto intro: jdb_invar_put jdb_get_put jdb_put_files jdb_get_fault jdb_get_missing digits_ascii)

section \<open>A concrete environment\<close>

text \<open>
  An instance of the environment, for evaluating the storage: hashes are named by their decimal
  value and a file holds the chain state itself.
\<close>

definition sample_json_env :: "chainState json_env" where
  "sample_json_env =
     \<lparr>je_hash_String = \<lambda>h. decimal (unat h), je_Marshal = Inr, je_Unmarshal = Inr, je_utf8 = \<lambda>_. True\<rparr>"

definition sample_storage :: "hash \<Rightarrow> json_file_storage" where
  "sample_storage r = json_register \<lparr>js_dir = ''db'', js_mutexes = {}, js_currentState = Map.empty\<rparr>
     [\<lparr>SourceBlockchainID = 1, DestinationBlockchainID = 2, OriginSenderAddress = 0, DestinationAddress = 0, rid_ID = r\<rparr>]"

lemma decimal_inj [simp]: "decimal m = decimal n \<longleftrightarrow> m = n"
  by (metis digits_value_decimal option.inject)

lemma decimal_digits: "\<forall>c \<in> set (decimal m). char_digit c \<noteq> None"
  by (induction m rule: decimal.induct) (subst decimal.simps, auto)

lemma decimal_no_special: "CHR ''/'' \<notin> set (decimal m)" "CHR ''-'' \<notin> set (decimal m)"
  using decimal_digits [of m] by (auto simp: char_digit_def)

lemma sample_json_env_ok: "json_env_ok sample_json_env"
  by (auto simp: json_env_ok_def sample_json_env_def utf8_state_def decimal_no_special
      intro!: injI dest: unsigned_word_eqI)

lemma sample_jdb_ok: "jdb_ok (sample_json_env, sample_storage r, fs)"
  by (simp add: jdb_ok_def sample_json_env_ok json_storage_ok_def sample_storage_def utf8_state_def)

end
