(* ===== verification/Redis_Database.thy ===== *)
theory Redis_Database
  imports JSON_File_Storage
begin

text \<open>
  \<^verbatim>\<open>database/redis.go\<close> and the choice between the two stores in \<^verbatim>\<open>database/database.go\<close>. The Redis
  client is a third-party package that talks to a server: it is the environment record
  \<open>redis_env\<close>, and what the store relies on is \<open>redis_env_ok\<close>.
\<close>

section \<open>The store\<close>

datatype redis_reply = RedisVal string | RedisNil | RedisErr string

text \<open>The state \<open>'r\<close> is the server's, \<open>'f\<close> the fault a request runs into.\<close>

record ('f, 'r) redis_env =
  re_hash_Hex :: "hash \<Rightarrow> string"
  re_Get :: "'f \<Rightarrow> 'r \<Rightarrow> string \<Rightarrow> redis_reply"
  re_Set :: "'f \<Rightarrow> 'r \<Rightarrow> string \<Rightarrow> string \<Rightarrow> string option \<times> 'r"

definition constructCompositeKey :: "('f, 'r) redis_env \<Rightarrow> hash \<Rightarrow> data_key \<Rightarrow> string" where
  "constructCompositeKey env relayerID key =
     string_Join [re_hash_Hex env relayerID, DataKey_String key] (CHR ''-'')"

definition Redis_Get :: "('f, 'r) redis_env \<Rightarrow> 'f \<Rightarrow> 'r \<Rightarrow> hash \<Rightarrow> data_key \<Rightarrow> string result" where
  "Redis_Get env f r relayerID key =
     (case re_Get env f r (constructCompositeKey env relayerID key) of
        RedisNil \<Rightarrow> Inl ErrKeyNotFound
      | RedisErr m \<Rightarrow> Inl (Errorf m)
      | RedisVal v \<Rightarrow> Inr v)"

definition Redis_Put ::
  "('f, 'r) redis_env \<Rightarrow> 'f \<Rightarrow> 'r \<Rightarrow> hash \<Rightarrow> data_key \<Rightarrow> string \<Rightarrow> error option \<times> 'r" where
  "Redis_Put env f r relayerID key value =
     (case re_Set env f r (constructCompositeKey env relayerID key) value of
        (Some m, r') \<Rightarrow> (Some (Errorf m), r')
      | (None, r') \<Rightarrow> (None, r'))"

text \<open>The client options come from \<^verbatim>\<open>redis.ParseURL\<close>, the client from the options.\<close>

definition NewRedisDatabase :: "(string \<Rightarrow> 'o result) \<Rightarrow> ('o \<Rightarrow> 'r) \<Rightarrow> string \<Rightarrow> relayer_id list \<Rightarrow> 'r result" where
  "NewRedisDatabase parseURL newClient redisURL relayerIDs =
     (case parseURL redisURL of Inl e \<Rightarrow> Inl e | Inr opts \<Rightarrow> Inr (newClient opts))"

section \<open>Choosing the store\<close>

datatype 'r relayer_database = RedisDatabase 'r | JSONFileStorage json_file_storage

definition NewDatabase ::
  "(string \<Rightarrow> 'o result) \<Rightarrow> ('o \<Rightarrow> 'r) \<Rightarrow> 'b json_env \<Rightarrow> 'b os_faults \<Rightarrow> (hash \<Rightarrow> 'b os_faults) \<Rightarrow> 'b file_system
     \<Rightarrow> string \<Rightarrow> string \<Rightarrow> relayer_id list \<Rightarrow> 'r relayer_database result \<times> 'b file_system" where
  "NewDatabase parseURL newClient env f flt fs redisURL storageLocation relayerIDs =
     (if redisURL \<noteq> [] then
        (case NewRedisDatabase parseURL newClient redisURL relayerIDs of
           Inl e \<Rightarrow> (Inl e, fs)
         | Inr db \<Rightarrow> (Inr (RedisDatabase db), fs))
      else
        (case NewJSONFileStorage env f flt fs storageLocation relayerIDs of
           (Inl e, fs') \<Rightarrow> (Inl e, fs')
         | (Inr db, fs') \<Rightarrow> (Inr (JSONFileStorage db), fs')))"

section \<open>Redis is a relayer database\<close>

text \<open>
  Hashes have distinct hexadecimal names without the delimiter. A value that was set is read, a
  set changes its own key only, a failed set leaves the old value or the new one, and replies
  other than errors do not depend on the fault.
\<close>

definition redis_env_ok :: "('f, 'r) redis_env \<Rightarrow> 'f \<Rightarrow> bool" where
  "redis_env_ok env ok \<longleftrightarrow>
     inj (re_hash_Hex env) \<and>
     (\<forall>h. CHR ''-'' \<notin> set (re_hash_Hex env h)) \<and>
     (\<forall>f r k v r'. re_Set env f r k v = (None, r') \<longrightarrow> re_Get env ok r' k = RedisVal v) \<and>
     (\<forall>f r k v e r'. re_Set env f r k v = (Some e, r') \<longrightarrow>
        re_Get env ok r' k = re_Get env ok r k \<or> re_Get env ok r' k = RedisVal v) \<and>
     (\<forall>f r k v k'. k' \<noteq> k \<longrightarrow> re_Get env ok (snd (re_Set env f r k v)) k' = re_Get env ok r k') \<and>
     (\<forall>f r k. (\<forall>m. re_Get env f r k \<noteq> RedisErr m) \<longrightarrow> re_Get env f r k = re_Get env ok r k)"

lemma redis_env_okD:
  assumes "redis_env_ok env ok"
  shows "re_hash_Hex env h = re_hash_Hex env h' \<longleftrightarrow> h = h'"
    and "CHR ''-'' \<notin> set (re_hash_Hex env h)"
    and "re_Set env f r k v = (None, r') \<Longrightarrow> re_Get env ok r' k = RedisVal v"
    and "re_Set env f r k v = (Some e, r') \<Longrightarrow> re_Get env ok r' k = re_Get env ok r k \<or> re_Get env ok r' k = RedisVal v"
    and "k' \<noteq> k \<Longrightarrow> re_Get env ok (snd (re_Set env f r k v)) k' = re_Get env ok r k'"
    and "re_Get env f r k = RedisVal v \<Longrightarrow> re_Get env ok r k = RedisVal v"
    and "re_Get env f r k = RedisNil \<Longrightarrow> re_Get env ok r k = RedisNil"
proof -
  have inj: "inj (re_hash_Hex env)"
    and dash: "\<forall>h. CHR ''-'' \<notin> set (re_hash_Hex env h)"
    and set_ok: "\<forall>f r k v r'. re_Set env f r k v = (None, r') \<longrightarrow> re_Get env ok r' k = RedisVal v"
    and set_err: "\<forall>f r k v e r'. re_Set env f r k v = (Some e, r') \<longrightarrow>
        re_Get env ok r' k = re_Get env ok r k \<or> re_Get env ok r' k = RedisVal v"
    and set_other: "\<forall>f r k v k'. k' \<noteq> k \<longrightarrow> re_Get env ok (snd (re_Set env f r k v)) k' = re_Get env ok r k'"
    and get_f: "\<forall>f r k. (\<forall>m. re_Get env f r k \<noteq> RedisErr m) \<longrightarrow> re_Get env f r k = re_Get env ok r k"
    using assms unfolding redis_env_ok_def by - (elim conjE, assumption)+
  show "re_hash_Hex env h = re_hash_Hex env h' \<longleftrightarrow> h = h'" using inj by (simp add: inj_eq)
  show "CHR ''-'' \<notin> set (re_hash_Hex env h)" using dash by blast
  show "re_Set env f r k v = (None, r') \<Longrightarrow> re_Get env ok r' k = RedisVal v" using set_ok by blast
  show "re_Set env f r k v = (Some e, r') \<Longrightarrow> re_Get env ok r' k = re_Get env ok r k \<or> re_Get env ok r' k = RedisVal v"
    using set_err by blast
  show "k' \<noteq> k \<Longrightarrow> re_Get env ok (snd (re_Set env f r k v)) k' = re_Get env ok r k'" using set_other by blast
  show "re_Get env ok r k = RedisVal v" if "re_Get env f r k = RedisVal v"
    using get_f [rule_format, of f r k] that by simp
  show "re_Get env ok r k = RedisNil" if "re_Get env f r k = RedisNil"
    using get_f [rule_format, of f r k] that by simp
qed

lemma no_delimiter_in_key: "CHR ''-'' \<notin> set (DataKey_String k)"
  by (simp add: DataKey_String_def)

lemma constructCompositeKey_inj:
  assumes "redis_env_ok env ok" and "constructCompositeKey env h k = constructCompositeKey env h' k'"
  shows "h = h' \<and> DataKey_String k = DataKey_String k'"
proof -
  have "[re_hash_Hex env h, DataKey_String k] = [re_hash_Hex env h', DataKey_String k']"
    using assms(2) unfolding constructCompositeKey_def
    by (rule string_Join_inj) (auto simp: no_delimiter_in_key redis_env_okD(2) [OF assms(1)])
  then show ?thesis by (simp add: redis_env_okD(1) [OF assms(1)])
qed

text \<open>The fault type carries the distinguished absence of a fault as its first component.\<close>

definition rdb_get :: "'f option \<Rightarrow> (('f, 'r) redis_env \<times> 'f) \<times> 'r \<Rightarrow> hash \<Rightarrow> data_key \<Rightarrow> string result" where
  "rdb_get f db = Redis_Get (fst (fst db)) (case f of None \<Rightarrow> snd (fst db) | Some x \<Rightarrow> x) (snd db)"

definition rdb_put ::
  "'f option \<Rightarrow> (('f, 'r) redis_env \<times> 'f) \<times> 'r \<Rightarrow> hash \<Rightarrow> data_key \<Rightarrow> string
     \<Rightarrow> error option \<times> (('f, 'r) redis_env \<times> 'f) \<times> 'r" where
  "rdb_put f db h k v =
     (let (e, r) = Redis_Put (fst (fst db)) (case f of None \<Rightarrow> snd (fst db) | Some x \<Rightarrow> x) (snd db) h k v
      in (e, fst db, r))"

definition rdb_ok :: "(('f, 'r) redis_env \<times> 'f) \<times> 'r \<Rightarrow> bool" where
  "rdb_ok db \<longleftrightarrow> redis_env_ok (fst (fst db)) (snd (fst db))"

lemma rdb_get_put_other:
  assumes "rdb_ok db" and "h' \<noteq> h"
  shows "rdb_get None (snd (rdb_put f db h k v)) h' k' = rdb_get None db h' k'"
proof -
  have "constructCompositeKey (fst (fst db)) h' k' \<noteq> constructCompositeKey (fst (fst db)) h k"
    using constructCompositeKey_inj [OF assms(1) [unfolded rdb_ok_def]] assms(2) by blast
  from redis_env_okD(5) [OF assms(1) [unfolded rdb_ok_def] this] show ?thesis
    by (auto simp: rdb_get_def rdb_put_def Redis_Get_def Redis_Put_def split: prod.splits option.splits)
      (metis snd_conv)+
qed

interpretation rdb: relayer_db rdb_get rdb_put None "\<lambda>_. True" rdb_ok
proof
  fix db :: "(('f, 'r) redis_env \<times> 'f) \<times> 'r" and f h k v db' e h' k'
  assume ok: "rdb_ok db"
  note okD = redis_env_okD [OF ok [unfolded rdb_ok_def]]
  show "rdb_ok (snd (rdb_put f db h k v))"
    using ok by (simp add: rdb_ok_def rdb_put_def split: prod.splits)
  show "rdb_get None db' h k = Inr v" if "rdb_put f db h k v = (None, db')"
    using that okD(3)
    by (auto simp: rdb_put_def Redis_Put_def rdb_get_def Redis_Get_def split: prod.splits option.splits)
  show "rdb_get None db' h k = rdb_get None db h k \<or> rdb_get None db' h k = Inr v"
    if "rdb_put f db h k v = (Some e, db')"
    using that okD(4) [of _ "snd db" "constructCompositeKey (fst (fst db)) h k" v]
    by (fastforce simp: rdb_put_def Redis_Put_def rdb_get_def Redis_Get_def split: prod.splits option.splits)
  show "rdb_get None (snd (rdb_put f db h k v)) h' k' = rdb_get None db h' k'" if "h' \<noteq> h"
    using rdb_get_put_other ok that by blast
  show "rdb_get None db h k = Inr v" if "rdb_get f db h k = Inr v"
    using that okD(6) by (auto simp: rdb_get_def Redis_Get_def split: redis_reply.splits option.splits)
  show "rdb_get None db h k = Inl e" if "rdb_get f db h k = Inl e" "IsKeyNotFoundError e"
    using that okD(7) by (auto simp: rdb_get_def Redis_Get_def split: redis_reply.splits option.splits)
qed simp

section \<open>A concrete environment\<close>

text \<open>A server that keeps a map and fails a request when told to.\<close>

definition sample_redis_env :: "(bool, string \<Rightarrow> string option) redis_env" where
  "sample_redis_env =
     \<lparr>re_hash_Hex = \<lambda>h. decimal (unat h),
      re_Get = \<lambda>f r k. if f then RedisErr ''timeout'' else case r k of None \<Rightarrow> RedisNil | Some v \<Rightarrow> RedisVal v,
      re_Set = \<lambda>f r k v. if f then (Some ''timeout'', r) else (None, r(k \<mapsto> v))\<rparr>"

lemma sample_redis_env_ok: "redis_env_ok sample_redis_env False"
  by (auto simp: redis_env_ok_def sample_redis_env_def decimal_no_special intro!: injI dest: unsigned_word_eqI
      split: option.splits if_splits)

lemma sample_rdb_ok: "rdb_ok ((sample_redis_env, False), r)"
  by (simp add: rdb_ok_def sample_redis_env_ok)

end
