(* ===== verification/Checkpoint.thy ===== *)
theory Checkpoint
  imports UInt64_Heap Redis_Database
begin

text \<open>
  \<^verbatim>\<open>relayer/checkpoint/checkpoint.go\<close>: the checkpoint manager of an application relayer. Heights
  are staged in any order as blocks finish, wait in the min-heap until every height below them
  is staged, and the committed height is written to the database at each write signal. Both
  entry points hold the manager's lock, so each call is one step of the machine
  \<open>checkpoint_reach\<close>.
\<close>

section \<open>The manager\<close>

record checkpoint_manager =
  cm_relayerID :: relayer_id
  committedHeight :: u64
  pendingCommits :: uint64_heap

definition NewCheckpointManager :: "relayer_id \<Rightarrow> u64 \<Rightarrow> checkpoint_manager" where
  "NewCheckpointManager r startingHeight =
     \<lparr>cm_relayerID = r, committedHeight = startingHeight, pendingCommits = heap_Init []\<rparr>"

text \<open>
  The method takes the two methods of the database it is given. A missing entry leaves the
  stored height at Go's zero value.
\<close>

definition writeToDatabase ::
  "('db \<Rightarrow> hash \<Rightarrow> data_key \<Rightarrow> string result) \<Rightarrow>
   ('db \<Rightarrow> hash \<Rightarrow> data_key \<Rightarrow> string \<Rightarrow> error option \<times> 'db) \<Rightarrow> checkpoint_manager \<Rightarrow> 'db \<Rightarrow> 'db" where
  "writeToDatabase get put cm db =
     (let put_height = snd (put db (rid_ID (cm_relayerID cm)) LatestProcessedBlockKey (FormatUint (committedHeight cm)))
      in if committedHeight cm = 0 then db
         else case GetLatestProcessedBlockHeight (get db) (cm_relayerID cm) of
             Inl e \<Rightarrow> if \<not> IsKeyNotFoundError e then db else if 0 \<ge> committedHeight cm then db else put_height
           | Inr storedHeight \<Rightarrow> if storedHeight \<ge> committedHeight cm then db else put_height)"

text \<open>One call per write signal; each call reads and writes under faults of its own.\<close>

fun listenForWriteSignal ::
  "('f \<Rightarrow> 'db \<Rightarrow> hash \<Rightarrow> data_key \<Rightarrow> string result) \<Rightarrow>
   ('f \<Rightarrow> 'db \<Rightarrow> hash \<Rightarrow> data_key \<Rightarrow> string \<Rightarrow> error option \<times> 'db) \<Rightarrow>
   checkpoint_manager \<Rightarrow> ('f \<times> 'f) list \<Rightarrow> 'db \<Rightarrow> 'db" where
  "listenForWriteSignal get put cm [] db = db"
| "listenForWriteSignal get put cm ((f, g) # signals) db =
     listenForWriteSignal get put cm signals (writeToDatabase (get f) (put g) cm db)"

lemma heap_pop_length: "heap_pop q = Inr (h, q') \<Longrightarrow> length q' < length q"
  using heap_down_perm [of "length q - 1" "heap_Swap q 0 (length q - 1)" 0]
  by (auto simp: heap_pop_def heap_Pop_def heap_Len_def Let_def split: if_splits)

text \<open>The loop of \<^verbatim>\<open>StageCommittedHeight\<close>: it ends because each round pops an element.\<close>

function commit_loop :: "uint64_heap \<Rightarrow> u64 \<Rightarrow> (uint64_heap \<times> u64) result" where
  "commit_loop q committed =
     (case heap_Peek q of
        Inl e \<Rightarrow> Inl e
      | Inr t \<Rightarrow>
          if t = committed + 1 then
            (case heap_pop q of
               Inl e \<Rightarrow> Inl e
             | Inr (h, q') \<Rightarrow> if heap_Len q' = 0 then Inr (q', h) else commit_loop q' h)
          else Inr (q, committed))"
  by pat_completeness auto

termination
  by (relation "measure (\<lambda>(q, c). length q)") (auto dest: heap_pop_length)

declare commit_loop.simps [simp del]

definition StageCommittedHeight :: "u64 \<Rightarrow> checkpoint_manager \<Rightarrow> checkpoint_manager result" where
  "StageCommittedHeight height cm =
     (if height \<le> committedHeight cm then Inr cm
      else case commit_loop (heap_push (pendingCommits cm) height) (committedHeight cm) of
          Inl e \<Rightarrow> Inl e
        | Inr (q, c) \<Rightarrow> Inr (cm\<lparr>committedHeight := c, pendingCommits := q\<rparr>))"

text \<open>Heights staged one after the other, in the order the lock is taken.\<close>

fun stage_all :: "u64 list \<Rightarrow> checkpoint_manager \<Rightarrow> checkpoint_manager result" where
  "stage_all [] cm = Inr cm"
| "stage_all (h # hs) cm =
     (case StageCommittedHeight h cm of Inl e \<Rightarrow> Inl e | Inr cm' \<Rightarrow> stage_all hs cm')"

text \<open>
  The machine: a call stages a height, or a write signal arrives. The state is the manager, the
  database and the set of heights staged so far.
\<close>

inductive checkpoint_reach ::
  "('f \<Rightarrow> 'db \<Rightarrow> hash \<Rightarrow> data_key \<Rightarrow> string result) \<Rightarrow>
   ('f \<Rightarrow> 'db \<Rightarrow> hash \<Rightarrow> data_key \<Rightarrow> string \<Rightarrow> error option \<times> 'db) \<Rightarrow>
   relayer_id \<Rightarrow> u64 \<Rightarrow> 'db \<Rightarrow> checkpoint_manager \<Rightarrow> 'db \<Rightarrow> u64 set \<Rightarrow> bool"
  for get put r s db0 where
  start: "checkpoint_reach get put r s db0 (NewCheckpointManager r s) db0 {}"
| stage: "checkpoint_reach get put r s db0 cm db S \<Longrightarrow> StageCommittedHeight h cm = Inr cm' \<Longrightarrow>
     checkpoint_reach get put r s db0 cm' db (insert h S)"
| signal: "checkpoint_reach get put r s db0 cm db S \<Longrightarrow>
     checkpoint_reach get put r s db0 cm (writeToDatabase (get f) (put g) cm db) S"

section \<open>The commit loop\<close>

text \<open>
  Whatever is queued, the loop returns, keeps the heap, never goes back, and commits queued
  heights only. The queue must not hold 0, the one height whose predecessor wraps around.
\<close>

lemma commit_loop_safe:
  assumes "heap_invar q" and "q \<noteq> []" and "0 \<notin> set q"
  shows "\<exists>q' c'. commit_loop q c = Inr (q', c') \<and> heap_invar q' \<and> c \<le> c' \<and> mset q' \<subseteq># mset q \<and>
    (\<forall>h. c < h \<longrightarrow> h \<le> c' \<longrightarrow> h \<in> set q)"
  using assms
proof (induction q c rule: commit_loop.induct)
  case (1 q c)
  obtain t where t: "heap_Peek q = Inr t" "t \<in># mset q"
    using hq.peek_min [OF "1.prems"(1)] "1.prems"(2) by auto
  obtain q' where q': "heap_pop q = Inr (t, q')" "heap_invar q'" "mset q = add_mset t (mset q')"
    using hq.pop_peek [OF "1.prems"(1) t(1)] by blast
  show ?case
  proof (cases "t = c + 1")
    case False
    with t "1.prems" show ?thesis by (auto simp: commit_loop.simps [of q c])
  next
    case True
    have less: "c < t"
      using True t(2) "1.prems"(3) less_plus1_word [of c] by (metis set_mset_mset)
    have mem: "h \<in> set q \<longleftrightarrow> h = t \<or> h \<in> set q'" for h
      using arg_cong [OF q'(3), of set_mset] by auto
    show ?thesis
    proof (cases "q' = []")
      case True
      have "h = t" if "c < h" "h \<le> t" for h
        using that \<open>t = c + 1\<close> plus1_le_iff_less [OF less, of h] by simp
      moreover have "commit_loop q c = Inr (q', t)"
        using True \<open>t = c + 1\<close> t(1) q'(1) by (simp add: commit_loop.simps [of q c] heap_Len_def)
      ultimately show ?thesis
        using q'(2,3) less mem by auto
    next
      case False
      have "commit_loop q c = commit_loop q' t"
        using False \<open>t = c + 1\<close> t(1) q'(1) by (simp add: commit_loop.simps [of q c] heap_Len_def)
      moreover obtain q2 c2 where "commit_loop q' t = Inr (q2, c2)" "heap_invar q2" "t \<le> c2"
          "mset q2 \<subseteq># mset q'" "\<forall>h. t < h \<longrightarrow> h \<le> c2 \<longrightarrow> h \<in> set q'"
        using "1.IH" [OF t(1) True q'(1) refl] False q'(2) "1.prems"(3) mem
        by (auto simp: heap_Len_def)
      moreover have "h \<in> set q" if "c < h" "h \<le> c2" for h
        using that calculation(6) mem word_less_cases_plus1 [OF that(1)] \<open>t = c + 1\<close> by blast
      ultimately show ?thesis
        using less q'(3) by (auto intro: subset_mset.order_trans)
    qed
  qed
qed

text \<open>
  When the queued heights are distinct and above the committed one, the loop commits as far as
  the queue goes without a gap and leaves the rest queued.
\<close>

lemma commit_loop_exact:
  assumes "heap_invar q" and "q \<noteq> []" and "distinct q" and "\<forall>x \<in> set q. c < x"
    and "commit_loop q c = Inr (q', c')"
  shows "distinct q' \<and> set q' = {x \<in> set q. c' < x} \<and> c' + 1 \<notin> set q'"
  using assms
proof (induction q c rule: commit_loop.induct)
  case (1 q c)
  obtain t where t: "heap_Peek q = Inr t" "t \<in> set q"
    using hq.peek_min [OF "1.prems"(1)] "1.prems"(2) by auto
  obtain q1 where q1: "heap_pop q = Inr (t, q1)" "heap_invar q1" "mset q = add_mset t (mset q1)"
    using hq.pop_peek [OF "1.prems"(1) t(1)] by blast
  have succ: "\<forall>x \<in># mset q. c + 1 \<le> x"
    using "1.prems"(4) plus1_le_iff_less by auto
  show ?case
  proof (cases "t = c + 1")
    case False
    then have "c + 1 \<notin> set q" "q' = q" "c' = c"
      using hq.peek_least_above [OF "1.prems"(1) t(1) succ] "1.prems"(2,5) t(1)
      by (auto simp: commit_loop.simps [of q c])
    with "1.prems"(3,4) show ?thesis by auto
  next
    case True
    have "set q = insert t (set q1)"
      using arg_cong [OF q1(3), of set_mset] by simp
    moreover have "distinct (t # q1)"
      using "1.prems"(3) q1(3) by (metis mset.simps(2) mset_eq_imp_distinct_iff)
    moreover have above: "\<forall>x \<in> set q1. t < x"
      using hq.peek_le [OF "1.prems"(1) t(1)] calculation by (auto simp: order.strict_iff_order)
    ultimately show ?thesis
    proof (cases "q1 = []")
      case True
      then have "q' = []" "c' = t"
        using \<open>t = c + 1\<close> t(1) q1(1) "1.prems"(5)
        by (auto simp: commit_loop.simps [of q c] heap_Len_def)
      with True \<open>set q = insert t (set q1)\<close> show ?thesis by auto
    next
      case False
      have loop: "commit_loop q1 t = Inr (q', c')"
        using False \<open>t = c + 1\<close> t(1) q1(1) "1.prems"(5)
        by (simp add: commit_loop.simps [of q c] heap_Len_def)
      moreover have "t \<le> c'"
        using commit_loop_safe [OF q1(2) False, of t] above loop by fastforce
      ultimately show ?thesis
        using "1.IH" [OF t(1) True q1(1) refl _ q1(2) False _ above loop] False
          \<open>distinct (t # q1)\<close> \<open>set q = insert t (set q1)\<close>
        by (auto simp: heap_Len_def)
    qed
  qed
qed

section \<open>Staging\<close>

text \<open>
  What every staging keeps, whatever the order and however often a height comes: the heap is in
  order and holds staged heights above the starting one, the committed height never falls below
  the starting one, and all heights in between were staged.
\<close>

definition cm_safe :: "u64 \<Rightarrow> u64 set \<Rightarrow> checkpoint_manager \<Rightarrow> bool" where
  "cm_safe s S cm \<longleftrightarrow>
     heap_invar (pendingCommits cm) \<and> set (pendingCommits cm) \<subseteq> S \<and> 0 \<notin> set (pendingCommits cm) \<and>
     s \<le> committedHeight cm \<and> (\<forall>h. s < h \<longrightarrow> h \<le> committedHeight cm \<longrightarrow> h \<in> S)"

text \<open>
  What staging of distinct heights keeps on top: exactly the staged heights above the committed
  one are pending, once each, and the next height is not among them.
\<close>

definition cm_exact :: "u64 set \<Rightarrow> checkpoint_manager \<Rightarrow> bool" where
  "cm_exact S cm \<longleftrightarrow>
     distinct (pendingCommits cm) \<and> set (pendingCommits cm) = {h \<in> S. committedHeight cm < h} \<and>
     committedHeight cm + 1 \<notin> set (pendingCommits cm)"

lemma heap_Init_Nil [simp]: "heap_Init [] = []"
  by (simp add: heap_Init_def heap_Len_def)

lemma cm_safe_New [go_invs]: "cm_safe s {} (NewCheckpointManager r s)"
  by (auto simp: cm_safe_def NewCheckpointManager_def heap_invar_def is_heap_def)

lemma cm_exact_New [go_invs]: "cm_exact {} (NewCheckpointManager r s)"
  by (simp add: cm_exact_def NewCheckpointManager_def)

lemma set_heap_push: "heap_invar q \<Longrightarrow> set (heap_push q h) = insert h (set q)"
  using hq.elems_push [of q h] by (metis set_mset_add_mset_insert set_mset_mset)

lemma distinct_heap_push: "heap_invar q \<Longrightarrow> distinct q \<Longrightarrow> h \<notin> set q \<Longrightarrow> distinct (heap_push q h)"
  using hq.elems_push [of q h] by (metis distinct.simps(2) mset.simps(2) mset_eq_imp_distinct_iff)

lemma heap_push_not_Nil: "heap_invar q \<Longrightarrow> heap_push q h \<noteq> []"
  using hq.push_not_empty [of q h] by auto

lemma Stage_skip: "h \<le> committedHeight cm \<Longrightarrow> StageCommittedHeight h cm = Inr cm"
  by (simp add: StageCommittedHeight_def)

lemma Stage_commit:
  assumes "cm_safe s S cm" and "committedHeight cm < h"
  shows "\<exists>q c. commit_loop (heap_push (pendingCommits cm) h) (committedHeight cm) = Inr (q, c) \<and>
    StageCommittedHeight h cm = Inr (cm\<lparr>committedHeight := c, pendingCommits := q\<rparr>) \<and>
    heap_invar q \<and> committedHeight cm \<le> c \<and> set q \<subseteq> insert h (set (pendingCommits cm)) \<and>
    (\<forall>x. committedHeight cm < x \<longrightarrow> x \<le> c \<longrightarrow> x \<in> insert h (set (pendingCommits cm)))"
proof -
  let ?p = "heap_push (pendingCommits cm) h"
  have inv: "heap_invar (pendingCommits cm)" "0 \<notin> set (pendingCommits cm)"
    using assms(1) by (auto simp: cm_safe_def)
  have "0 \<notin> set ?p"
    using inv assms(2) by (auto simp: set_heap_push)
  from commit_loop_safe [OF hq.invar_push [OF inv(1)] heap_push_not_Nil [OF inv(1)] this, of "committedHeight cm"]
  obtain q c where q: "commit_loop ?p (committedHeight cm) = Inr (q, c)" "heap_invar q"
    "committedHeight cm \<le> c" "mset q \<subseteq># mset ?p"
    "\<forall>x. committedHeight cm < x \<longrightarrow> x \<le> c \<longrightarrow> x \<in> set ?p"
    by blast
  have "set q \<subseteq> insert h (set (pendingCommits cm))"
    using set_mset_mono [OF q(4)] by (simp add: set_heap_push [OF inv(1)])
  moreover have "StageCommittedHeight h cm = Inr (cm\<lparr>committedHeight := c, pendingCommits := q\<rparr>)"
    using assms(2) q(1) by (simp add: StageCommittedHeight_def)
  ultimately show ?thesis
    using q(1,2,3,5) by (simp add: set_heap_push [OF inv(1)])
qed

lemma Stage_safe [go_invs]:
  assumes "cm_safe s S cm"
  shows "\<exists>cm'. StageCommittedHeight h cm = Inr cm' \<and> cm_safe s (insert h S) cm' \<and>
    committedHeight cm \<le> committedHeight cm' \<and> cm_relayerID cm' = cm_relayerID cm"
proof (cases "h \<le> committedHeight cm")
  case True
  with assms show ?thesis by (auto simp: Stage_skip cm_safe_def)
next
  case False
  then obtain q c where st: "StageCommittedHeight h cm = Inr (cm\<lparr>committedHeight := c, pendingCommits := q\<rparr>)"
    and q: "heap_invar q" "committedHeight cm \<le> c" "set q \<subseteq> insert h (set (pendingCommits cm))"
      "\<forall>x. committedHeight cm < x \<longrightarrow> x \<le> c \<longrightarrow> x \<in> insert h (set (pendingCommits cm))"
    using Stage_commit [OF assms, of h] by (auto simp only: not_le)
  have "x \<in> insert h S" if "s < x" "x \<le> c" for x
    using that q(4) assms by (cases "x \<le> committedHeight cm") (auto simp: cm_safe_def not_le)
  moreover have "0 \<notin> set q"
    using q(3) False assms by (auto simp: cm_safe_def)
  ultimately have "cm_safe s (insert h S) (cm\<lparr>committedHeight := c, pendingCommits := q\<rparr>)"
    using q assms by (auto simp: cm_safe_def)
  with st q(2) show ?thesis by simp
qed

lemma Stage_exact [go_invs]:
  assumes "cm_safe s S cm" and "cm_exact S cm" and "h \<notin> S" and "StageCommittedHeight h cm = Inr cm'"
  shows "cm_exact (insert h S) cm'"
proof (cases "h \<le> committedHeight cm")
  case True
  have "{x \<in> insert h S. committedHeight cm < x} = {x \<in> S. committedHeight cm < x}"
    using True by auto
  then have "cm_exact (insert h S) cm"
    using assms(2) unfolding cm_exact_def by metis
  then show ?thesis
    using assms(4) Stage_skip [OF True] by simp
next
  case False
  let ?p = "heap_push (pendingCommits cm) h"
  have inv: "heap_invar (pendingCommits cm)" using assms(1) by (simp add: cm_safe_def)
  obtain q c where loop: "commit_loop ?p (committedHeight cm) = Inr (q, c)"
    and cm': "cm' = cm\<lparr>committedHeight := c, pendingCommits := q\<rparr>" and c: "committedHeight cm \<le> c"
    using Stage_commit [OF assms(1), of h] False assms(4) by (auto simp only: not_le sum.inject)
  have ex: "distinct (pendingCommits cm)" "set (pendingCommits cm) = {x \<in> S. committedHeight cm < x}"
    using assms(2) by (simp_all only: cm_exact_def)
  have "h \<notin> set (pendingCommits cm)"
    using ex(2) assms(3) by blast
  then have "distinct ?p"
    by (rule distinct_heap_push [OF inv ex(1)])
  moreover have set_p: "set ?p = {x \<in> insert h S. committedHeight cm < x}"
    unfolding set_heap_push [OF inv] ex(2) using False by (auto simp: not_le)
  ultimately have "distinct q \<and> set q = {x \<in> set ?p. c < x} \<and> c + 1 \<notin> set q"
    by (intro commit_loop_exact [OF hq.invar_push [OF inv] heap_push_not_Nil [OF inv] _ _ loop]) simp_all
  moreover have "{x \<in> set ?p. c < x} = {x \<in> insert h S. c < x}"
    unfolding set_p using c by (auto intro: le_less_trans)
  ultimately have "distinct q \<and> set q = {x \<in> insert h S. c < x} \<and> c + 1 \<notin> set q"
    by metis
  moreover have "pendingCommits cm' = q" "committedHeight cm' = c"
    by (simp_all add: cm')
  ultimately show ?thesis
    unfolding cm_exact_def by metis
qed

lemma stage_all_safe:
  "cm_safe s S cm \<Longrightarrow> \<exists>cm'. stage_all hs cm = Inr cm' \<and> cm_safe s (S \<union> set hs) cm' \<and>
     committedHeight cm \<le> committedHeight cm'"
proof (induction hs arbitrary: S cm)
  case (Cons h hs)
  obtain cm1 where cm1: "StageCommittedHeight h cm = Inr cm1" "cm_safe s (insert h S) cm1"
      "committedHeight cm \<le> committedHeight cm1"
    using Stage_safe [OF Cons.prems] by blast
  from Cons.IH [OF this(2)] cm1 show ?case by (auto intro: order_trans)
qed simp

lemma stage_all_exact:
  "cm_safe s S cm \<Longrightarrow> cm_exact S cm \<Longrightarrow> distinct hs \<Longrightarrow> set hs \<inter> S = {} \<Longrightarrow>
     stage_all hs cm = Inr cm' \<Longrightarrow> cm_exact (S \<union> set hs) cm'"
proof (induction hs arbitrary: S cm)
  case (Cons h hs)
  obtain cm1 where cm1: "StageCommittedHeight h cm = Inr cm1" "cm_safe s (insert h S) cm1"
    using Stage_safe [OF Cons.prems(1)] by blast
  have "cm_exact (insert h S) cm1"
    using Stage_exact [OF Cons.prems(1,2) _ cm1(1)] Cons.prems(4) by simp
  from Cons.IH [OF cm1(2) this] Cons.prems(3,4,5) cm1(1) show ?case by auto
qed simp

section \<open>Writing to the database\<close>

context relayer_db
begin

lemma write_invar: "invar db \<Longrightarrow> invar (writeToDatabase (get f) (put g) cm db)"
  by (auto simp: writeToDatabase_def Let_def storable_FormatUint intro!: invar_put split: sum.split)

text \<open>
  A write signal leaves the stored height as it is, or replaces it by the committed height,
  which is not 0 and above what was stored.
\<close>

lemma write_cases:
  fixes f g
  assumes "invar db" and "cm_relayerID cm = r"
  defines "db' \<equiv> writeToDatabase (get f) (put g) cm db"
  shows "GetLatestProcessedBlockHeight (get ok db') r = GetLatestProcessedBlockHeight (get ok db) r \<or>
    GetLatestProcessedBlockHeight (get ok db') r = Inr (committedHeight cm) \<and> committedHeight cm \<noteq> 0 \<and>
    (\<forall>h. GetLatestProcessedBlockHeight (get ok db) r = Inr h \<longrightarrow> h < committedHeight cm)"
proof -
  obtain e d where p: "put g db (rid_ID r) LatestProcessedBlockKey (FormatUint (committedHeight cm)) = (e, d)"
    by force
  have put_height: "GetLatestProcessedBlockHeight (get ok d) r = GetLatestProcessedBlockHeight (get ok db) r \<or>
      GetLatestProcessedBlockHeight (get ok d) r = Inr (committedHeight cm)"
    using stored_height_read [OF assms(1)] get_put_failed [OF assms(1) storable_FormatUint] p
    by (cases e) (fastforce simp: GetLatestProcessedBlockHeight_def)+
  show ?thesis
  proof (cases "GetLatestProcessedBlockHeight (get f db) r")
    case (Inl x)
    have "\<forall>h. GetLatestProcessedBlockHeight (get ok db) r \<noteq> Inr h" if "IsKeyNotFoundError x"
      using that Inl get_missing [OF assms(1), of f "rid_ID r" LatestProcessedBlockKey]
        get_fault [OF assms(1), of f "rid_ID r" LatestProcessedBlockKey]
      by (auto simp: GetLatestProcessedBlockHeight_def split: sum.splits)
    then show ?thesis
      using Inl put_height p assms(2) by (auto simp: db'_def writeToDatabase_def Let_def)
  next
    case (Inr h)
    then show ?thesis
      using height_fault [OF assms(1) Inr] put_height p assms(2)
      by (auto simp: db'_def writeToDatabase_def Let_def not_le)
  qed
qed

text \<open>A write for one relayer does not touch what the others stored.\<close>

lemma write_other:
  assumes "invar db" and "r' \<noteq> rid_ID (cm_relayerID cm)"
  shows "get ok (writeToDatabase (get f) (put g) cm db) r' k = get ok db r' k"
  using get_put_other [OF assms] by (auto simp: writeToDatabase_def Let_def split: sum.splits)

text \<open>Without faults the write is not lost: the stored height is at least the committed one.\<close>

lemma write_ok:
  assumes "invar db" and "cm_relayerID cm = r" and "committedHeight cm \<noteq> 0"
    and "\<forall>db v. fst (put g db (rid_ID r) LatestProcessedBlockKey v) = None"
    and "case GetLatestProcessedBlockHeight (get ok db) r of Inl e \<Rightarrow> IsKeyNotFoundError e | Inr _ \<Rightarrow> True"
  shows "\<exists>h. GetLatestProcessedBlockHeight (get ok (writeToDatabase (get ok) (put g) cm db)) r = Inr h \<and>
    committedHeight cm \<le> h"
proof -
  obtain d where p: "put g db (rid_ID r) LatestProcessedBlockKey (FormatUint (committedHeight cm)) = (None, d)"
    using assms(4) by (metis prod.collapse)
  have "0 < committedHeight cm" using assms(3) by (simp add: word_neq_0_conv)
  then show ?thesis
    using stored_height_read [OF assms(1) p] assms(2,3,5) p
    by (auto simp: writeToDatabase_def Let_def not_le split: sum.splits)
qed

text \<open>The invariant of the machine.\<close>

lemma reach_inv:
  assumes "checkpoint_reach get put r s db0 cm db S" and "invar db0"
  shows "invar db \<and> cm_relayerID cm = r \<and> cm_safe s S cm \<and>
    (GetLatestProcessedBlockHeight (get ok db) r = GetLatestProcessedBlockHeight (get ok db0) r \<or>
     (\<exists>h. GetLatestProcessedBlockHeight (get ok db) r = Inr h \<and> s \<le> h \<and> h \<le> committedHeight cm))"
  using assms
proof (induction rule: checkpoint_reach.induct)
  case start
  then show ?case using cm_safe_New [of s r] by (simp add: NewCheckpointManager_def)
next
  case (stage cm db S h cm')
  then show ?case
    using Stage_safe [of s S cm h] by (metis Inr_inject order_trans)
next
  case (signal cm db S f g)
  then have IH: "invar db" "cm_relayerID cm = r" "cm_safe s S cm" by simp_all
  then have "s \<le> committedHeight cm" by (simp add: cm_safe_def)
  then show ?case
    using IH write_invar [OF IH(1)] write_cases [OF IH(1,2), of f g] signal.IH [OF signal.prems]
    by (metis order_refl)
qed

text \<open>
  Restarting on what is stored does not skip a height: whatever faults the writes and the read
  after the restart ran into, the heights between the two starting heights were staged.
\<close>

lemma restart_no_skip:
  assumes "invar db0" and "CalculateStartingBlockHeight (get ok db0) r cfg cur = Inr s"
    and "checkpoint_reach get put r s db0 cm db S"
    and "GetLatestProcessedBlockHeight (get ok db) r = Inr stored"
    and "CalculateStartingBlockHeight (get f db) r cfg cur' = Inr s'"
  shows "s' \<le> committedHeight cm \<and> (\<forall>h. s < h \<longrightarrow> h \<le> s' \<longrightarrow> h \<in> S)"
proof -
  have inv: "invar db" "cm_safe s S cm" and cases:
    "GetLatestProcessedBlockHeight (get ok db) r = GetLatestProcessedBlockHeight (get ok db0) r \<or>
     (\<exists>h. GetLatestProcessedBlockHeight (get ok db) r = Inr h \<and> s \<le> h \<and> h \<le> committedHeight cm)"
    using reach_inv [OF assms(3,1)] by simp_all
  have cfg: "cfg \<le> s"
    using assms(2) by (auto simp: CalculateStartingBlockHeight_def split: sum.splits if_splits)
  have s: "s \<le> committedHeight cm"
    using inv(2) by (simp add: cm_safe_def)
  have "stored \<le> committedHeight cm"
    using cases
  proof
    assume "GetLatestProcessedBlockHeight (get ok db) r = GetLatestProcessedBlockHeight (get ok db0) r"
    then have "GetLatestProcessedBlockHeight (get ok db0) r = Inr stored"
      using assms(4) by simp
    then have "stored \<le> s"
      using assms(2) by (auto simp: CalculateStartingBlockHeight_def split: if_splits)
    with s show ?thesis by simp
  qed (use assms(4) in auto)
  moreover have "GetLatestProcessedBlockHeight (get f db) r = Inr stored"
    using assms(4,5) height_fault [OF inv(1), of f r] get_missing [OF inv(1), of f "rid_ID r" LatestProcessedBlockKey]
      get_fault [OF inv(1), of f "rid_ID r" LatestProcessedBlockKey]
    by (auto simp: CalculateStartingBlockHeight_def GetLatestProcessedBlockHeight_def split: sum.splits if_splits)
  ultimately have "s' \<le> committedHeight cm"
    using assms(5) cfg s by (auto simp: CalculateStartingBlockHeight_def split: if_splits)
  then show ?thesis
    using inv(2) by (auto simp: cm_safe_def intro: order_trans)
qed

end

section \<open>Stalled managers\<close>

text \<open>A manager with a pending height that is already committed: no operation repairs it.\<close>

definition cm_stalled :: "checkpoint_manager \<Rightarrow> bool" where
  "cm_stalled cm \<longleftrightarrow>
     heap_invar (pendingCommits cm) \<and> 0 \<notin> set (pendingCommits cm) \<and>
     (\<exists>x \<in> set (pendingCommits cm). x \<le> committedHeight cm)"

lemma Stage_stalled:
  assumes "cm_stalled cm"
  shows "\<exists>cm'. StageCommittedHeight h cm = Inr cm' \<and> cm_stalled cm' \<and> committedHeight cm' = committedHeight cm"
proof (cases "h \<le> committedHeight cm")
  case True
  with assms show ?thesis by (auto simp: Stage_skip)
next
  case False
  let ?p = "heap_push (pendingCommits cm) h" and ?c = "committedHeight cm"
  obtain x where inv: "heap_invar (pendingCommits cm)" and x: "x \<in> set (pendingCommits cm)" "x \<le> ?c"
    and zero: "0 \<notin> set (pendingCommits cm)"
    using assms by (auto simp: cm_stalled_def)
  obtain t where t: "heap_Peek ?p = Inr t" "t \<in> set ?p"
    using hq.peek_min [OF hq.invar_push [OF inv, of h]] heap_push_not_Nil [OF inv, of h] by auto
  have "t \<le> ?c"
    using hq.peek_le [OF hq.invar_push [OF inv] t(1), of x] x by (simp add: set_heap_push [OF inv])
  moreover have "t \<noteq> 0"
    using t(2) zero False by (auto simp: set_heap_push [OF inv])
  ultimately have "t \<noteq> ?c + 1"
    using less_plus1_word [of ?c] by auto
  then have "StageCommittedHeight h cm = Inr (cm\<lparr>pendingCommits := ?p\<rparr>)"
    using False t(1) by (simp add: StageCommittedHeight_def commit_loop.simps)
  moreover have "cm_stalled (cm\<lparr>pendingCommits := ?p\<rparr>)"
    using x zero False hq.invar_push [OF inv] by (auto simp: cm_stalled_def set_heap_push [OF inv])
  ultimately show ?thesis by simp
qed

lemma stage_all_stalled:
  "cm_stalled cm \<Longrightarrow> \<exists>cm'. stage_all hs cm = Inr cm' \<and> cm_stalled cm' \<and> committedHeight cm' = committedHeight cm"
proof (induction hs arbitrary: cm)
  case (Cons h hs)
  then show ?case using Stage_stalled [OF Cons.prems, of h] by fastforce
qed simp

lemma stage_all_append:
  "stage_all (xs @ ys) cm = (case stage_all xs cm of Inl e \<Rightarrow> Inl e | Inr cm' \<Rightarrow> stage_all ys cm')"
  by (induction xs arbitrary: cm) (auto split: sum.split)

section \<open>The abstract checkpoint\<close>

text \<open>
  What the manager promises, without a heap: the greatest height up to which everything above
  the starting height was staged.
\<close>

definition checkpoint_spec :: "u64 \<Rightarrow> u64 set \<Rightarrow> u64" where
  "checkpoint_spec s S = Max {c. s \<le> c \<and> {s<..c} \<subseteq> S}"

lemma checkpoint_spec_eq:
  assumes "s \<le> c" and "{s<..c} \<subseteq> S" and "c + 1 \<notin> {h \<in> S. c < h}"
  shows "checkpoint_spec s S = c"
  unfolding checkpoint_spec_def
proof (rule Max_eqI)
  fix d assume "d \<in> {c. s \<le> c \<and> {s<..c} \<subseteq> S}"
  then have d: "{s<..d} \<subseteq> S" by simp
  show "d \<le> c"
  proof (rule ccontr)
    assume "\<not> d \<le> c"
    then have "c < d" by simp
    then have succ: "c < c + 1" "c + 1 \<le> d"
      using less_plus1_iff_le [of c d c] plus1_le_iff_less [of c d d] by simp_all
    then have "c + 1 \<in> S"
      using d assms(1) le_less_trans [OF assms(1) succ(1)] by auto
    with assms(3) succ(1) show False by simp
  qed
qed (use assms in auto)

section \<open>Properties\<close>

definition sample_relayer :: relayer_id where
  "sample_relayer =
     \<lparr>SourceBlockchainID = 1, DestinationBlockchainID = 2, OriginSenderAddress = 0, DestinationAddress = 0, rid_ID = 7\<rparr>"

definition sample_cm :: "u64 \<Rightarrow> uint64_heap \<Rightarrow> checkpoint_manager" where
  "sample_cm c q = \<lparr>cm_relayerID = sample_relayer, committedHeight = c, pendingCommits = q\<rparr>"

definition sample_jdb :: "chainState json_env \<times> json_file_storage \<times> chainState file_system" where
  "sample_jdb = (sample_json_env, sample_storage 7, \<lparr>fs_files = Map.empty, fs_dirs = \<lambda>d. d = ''db''\<rparr>)"

definition sample_rdb :: "((bool, string \<Rightarrow> string option) redis_env \<times> bool) \<times> (string \<Rightarrow> string option)" where
  "sample_rdb = ((sample_redis_env, False), Map.empty)"

lemma sample_Stage: "StageCommittedHeight 11 (NewCheckpointManager sample_relayer 10) = Inr (sample_cm 11 [])"
  by code_simp

lemma sample_reach:
  "checkpoint_reach get put sample_relayer 10 db (sample_cm 11 []) (writeToDatabase (get f) (put g) (sample_cm 11 []) db) {11}"
  using checkpoint_reach.signal [OF checkpoint_reach.stage [OF checkpoint_reach.start sample_Stage]] .

text \<open>
  C11: In whatever order heights are staged, and however often, staging returns, the committed
  height is never below the starting height, and every height up to it was staged.
\<close>

theorem staged_below_committed:
  "\<exists>cm'. stage_all hs (NewCheckpointManager r s) = Inr cm' \<and> s \<le> committedHeight cm' \<and>
     {s<..committedHeight cm'} \<subseteq> set hs"
  using stage_all_safe [OF cm_safe_New, of hs r s] by (auto simp: cm_safe_def)

text \<open>
  C8: When no height is staged twice, the heap implements the abstract checkpoint: the committed
  height is the greatest one without a gap below it, whatever the order, and exactly the staged
  heights above it are pending, once each.
\<close>

theorem staging_refines_spec:
  assumes "distinct hs"
  shows "\<exists>cm'. stage_all hs (NewCheckpointManager r s) = Inr cm' \<and>
     committedHeight cm' = checkpoint_spec s (set hs) \<and>
     mset (pendingCommits cm') = mset (filter (\<lambda>h. checkpoint_spec s (set hs) < h) hs)"
proof -
  obtain cm' where st: "stage_all hs (NewCheckpointManager r s) = Inr cm'" "cm_safe s (set hs) cm'"
    using stage_all_safe [OF cm_safe_New, of hs r s] by auto
  have ex: "cm_exact (set hs) cm'"
    using stage_all_exact [OF cm_safe_New cm_exact_New assms _ st(1)] by simp
  have pend: "distinct (pendingCommits cm')" "set (pendingCommits cm') = {h \<in> set hs. committedHeight cm' < h}"
      "committedHeight cm' + 1 \<notin> set (pendingCommits cm')"
    using ex unfolding cm_exact_def by - (elim conjE, assumption)+
  have gap: "checkpoint_spec s (set hs) = committedHeight cm'"
    using st(2) pend(3) unfolding pend(2) by (intro checkpoint_spec_eq) (auto simp: cm_safe_def)
  have "mset (pendingCommits cm') = mset (filter (\<lambda>h. committedHeight cm' < h) hs)"
    using pend(1,2) assms by (intro set_eq_iff_mset_eq_distinct [THEN iffD1]) auto
  with st(1) gap show ?thesis by simp
qed

theorem staging_refines_spec_witness:
  "distinct [12, 11, 14 :: u64] \<and>
   (\<exists>cm'. stage_all [12, 11, 14] (NewCheckpointManager sample_relayer 10) = Inr cm' \<and>
     committedHeight cm' = checkpoint_spec 10 {12, 11, 14} \<and>
     mset (pendingCommits cm') = mset (filter (\<lambda>h. checkpoint_spec 10 {12, 11, 14} < h) [12, 11, 14]))"
  using staging_refines_spec [of "[12, 11, 14]" sample_relayer 10] by simp

text \<open>
  A height staged twice while it waits stalls the manager for good: once the copy left behind
  is below the committed height, no later staging moves the committed height.
\<close>

theorem stalled_forever:
  assumes "cm_stalled cm"
  shows "\<exists>cm'. stage_all hs cm = Inr cm' \<and> committedHeight cm' = committedHeight cm"
  using stage_all_stalled [OF assms] by blast

theorem stalled_forever_witness:
  "\<exists>cm. stage_all [102, 102, 101] (NewCheckpointManager sample_relayer 100) = Inr cm \<and> cm_stalled cm \<and>
     (\<exists>cm'. stage_all [103, 104, 105] cm = Inr cm' \<and> committedHeight cm' = 102)"
proof -
  have "stage_all [102, 102, 101] (NewCheckpointManager sample_relayer 100) = Inr (sample_cm 102 [102])"
    by code_simp
  moreover have "cm_stalled (sample_cm 102 [102])"
    by (simp add: cm_stalled_def sample_cm_def heap_invar_def is_heap_def)
  ultimately show ?thesis
    using stalled_forever [of "sample_cm 102 [102]" "[103, 104, 105]"] by (auto simp: sample_cm_def)
qed





text \<open>
  C12: A write signal never lowers the stored height, never stores 0, stores nothing but the
  committed height, and leaves what other relayers stored alone, whatever fails.
\<close>

theorem json_write_monotone:
  assumes "jdb_ok db" and "db' = writeToDatabase (jdb_get f) (jdb_put g) cm db" and "cm_relayerID cm = r"
  shows "jdb_ok db' \<and>
    (GetLatestProcessedBlockHeight (jdb_get no_faults db') r = GetLatestProcessedBlockHeight (jdb_get no_faults db) r \<or>
     GetLatestProcessedBlockHeight (jdb_get no_faults db') r = Inr (committedHeight cm) \<and> committedHeight cm \<noteq> 0 \<and>
     (\<forall>h. GetLatestProcessedBlockHeight (jdb_get no_faults db) r = Inr h \<longrightarrow> h < committedHeight cm)) \<and>
    (\<forall>r' k. r' \<noteq> rid_ID r \<longrightarrow> jdb_get no_faults db' r' k = jdb_get no_faults db r' k)"
  unfolding assms(2)
  using jdb.write_invar [OF assms(1), of f g cm] jdb.write_cases [OF assms(1,3), of f g]
    jdb.write_other [OF assms(1), of _ cm f g] assms(3) by blast

theorem json_write_monotone_witness:
  "GetLatestProcessedBlockHeight
      (jdb_get no_faults (writeToDatabase (jdb_get no_faults) (jdb_put no_faults) (sample_cm 11 []) sample_jdb)) sample_relayer
     = Inr 11 \<and>
   jdb_ok (writeToDatabase (jdb_get no_faults) (jdb_put no_faults) (sample_cm 11 []) sample_jdb)"
proof -
  have "jdb_ok sample_jdb" "cm_relayerID (sample_cm 11 []) = sample_relayer"
    by (simp_all add: sample_jdb_def sample_jdb_ok sample_cm_def)
  from json_write_monotone [OF this(1) refl this(2), of no_faults no_faults]
  have "jdb_ok (writeToDatabase (jdb_get no_faults) (jdb_put no_faults) (sample_cm 11 []) sample_jdb)" by blast
  moreover have "GetLatestProcessedBlockHeight
      (jdb_get no_faults (writeToDatabase (jdb_get no_faults) (jdb_put no_faults) (sample_cm 11 []) sample_jdb)) sample_relayer
     = Inr 11"
    by code_simp
  ultimately show ?thesis by blast
qed

end
