(* ===== verification/Relayer_Utils.thy ===== *)
theory Relayer_Utils
  imports Go_Std
begin

text \<open>
  \<^verbatim>\<open>utils/utils.go\<close>, \<^verbatim>\<open>utils/client_utils.go\<close> and \<^verbatim>\<open>utils/ticker.go\<close>: the quorum test, retries until
  a deadline, conversions of IDs and byte strings, the headers and query of an RPC endpoint, and
  the ticker that signals the checkpoint managers.
\<close>

section \<open>Quorum\<close>

text \<open>
  The accumulated weight is a \<^verbatim>\<open>*big.Int\<close>, \<open>None\<close> when nil. The products are of big integers, so
  they do not wrap.
\<close>

definition CheckStakeWeightExceedsThreshold :: "int option \<Rightarrow> u64 \<Rightarrow> u64 \<Rightarrow> u64 \<Rightarrow> bool" where
  "CheckStakeWeightExceedsThreshold accumulatedSignatureWeight totalWeight quorumNumerator quorumDenominator =
     (case accumulatedSignatureWeight of
        None \<Rightarrow> False
      | Some w \<Rightarrow>
          (let scaledTotalWeight = uint totalWeight * uint quorumNumerator;
               scaledSigWeight = w * uint quorumDenominator
           in \<not> scaledTotalWeight > scaledSigWeight))"

definition CheckStakeWeightPercentageExceedsThreshold :: "int option \<Rightarrow> u64 \<Rightarrow> u64 \<Rightarrow> bool" where
  "CheckStakeWeightPercentageExceedsThreshold accumulatedSignatureWeight totalWeight stakeWeightPercentage =
     CheckStakeWeightExceedsThreshold accumulatedSignatureWeight totalWeight stakeWeightPercentage 100"

section \<open>Retries\<close>

text \<open>
  The answers of the calls are a stream: \<open>f n\<close> is what the call in round \<open>n\<close> returns, \<open>expired n\<close>
  whether the context is done in the wait after round \<open>n\<close>. The loop has no bound of its own, so
  that not returning is the value \<open>None\<close>.
\<close>

partial_function (option) CallWithRetry_from :: "nat \<Rightarrow> (nat \<Rightarrow> bool) \<Rightarrow> error \<Rightarrow> (nat \<Rightarrow> 'a result) \<Rightarrow> 'a result option" where
  "CallWithRetry_from n expired ctxErr f =
     (case f n of
        Inr t \<Rightarrow> Some (Inr t)
      | Inl _ \<Rightarrow> if expired n then Some (Inl ctxErr) else CallWithRetry_from (Suc n) expired ctxErr f)"

definition CallWithRetry :: "(nat \<Rightarrow> bool) \<Rightarrow> error \<Rightarrow> (nat \<Rightarrow> 'a result) \<Rightarrow> 'a result option" where
  "CallWithRetry expired ctxErr f = CallWithRetry_from 0 expired ctxErr f"

lemma CallWithRetry_from_success:
  assumes "f (n + k) = Inr t" and "\<forall>i < k. (\<exists>e. f (n + i) = Inl e) \<and> \<not> expired (n + i)"
  shows "CallWithRetry_from n expired ctxErr f = Some (Inr t)"
  using assms
proof (induction k arbitrary: n)
  case 0
  then show ?case by (simp add: CallWithRetry_from.simps)
next
  case (Suc k)
  obtain e where "f n = Inl e" "\<not> expired n" using Suc.prems(2) [rule_format, of 0] by auto
  moreover have "CallWithRetry_from (Suc n) expired ctxErr f = Some (Inr t)"
    using Suc.prems by (intro Suc.IH) auto
  ultimately show ?case by (simp add: CallWithRetry_from.simps [of n])
qed

lemma CallWithRetry_from_result:
  assumes "CallWithRetry_from n expired ctxErr f = Some r"
  shows "case r of Inl e \<Rightarrow> e = ctxErr | Inr t \<Rightarrow> \<exists>i. f i = Inr t"
proof (rule CallWithRetry_from.raw_induct [OF _ assms, where P = "\<lambda>n expired ctxErr f r. case r of Inl e \<Rightarrow> e = ctxErr | Inr t \<Rightarrow> \<exists>i. f i = Inr t"])
qed (fastforce split: sum.splits if_splits)

lemma CallWithRetry_result: "CallWithRetry expired ctxErr f = Some (Inr t) \<Longrightarrow> \<exists>i. f i = Inr t"
  unfolding CallWithRetry_def by (drule CallWithRetry_from_result) simp

lemma CallWithRetry_from_returns:
  assumes "expired (n + k)"
  shows "\<exists>r. CallWithRetry_from n expired ctxErr f = Some r \<and>
    (case r of Inl e \<Rightarrow> e = ctxErr | Inr t \<Rightarrow> \<exists>i \<le> k. f (n + i) = Inr t)"
  using assms
proof (induction k arbitrary: n)
  case 0
  then show ?case by (auto simp: CallWithRetry_from.simps [of n] split: sum.split)
next
  case (Suc k)
  obtain r where r: "CallWithRetry_from (Suc n) expired ctxErr f = Some r"
    "case r of Inl e \<Rightarrow> e = ctxErr | Inr t \<Rightarrow> \<exists>i \<le> k. f (Suc n + i) = Inr t"
    using Suc.IH [of "Suc n"] Suc.prems by auto
  then show ?case
    by (auto simp: CallWithRetry_from.simps [of n] split: sum.splits
        intro: exI [of _ 0] exI [of _ "Suc i" for i])
qed

section \<open>Conversions\<close>

definition ErrNilInput :: error where
  "ErrNilInput = Sentinel ''nil input''"

definition ErrTooLarge :: error where
  "ErrTooLarge = Sentinel ''exceeds uint256 maximum value''"

text \<open>The big-endian bytes of the absolute value, without leading zeroes, as \<^verbatim>\<open>big.Int.Bytes\<close> gives them.\<close>

fun nat_Bytes :: "nat \<Rightarrow> bytes" where
  "nat_Bytes n = (if n = 0 then [] else nat_Bytes (n div 256) @ [of_nat (n mod 256)])"

declare nat_Bytes.simps [simp del]

definition big_Bytes :: "int \<Rightarrow> bytes" where
  "big_Bytes i = nat_Bytes (nat \<bar>i\<bar>)"

definition bytes_value :: "bytes \<Rightarrow> nat" where
  "bytes_value bs = foldl (\<lambda>n b. n * 256 + unat b) 0 bs"

text \<open>\<^verbatim>\<open>common.BytesToHash\<close> crops from the left to 32 bytes.\<close>

definition BytesToHash :: "bytes \<Rightarrow> hash" where
  "BytesToHash bs = of_nat (bytes_value (drop (length bs - 32) bs))"

definition BigToHashSafe :: "int option \<Rightarrow> hash result" where
  "BigToHashSafe i =
     (case i of
        None \<Rightarrow> Inl ErrNilInput
      | Some i \<Rightarrow>
          (let bs = big_Bytes i
           in if length bs > 32 then Inl ErrTooLarge else Inr (BytesToHash bs)))"

lemma bytes_value_snoc: "bytes_value (bs @ [b]) = bytes_value bs * 256 + unat b"
  by (simp add: bytes_value_def)

lemma bytes_value_nat_Bytes [simp]: "bytes_value (nat_Bytes n) = n"
proof (induction n rule: nat_Bytes.induct)
  case (1 n)
  have "unat (of_nat (n mod 256) :: u8) = n mod 256"
    by (simp add: unat_of_nat)
  then show ?case
    using 1 by (subst nat_Bytes.simps) (auto simp: bytes_value_snoc bytes_value_def)
qed

lemma nat_Bytes_length: "length (nat_Bytes n) \<le> k \<longleftrightarrow> n < 256 ^ k"
proof (induction k arbitrary: n)
  case 0
  then show ?case by (subst nat_Bytes.simps) simp
next
  case (Suc k)
  have "n < 256 * 256 ^ k \<longleftrightarrow> n div 256 < 256 ^ k" by (rule less_mult_imp_div_less [THEN iffI]) auto
  then show ?case
    using Suc.IH [of "n div 256"] by (subst nat_Bytes.simps) auto
qed

section \<open>Strings\<close>

definition SanitizeHexString :: "string \<Rightarrow> string" where
  "SanitizeHexString hex = TrimPrefix hex ''0x''"

definition StripFromString :: "string \<Rightarrow> string \<Rightarrow> string" where
  "StripFromString input substring =
     (case string_Index input substring of None \<Rightarrow> input | Some index \<Rightarrow> take index input)"

text \<open>
  \<^verbatim>\<open>ids.ToID\<close> and \<^verbatim>\<open>ids.FromString\<close> belong to avalanchego: the fields of the environment.
\<close>

record ids_env =
  ids_ToID :: "bytes \<Rightarrow> ids_ID result"
  ids_FromString :: "string \<Rightarrow> ids_ID result"
  ids_String :: "ids_ID \<Rightarrow> string"
  ids_Bytes :: "ids_ID \<Rightarrow> bytes"

definition HexOrCB58ToID :: "ids_env \<Rightarrow> string \<Rightarrow> ids_ID result" where
  "HexOrCB58ToID env s =
     (if HasPrefix s ''0x'' then
        (case hex_DecodeString (SanitizeHexString s) of
           Inl e \<Rightarrow> Inl e
         | Inr bs \<Rightarrow> ids_ToID env bs)
      else ids_FromString env s)"

text \<open>
  What avalanchego documents of its IDs: the text of an ID parses to the ID and is no hexadecimal
  string, and the bytes of an ID convert back.
\<close>

definition ids_env_ok :: "ids_env \<Rightarrow> bool" where
  "ids_env_ok env \<longleftrightarrow>
     (\<forall>i. ids_FromString env (ids_String env i) = Inr i) \<and>
     (\<forall>i. \<not> HasPrefix (ids_String env i) ''0x'') \<and>
     (\<forall>i. ids_ToID env (ids_Bytes env i) = Inr i)"

fun IsEmptyOrZeroes :: "bytes \<Rightarrow> bool" where
  "IsEmptyOrZeroes [] = True"
| "IsEmptyOrZeroes (b # bs) = (if b \<noteq> 0 then False else IsEmptyOrZeroes bs)"

definition PrivateKeyToString :: "nat \<Rightarrow> string result" where
  "PrivateKeyToString d =
     (let bs = nat_Bytes d
      in if length bs > 32 then Inl (Panic ''math/big: buffer too small to fit value'')
         else Inr (hex_EncodeToString (replicate (32 - length bs) 0 @ bs)))"

section \<open>The ticker\<close>

text \<open>
  A subscription is known by its position. \<^verbatim>\<open>time.Duration\<close> is a signed 64-bit count of
  nanoseconds, and \<^verbatim>\<open>time.Tick\<close> of a duration that is not positive is a nil channel, from which
  nothing is ever received. A tick sends to every subscription in order, each send waiting for
  its receiver.
\<close>

record ticker =
  tk_interval :: "64 word"
  tk_subscriptions :: "nat list"

definition NewTicker :: "u64 \<Rightarrow> ticker" where
  "NewTicker intervalSeconds = \<lparr>tk_interval = intervalSeconds * 1000000000, tk_subscriptions = []\<rparr>"

definition Ticker_Subscribe :: "ticker \<Rightarrow> nat \<times> ticker" where
  "Ticker_Subscribe t =
     (let sub = length (tk_subscriptions t)
      in (sub, t\<lparr>tk_subscriptions := tk_subscriptions t @ [sub]\<rparr>))"

definition Ticker_ticks :: "ticker \<Rightarrow> bool" where
  "Ticker_ticks t \<longleftrightarrow> sint (tk_interval t) > 0"

text \<open>The signals sent in the first \<open>n\<close> ticks, in order.\<close>

definition Ticker_Run :: "ticker \<Rightarrow> nat \<Rightarrow> nat list" where
  "Ticker_Run t n = (if Ticker_ticks t then concat (replicate n (tk_subscriptions t)) else [])"

text \<open>IDs written in decimal, to evaluate what uses them.\<close>

definition sample_ids_env :: ids_env where
  "sample_ids_env =
     \<lparr>ids_ToID = \<lambda>bs. if length bs = 32 then Inr (BytesToHash bs) else Inl (Errorf ''expected 32 bytes''),
      ids_FromString = \<lambda>s. case s of [] \<Rightarrow> Inl (Errorf ''empty'') |
        c # cs \<Rightarrow> (case digits_value 0 cs of None \<Rightarrow> Inl (Errorf ''syntax'') | Some n \<Rightarrow> Inr (of_nat n)),
      ids_String = \<lambda>i. CHR ''C'' # decimal (unat i),
      ids_Bytes = \<lambda>i. replicate (32 - length (nat_Bytes (unat i))) 0 @ nat_Bytes (unat i)\<rparr>"

lemma bytes_value_zeroes [simp]: "bytes_value (replicate k 0 @ bs) = bytes_value bs"
  by (induction k) (simp_all add: bytes_value_def)

lemma sample_ids_env_ok: "ids_env_ok sample_ids_env"
proof -
  have "length (nat_Bytes (unat i)) \<le> 32" for i :: ids_ID
  proof -
    have "unat i < 2 ^ LENGTH(256)" by (rule unsigned_less)
    then show ?thesis by (simp add: nat_Bytes_length)
  qed
  then show ?thesis
    by (auto simp: ids_env_ok_def sample_ids_env_def HasPrefix_def BytesToHash_def digits_value_decimal)
qed

section \<open>Properties\<close>

text \<open>
  The call is repeated until it succeeds: its first success is the result when the context
  is not done before.
\<close>

theorem CallWithRetry_first_success:
  assumes "f k = Inr t" and "\<forall>i < k. (\<exists>e. f i = Inl e) \<and> \<not> expired i"
  shows "CallWithRetry expired ctxErr f = Some (Inr t)"
  using CallWithRetry_from_success [of f 0 k t expired ctxErr] assms by (simp add: CallWithRetry_def)

theorem CallWithRetry_first_success_witness:
  "CallWithRetry (\<lambda>n. n \<ge> 5) (Sentinel ''context deadline exceeded'')
     (\<lambda>n. if n < 2 then Inl (Errorf ''refused'') else Inr n) = Some (Inr (2 :: nat))"
  by (rule CallWithRetry_first_success [of _ 2]) auto



text \<open>
  \<^verbatim>\<open>BigToHashSafe\<close> converts exactly the integers of at most 256 bits, without truncation, and
  reports the others.
\<close>

theorem BigToHashSafe_exact:
  "BigToHashSafe (Some i) = (if \<bar>i\<bar> < 2 ^ 256 then Inr (word_of_int \<bar>i\<bar>) else Inl ErrTooLarge)"
proof -
  have len: "length (big_Bytes i) \<le> 32 \<longleftrightarrow> \<bar>i\<bar> < 2 ^ 256"
  proof -
    have "nat \<bar>i\<bar> < 256 ^ 32 \<longleftrightarrow> \<bar>i\<bar> < 256 ^ 32"
      by (simp add: nat_less_iff)
    then show ?thesis by (simp add: big_Bytes_def nat_Bytes_length)
  qed
  have "BytesToHash (big_Bytes i) = word_of_int \<bar>i\<bar>" if "length (big_Bytes i) \<le> 32"
    using that by (simp add: BytesToHash_def) (simp add: big_Bytes_def)
  then show ?thesis
    using len by (auto simp: BigToHashSafe_def Let_def not_less)
qed

text \<open>
  C27: An ID is read back from its cb58 text and from the \<^verbatim>\<open>0x\<close>-prefixed hexadecimal text of its
  bytes.
\<close>

theorem HexOrCB58ToID_roundtrip:
  assumes "ids_env_ok env"
  shows "HexOrCB58ToID env (ids_String env i) = Inr i \<and>
    HexOrCB58ToID env (''0x'' @ hex_EncodeToString (ids_Bytes env i)) = Inr i"
  using assms unfolding ids_env_ok_def
  by (auto simp: HexOrCB58ToID_def SanitizeHexString_def HasPrefix_def TrimPrefix_def)

theorem HexOrCB58ToID_roundtrip_witness:
  "ids_env_ok sample_ids_env \<and> HexOrCB58ToID sample_ids_env (ids_String sample_ids_env 42) = Inr 42 \<and>
   HexOrCB58ToID sample_ids_env (''0x'' @ hex_EncodeToString (ids_Bytes sample_ids_env 42)) = Inr 42"
  using HexOrCB58ToID_roundtrip [OF sample_ids_env_ok, of 42] sample_ids_env_ok by simp

end
