(* ===== verification/Relayer_Config.thy ===== *)
theory Relayer_Config
  imports Relayer_Utils
begin

text \<open>
  \<^verbatim>\<open>relayer/config/\<close> and \<^verbatim>\<open>config/api_config.go\<close>: the configuration of the relayer, its validation,
  which also computes the private fields the relayer works with, the override of private keys by
  flags and environment, and the Warp quorum of a destination. Parsing of URLs, addresses and
  private keys, the constants of the Warp precompile and the chain configuration a node reports
  belong to other modules: the environment \<open>cfg_env\<close>.
\<close>

section \<open>Protocols and VMs\<close>

datatype vm = UNKNOWN_VM | EVM

datatype message_protocol = UNKNOWN_MESSAGE_PROTOCOL | TELEPORTER | OFF_CHAIN_REGISTRY

fun VM_String :: "vm \<Rightarrow> string" where
  "VM_String EVM = ''evm''"
| "VM_String UNKNOWN_VM = ''unknown''"

definition ParseVM :: "string \<Rightarrow> vm" where
  "ParseVM s = (if s = ''evm'' then EVM else UNKNOWN_VM)"

fun MessageProtocol_String :: "message_protocol \<Rightarrow> string" where
  "MessageProtocol_String TELEPORTER = ''teleporter''"
| "MessageProtocol_String OFF_CHAIN_REGISTRY = ''off-chain-registry''"
| "MessageProtocol_String UNKNOWN_MESSAGE_PROTOCOL = ''unknown''"

definition ParseMessageProtocol :: "string \<Rightarrow> message_protocol" where
  "ParseMessageProtocol s =
     (if s = ''teleporter'' then TELEPORTER
      else if s = ''off-chain-registry'' then OFF_CHAIN_REGISTRY else UNKNOWN_MESSAGE_PROTOCOL)"

section \<open>The configuration\<close>

record api_config =
  BaseURL :: string
  QueryParams :: "(string \<times> string) list"
  HTTPHeaders :: "(string \<times> string) list"

text \<open>The settings of a protocol are a JSON object, of which the handlers read string fields.\<close>

record message_protocol_config =
  MessageFormat :: string
  Settings :: "(string \<times> string) list"

record supported_destination =
  sd_BlockchainID :: string
  sd_Addresses :: "string list"
  sd_blockchainID :: ids_ID
  sd_addresses :: "address list"

record source_blockchain =
  sb_SubnetID :: string
  sb_BlockchainID :: string
  sb_VM :: string
  sb_RPCEndpoint :: api_config
  sb_WSEndpoint :: api_config
  sb_MessageContracts :: "(string \<times> message_protocol_config) list"
  sb_SupportedDestinations :: "supported_destination list"
  sb_ProcessHistoricalBlocksFromHeight :: u64
  sb_AllowedOriginSenderAddresses :: "string list"
  sb_WarpAPIEndpoint :: api_config
  sb_subnetID :: ids_ID
  sb_blockchainID :: ids_ID
  sb_allowedOriginSenderAddresses :: "address list"
  sb_useAppRequestNetwork :: bool

record warp_quorum =
  QuorumNumerator :: u64
  QuorumDenominator :: u64

record destination_blockchain =
  db_SubnetID :: string
  db_BlockchainID :: string
  db_VM :: string
  db_RPCEndpoint :: api_config
  db_KMSKeyID :: string
  db_KMSAWSRegion :: string
  db_AccountPrivateKey :: string
  db_warpQuorum :: warp_quorum
  db_subnetID :: ids_ID
  db_blockchainID :: ids_ID

record relayer_config =
  cfg_StorageLocation :: string
  cfg_RedisURL :: string
  cfg_DBWriteIntervalSeconds :: u64
  cfg_PChainAPI :: "api_config option"
  cfg_InfoAPI :: "api_config option"
  cfg_SourceBlockchains :: "source_blockchain list"
  cfg_DestinationBlockchains :: "destination_blockchain list"
  cfg_ProcessMissedBlocks :: bool
  cfg_DeciderURL :: string
  cfg_SignatureCacheSize :: u64
  cfg_blockchainIDToSubnetID :: "ids_ID \<Rightarrow> ids_ID option"
  cfg_overwrittenOptions :: "ids_ID list"

text \<open>
  A precompile upgrade that is a Warp configuration, with its activation time and numerator, or
  any other one.
\<close>

datatype precompile = WarpConfig "u64 option" u64 | OtherPrecompile

record chain_config =
  cc_PrecompileUpgrades :: "precompile list"
  cc_GenesisPrecompiles :: "string \<Rightarrow> precompile option"

text \<open>
  \<open>ce_order\<close> is the order in which Go lists a set; the dial function yields the chain
  configuration the endpoint reports.
\<close>

record cfg_env =
  ce_ids :: ids_env
  ce_ParseRequestURI :: "string \<Rightarrow> error option"
  ce_IsHexAddress :: "string \<Rightarrow> bool"
  ce_HexToAddress :: "string \<Rightarrow> address"
  ce_HexToECDSA :: "string \<Rightarrow> error option"
  ce_WarpDefaultQuorumNumerator :: u64
  ce_WarpQuorumDenominator :: u64
  ce_order :: "string list \<Rightarrow> string list"
  ce_Dial :: "api_config \<Rightarrow> chain_config result result"

section \<open>Validation\<close>

definition APIConfig_Validate :: "cfg_env \<Rightarrow> api_config \<Rightarrow> error option" where
  "APIConfig_Validate env c =
     (case ce_ParseRequestURI env (BaseURL c) of None \<Rightarrow> None | Some e \<Rightarrow> Some (Wrap ''invalid base URL'' e))"

definition parse_address :: "cfg_env \<Rightarrow> string \<Rightarrow> string \<Rightarrow> address result" where
  "parse_address env msg s =
     (if \<not> ce_IsHexAddress env s then Inl (Errorf msg)
      else let a = ce_HexToAddress env s in if a = 0 then Inl (Errorf msg) else Inr a)"

fun parse_addresses :: "cfg_env \<Rightarrow> string \<Rightarrow> string list \<Rightarrow> address list result" where
  "parse_addresses env msg [] = Inr []"
| "parse_addresses env msg (s # ss) =
     (case parse_address env msg s of
        Inl e \<Rightarrow> Inl e
      | Inr a \<Rightarrow> (case parse_addresses env msg ss of Inl e \<Rightarrow> Inl e | Inr as \<Rightarrow> Inr (a # as)))"

fun validate_destinations ::
  "cfg_env \<Rightarrow> string list \<Rightarrow> supported_destination list \<Rightarrow> supported_destination list result" where
  "validate_destinations env destinationIDs [] = Inr []"
| "validate_destinations env destinationIDs (d # ds) =
     (case HexOrCB58ToID (ce_ids env) (sd_BlockchainID d) of
        Inl e \<Rightarrow> Inl (Wrap ''invalid blockchainID in configuration'' e)
      | Inr blockchainID \<Rightarrow>
          if sd_BlockchainID d \<notin> set destinationIDs
          then Inl (Errorf ''supported destination that is not configured as a destination blockchain'')
          else case parse_addresses env ''invalid allowed destination address'' (sd_Addresses d) of
              Inl e \<Rightarrow> Inl e
            | Inr as \<Rightarrow>
                (case validate_destinations env destinationIDs ds of
                   Inl e \<Rightarrow> Inl e
                 | Inr ds' \<Rightarrow> Inr (d\<lparr>sd_blockchainID := blockchainID, sd_addresses := sd_addresses d @ as\<rparr> # ds')))"

definition validate_endpoints :: "cfg_env \<Rightarrow> source_blockchain \<Rightarrow> bool result" where
  "validate_endpoints env s =
     (case APIConfig_Validate env (sb_RPCEndpoint s) of
        Some e \<Rightarrow> Inl (Wrap ''invalid rpc-endpoint in source subnet configuration'' e)
      | None \<Rightarrow>
          (case APIConfig_Validate env (sb_WSEndpoint s) of
             Some e \<Rightarrow> Inl (Wrap ''invalid ws-endpoint in source subnet configuration'' e)
           | None \<Rightarrow>
               if BaseURL (sb_WarpAPIEndpoint s) \<noteq> [] then
                 (case APIConfig_Validate env (sb_WarpAPIEndpoint s) of
                    Some e \<Rightarrow> Inl (Wrap ''invalid warp-api-endpoint in source subnet configuration'' e)
                  | None \<Rightarrow> Inr (sb_useAppRequestNetwork s))
               else Inr True))"

definition validate_contracts :: "cfg_env \<Rightarrow> source_blockchain \<Rightarrow> error option" where
  "validate_contracts env s =
     (case ParseVM (sb_VM s) of
        EVM \<Rightarrow>
          if \<exists>c \<in> set (sb_MessageContracts s). \<not> ce_IsHexAddress env (fst c)
          then Some (Errorf ''invalid message contract address in EVM source subnet'')
          else if \<exists>c \<in> set (sb_MessageContracts s). ParseMessageProtocol (MessageFormat (snd c)) = UNKNOWN_MESSAGE_PROTOCOL
          then Some (Errorf ''unsupported message protocol for source subnet'')
          else None
      | UNKNOWN_VM \<Rightarrow> Some (Errorf ''unsupported VM type for source subnet''))"

definition new_destination :: "string \<Rightarrow> supported_destination" where
  "new_destination b = \<lparr>sd_BlockchainID = b, sd_Addresses = [], sd_blockchainID = 0, sd_addresses = []\<rparr>"

definition SourceBlockchain_Validate ::
  "cfg_env \<Rightarrow> string list \<Rightarrow> source_blockchain \<Rightarrow> source_blockchain result" where
  "SourceBlockchain_Validate env destinationIDs s =
     (case validate_endpoints env s of
        Inl e \<Rightarrow> Inl e
      | Inr useApp \<Rightarrow>
          (case validate_contracts env s of
             Some e \<Rightarrow> Inl e
           | None \<Rightarrow>
               (case HexOrCB58ToID (ce_ids env) (sb_BlockchainID s) of
                  Inl e \<Rightarrow> Inl (Wrap ''invalid blockchainID in configuration'' e)
                | Inr blockchainID \<Rightarrow>
                    (case HexOrCB58ToID (ce_ids env) (sb_SubnetID s) of
                       Inl e \<Rightarrow> Inl (Wrap ''invalid subnetID in configuration'' e)
                     | Inr subnetID \<Rightarrow>
                         (let dests = (if sb_SupportedDestinations s = [] then map new_destination (ce_order env destinationIDs)
                                       else sb_SupportedDestinations s)
                          in case validate_destinations env destinationIDs dests of
                               Inl e \<Rightarrow> Inl e
                             | Inr dests' \<Rightarrow>
                                 (case parse_addresses env ''invalid allowed origin sender address'' (sb_AllowedOriginSenderAddresses s) of
                                    Inl e \<Rightarrow> Inl e
                                  | Inr as \<Rightarrow>
                                      Inr (s\<lparr>sb_useAppRequestNetwork := useApp, sb_blockchainID := blockchainID,
                                        sb_subnetID := subnetID, sb_SupportedDestinations := dests',
                                        sb_allowedOriginSenderAddresses := as\<rparr>)))))))"

definition DestinationBlockchain_Validate :: "cfg_env \<Rightarrow> destination_blockchain \<Rightarrow> destination_blockchain result" where
  "DestinationBlockchain_Validate env s =
     (case APIConfig_Validate env (db_RPCEndpoint s) of
        Some e \<Rightarrow> Inl (Wrap ''invalid rpc-endpoint in destination subnet configuration'' e)
      | None \<Rightarrow>
          if db_KMSKeyID s \<noteq> [] \<and> db_KMSAWSRegion s = [] then Inl (Errorf ''KMS key ID provided without an AWS region'')
          else if db_KMSKeyID s \<noteq> [] \<and> db_AccountPrivateKey s \<noteq> []
          then Inl (Errorf ''only one of account private key or KMS key ID can be provided'')
          else if db_KMSKeyID s = [] \<and> ce_HexToECDSA env (SanitizeHexString (db_AccountPrivateKey s)) \<noteq> None
          then Inl (Sentinel ''invalid account private key hex string'')
          else if ParseVM (db_VM s) = UNKNOWN_VM then Inl (Errorf ''unsupported VM type for source subnet'')
          else case HexOrCB58ToID (ce_ids env) (db_BlockchainID s) of
              Inl e \<Rightarrow> Inl (Wrap ''invalid blockchainID in configuration'' e)
            | Inr blockchainID \<Rightarrow>
                (case HexOrCB58ToID (ce_ids env) (db_SubnetID s) of
                   Inl e \<Rightarrow> Inl (Wrap ''invalid subnetID in configuration'' e)
                 | Inr subnetID \<Rightarrow> Inr (s\<lparr>db_blockchainID := blockchainID, db_subnetID := subnetID\<rparr>)))"

definition countSuppliedSubnets :: "relayer_config \<Rightarrow> nat" where
  "countSuppliedSubnets c = card (set (map sb_SubnetID (cfg_SourceBlockchains c)))"

text \<open>The loops over the destinations and the sources: validated entries, names seen, subnets by chain.\<close>

fun validate_dests ::
  "cfg_env \<Rightarrow> destination_blockchain list \<Rightarrow> string list \<Rightarrow> (ids_ID \<Rightarrow> ids_ID option)
     \<Rightarrow> (destination_blockchain list \<times> string list \<times> (ids_ID \<Rightarrow> ids_ID option)) result" where
  "validate_dests env [] seen m = Inr ([], seen, m)"
| "validate_dests env (s # ss) seen m =
     (case DestinationBlockchain_Validate env s of
        Inl e \<Rightarrow> Inl e
      | Inr s' \<Rightarrow>
          if db_BlockchainID s' \<in> set seen then Inl (Errorf ''configured destination subnets must have unique chain IDs'')
          else case validate_dests env ss (seen @ [db_BlockchainID s']) (m(db_blockchainID s' \<mapsto> db_subnetID s')) of
              Inl e \<Rightarrow> Inl e
            | Inr (ss', seen', m') \<Rightarrow> Inr (s' # ss', seen', m'))"

fun validate_sources ::
  "cfg_env \<Rightarrow> string list \<Rightarrow> source_blockchain list \<Rightarrow> string list \<Rightarrow> (ids_ID \<Rightarrow> ids_ID option)
     \<Rightarrow> (source_blockchain list \<times> (ids_ID \<Rightarrow> ids_ID option)) result" where
  "validate_sources env destinationIDs [] seen m = Inr ([], m)"
| "validate_sources env destinationIDs (s # ss) seen m =
     (case SourceBlockchain_Validate env destinationIDs s of
        Inl e \<Rightarrow> Inl e
      | Inr s' \<Rightarrow>
          if sb_BlockchainID s' \<in> set seen then Inl (Errorf ''configured source subnets must have unique chain IDs'')
          else case validate_sources env destinationIDs ss (sb_BlockchainID s' # seen) (m(sb_blockchainID s' \<mapsto> sb_subnetID s')) of
              Inl e \<Rightarrow> Inl e
            | Inr (ss', m') \<Rightarrow> Inr (s' # ss', m'))"

text \<open>A method call on a nil \<^verbatim>\<open>*APIConfig\<close> dereferences it.\<close>

definition validate_api :: "cfg_env \<Rightarrow> api_config option \<Rightarrow> error option" where
  "validate_api env c =
     (case c of None \<Rightarrow> Some (Panic ''nil pointer dereference'') | Some a \<Rightarrow> APIConfig_Validate env a)"

definition Config_Validate :: "cfg_env \<Rightarrow> relayer_config \<Rightarrow> relayer_config result" where
  "Config_Validate env c =
     (if cfg_SourceBlockchains c = [] then Inl (Errorf ''relayer not configured to relay from any subnets'')
      else if countSuppliedSubnets c > 16 then Inl (Errorf ''relayer can track at most 16 subnets'')
      else if cfg_DestinationBlockchains c = [] then Inl (Errorf ''relayer not configured to relay to any subnets'')
      else case validate_api env (cfg_PChainAPI c) of
          Some e \<Rightarrow> Inl e
        | None \<Rightarrow>
            (case validate_api env (cfg_InfoAPI c) of
               Some e \<Rightarrow> Inl e
             | None \<Rightarrow>
                 if cfg_DBWriteIntervalSeconds c = 0 \<or> cfg_DBWriteIntervalSeconds c > 600
                 then Inl (Errorf ''db-write-interval-seconds must be between 1 and 600'')
                 else case validate_dests env (cfg_DestinationBlockchains c) [] Map.empty of
                     Inl e \<Rightarrow> Inl e
                   | Inr (dests, names, m) \<Rightarrow>
                       (case validate_sources env names (cfg_SourceBlockchains c) [] m of
                          Inl e \<Rightarrow> Inl e
                        | Inr (sources, m') \<Rightarrow>
                            (let c' = c\<lparr>cfg_DestinationBlockchains := dests, cfg_SourceBlockchains := sources,
                                        cfg_blockchainIDToSubnetID := m'\<rparr>
                             in if cfg_DeciderURL c \<noteq> [] then
                                  (case ce_ParseRequestURI env (cfg_DeciderURL c) of
                                     Some e \<Rightarrow> Inl (Wrap ''Invalid decider URL'' e)
                                   | None \<Rightarrow> Inr c')
                                else Inr c'))))"

definition Config_GetSubnetID :: "relayer_config \<Rightarrow> ids_ID \<Rightarrow> ids_ID" where
  "Config_GetSubnetID c b = (case cfg_blockchainIDToSubnetID c b of None \<Rightarrow> 0 | Some s \<Rightarrow> s)"

section \<open>The Warp quorum\<close>

definition calculateQuorumNumerator :: "cfg_env \<Rightarrow> u64 \<Rightarrow> u64" where
  "calculateQuorumNumerator env n = (if n = 0 then ce_WarpDefaultQuorumNumerator env else n)"

text \<open>The latest Warp configuration among the upgrades; comparing dereferences the timestamps.\<close>

fun latest_warp :: "precompile list \<Rightarrow> (u64 option \<times> u64) option \<Rightarrow> (u64 option \<times> u64) option result" where
  "latest_warp [] cur = Inr cur"
| "latest_warp (OtherPrecompile # ps) cur = latest_warp ps cur"
| "latest_warp (WarpConfig t n # ps) None = latest_warp ps (Some (t, n))"
| "latest_warp (WarpConfig t n # ps) (Some (t', n')) =
     (case (t, t') of
        (Some a, Some b) \<Rightarrow> latest_warp ps (if a > b then Some (t, n) else Some (t', n'))
      | _ \<Rightarrow> Inl (Panic ''nil pointer dereference''))"

definition getWarpQuorum :: "cfg_env \<Rightarrow> ids_ID \<Rightarrow> ids_ID \<Rightarrow> chain_config result \<Rightarrow> warp_quorum result" where
  "getWarpQuorum env subnetID blockchainID chainConfig =
     (let quorum = \<lambda>n. \<lparr>QuorumNumerator = n, QuorumDenominator = ce_WarpQuorumDenominator env\<rparr>
      in if subnetID = 0 then Inr (quorum (ce_WarpDefaultQuorumNumerator env))
         else case chainConfig of
             Inl e \<Rightarrow> Inl (err_wrap ''failed to fetch chain config for blockchain'' e)
           | Inr cc \<Rightarrow>
               (case latest_warp (cc_PrecompileUpgrades cc) None of
                  Inl e \<Rightarrow> Inl e
                | Inr (Some (t, n)) \<Rightarrow> Inr (quorum (calculateQuorumNumerator env n))
                | Inr None \<Rightarrow>
                    (case cc_GenesisPrecompiles cc ''warpConfig'' of
                       Some (WarpConfig t n) \<Rightarrow> Inr (quorum (calculateQuorumNumerator env n))
                     | _ \<Rightarrow> Inl (Errorf ''failed to find warp config for blockchain''))))"

definition initializeWarpQuorum :: "cfg_env \<Rightarrow> destination_blockchain \<Rightarrow> destination_blockchain result" where
  "initializeWarpQuorum env s =
     (case ids_FromString (ce_ids env) (db_BlockchainID s) of
        Inl e \<Rightarrow> Inl (Wrap ''invalid blockchainID in configuration'' e)
      | Inr blockchainID \<Rightarrow>
          (case ids_FromString (ce_ids env) (db_SubnetID s) of
             Inl e \<Rightarrow> Inl (Wrap ''invalid subnetID in configuration'' e)
           | Inr subnetID \<Rightarrow>
               (case ce_Dial env (db_RPCEndpoint s) of
                  Inl e \<Rightarrow> Inl (Wrap ''failed to dial destination blockchain'' e)
                | Inr chainConfig \<Rightarrow>
                    (case getWarpQuorum env subnetID blockchainID chainConfig of
                       Inl e \<Rightarrow> Inl (err_wrap ''failed to fetch warp quorum for subnet'' e)
                     | Inr quorum \<Rightarrow> Inr (s\<lparr>db_warpQuorum := quorum\<rparr>)))))"

fun initialize_quorums :: "cfg_env \<Rightarrow> destination_blockchain list \<Rightarrow> destination_blockchain list result" where
  "initialize_quorums env [] = Inr []"
| "initialize_quorums env (s # ss) =
     (case initializeWarpQuorum env s of
        Inl e \<Rightarrow> Inl (err_wrap ''failed to initialize Warp quorum for destination subnet'' e)
      | Inr s' \<Rightarrow> (case initialize_quorums env ss of Inl e \<Rightarrow> Inl e | Inr ss' \<Rightarrow> Inr (s' # ss')))"

definition InitializeWarpQuorums :: "cfg_env \<Rightarrow> relayer_config \<Rightarrow> relayer_config result" where
  "InitializeWarpQuorums env c =
     (case initialize_quorums env (cfg_DestinationBlockchains c) of
        Inl e \<Rightarrow> Inl e
      | Inr ds \<Rightarrow> Inr (c\<lparr>cfg_DestinationBlockchains := ds\<rparr>))"

definition errFailedToGetWarpQuorum :: error where
  "errFailedToGetWarpQuorum = Sentinel ''failed to get warp quorum''"

fun find_quorum :: "string \<Rightarrow> destination_blockchain list \<Rightarrow> warp_quorum result" where
  "find_quorum b [] = Inl errFailedToGetWarpQuorum"
| "find_quorum b (s # ss) = (if b = db_BlockchainID s then Inr (db_warpQuorum s) else find_quorum b ss)"

definition GetWarpQuorum :: "cfg_env \<Rightarrow> relayer_config \<Rightarrow> ids_ID \<Rightarrow> warp_quorum result" where
  "GetWarpQuorum env c blockchainID = find_quorum (ids_String (ce_ids env) blockchainID) (cfg_DestinationBlockchains c)"

section \<open>Building the configuration\<close>

text \<open>
  The configuration as unmarshalled, with the private fields at their zero values. The key given
  globally by flag or environment overrides all keys, else the one of the environment variable
  of the chain does.
\<close>

fun override_keys ::
  "(string \<Rightarrow> string) \<Rightarrow> string \<Rightarrow> destination_blockchain list \<Rightarrow> ids_ID list \<Rightarrow> destination_blockchain list \<times> ids_ID list" where
  "override_keys getenv accountPrivateKey [] overwritten = ([], overwritten)"
| "override_keys getenv accountPrivateKey (s # ss) overwritten =
     (let fromEnv = getenv (''ACCOUNT_PRIVATE_KEY_'' @ db_BlockchainID s);
          (privateKey, overwritten') =
            (if accountPrivateKey \<noteq> [] then (accountPrivateKey, overwritten @ [db_blockchainID s])
             else if fromEnv \<noteq> [] then (fromEnv, overwritten @ [db_blockchainID s])
             else (db_AccountPrivateKey s, overwritten));
          (ss', overwritten'') = override_keys getenv accountPrivateKey ss overwritten'
      in (s\<lparr>db_AccountPrivateKey := SanitizeHexString privateKey\<rparr> # ss', overwritten''))"

definition BuildConfig :: "(string \<Rightarrow> string) \<Rightarrow> string \<Rightarrow> relayer_config result \<Rightarrow> relayer_config result" where
  "BuildConfig getenv accountPrivateKey unmarshalled =
     (case unmarshalled of
        Inl e \<Rightarrow> Inl (Wrap ''failed to unmarshal viper config'' e)
      | Inr cfg \<Rightarrow>
          (let (dests, overwritten) = override_keys getenv accountPrivateKey (cfg_DestinationBlockchains cfg) (cfg_overwrittenOptions cfg)
           in Inr (cfg\<lparr>cfg_DestinationBlockchains := dests, cfg_overwrittenOptions := overwritten\<rparr>)))"

definition HasOverwrittenOptions :: "relayer_config \<Rightarrow> bool" where
  "HasOverwrittenOptions c \<longleftrightarrow> length (cfg_overwrittenOptions c) > 0"

definition NewConfig :: "cfg_env \<Rightarrow> (string \<Rightarrow> string) \<Rightarrow> string \<Rightarrow> relayer_config result \<Rightarrow> relayer_config result" where
  "NewConfig env getenv accountPrivateKey unmarshalled =
     (case BuildConfig getenv accountPrivateKey unmarshalled of
        Inl e \<Rightarrow> Inl e
      | Inr cfg \<Rightarrow>
          (case Config_Validate env cfg of
             Inl e \<Rightarrow> Inl (err_wrap ''failed to validate configuration'' e)
           | Inr cfg' \<Rightarrow> Inr cfg'))"

section \<open>What validation establishes\<close>

lemma validate_dests_spec:
  "validate_dests env ds seen m = Inr (ds', seen', m') \<Longrightarrow>
     seen' = seen @ map db_BlockchainID ds' \<and>
     (\<forall>d \<in> set ds'. HexOrCB58ToID (ce_ids env) (db_BlockchainID d) = Inr (db_blockchainID d) \<and> m' (db_blockchainID d) \<noteq> None) \<and>
     (\<forall>b. m b \<noteq> None \<longrightarrow> m' b \<noteq> None)"
proof (induction ds arbitrary: seen m ds')
  case (Cons d ds)
  obtain d' ds1 where d': "DestinationBlockchain_Validate env d = Inr d'" "ds' = d' # ds1"
      "validate_dests env ds (seen @ [db_BlockchainID d']) (m(db_blockchainID d' \<mapsto> db_subnetID d')) = Inr (ds1, seen', m')"
    using Cons.prems by (auto split: sum.splits if_splits)
  have "HexOrCB58ToID (ce_ids env) (db_BlockchainID d') = Inr (db_blockchainID d')"
    using d'(1) by (auto simp: DestinationBlockchain_Validate_def split: sum.splits option.splits if_splits)
  with Cons.IH [OF d'(3)] d'(2) show ?case by (auto split: if_splits)
qed simp

lemma parse_addresses_nonzero: "parse_addresses env msg ss = Inr as \<Longrightarrow> 0 \<notin> set as"
  by (induction ss arbitrary: as) (auto simp: parse_address_def Let_def split: sum.splits if_splits)

lemma validate_destinations_spec:
  "validate_destinations env names ds = Inr ds' \<Longrightarrow> \<forall>d \<in> set ds. 0 \<notin> set (sd_addresses d) \<Longrightarrow>
     \<forall>d \<in> set ds'. sd_BlockchainID d \<in> set names \<and> 0 \<notin> set (sd_addresses d) \<and>
       HexOrCB58ToID (ce_ids env) (sd_BlockchainID d) = Inr (sd_blockchainID d)"
  by (induction ds arbitrary: ds') (auto split: sum.splits if_splits dest!: parse_addresses_nonzero)

lemma SourceBlockchain_Validate_spec:
  assumes "SourceBlockchain_Validate env names s = Inr s'" and "\<forall>d \<in> set (sb_SupportedDestinations s). sd_addresses d = []"
  shows "0 \<notin> set (sb_allowedOriginSenderAddresses s') \<and>
    (\<forall>d \<in> set (sb_SupportedDestinations s'). sd_BlockchainID d \<in> set names \<and> 0 \<notin> set (sd_addresses d) \<and>
       HexOrCB58ToID (ce_ids env) (sd_BlockchainID d) = Inr (sd_blockchainID d))"
proof -
  let ?ds = "if sb_SupportedDestinations s = [] then map new_destination (ce_order env names) else sb_SupportedDestinations s"
  have "\<forall>d \<in> set ?ds. 0 \<notin> set (sd_addresses d)"
    using assms(2) by (auto simp: new_destination_def)
  then show ?thesis
    using assms(1) unfolding SourceBlockchain_Validate_def Let_def
    by (auto split: sum.split_asm option.split_asm dest: parse_addresses_nonzero validate_destinations_spec)
qed

lemma validate_sources_spec:
  "validate_sources env names ss seen m = Inr (ss', m') \<Longrightarrow>
     \<forall>s \<in> set ss. \<forall>d \<in> set (sb_SupportedDestinations s). sd_addresses d = [] \<Longrightarrow>
     (\<forall>b. m b \<noteq> None \<longrightarrow> m' b \<noteq> None) \<and>
     (\<forall>s \<in> set ss'. 0 \<notin> set (sb_allowedOriginSenderAddresses s) \<and>
        (\<forall>d \<in> set (sb_SupportedDestinations s). sd_BlockchainID d \<in> set names \<and> 0 \<notin> set (sd_addresses d) \<and>
           HexOrCB58ToID (ce_ids env) (sd_BlockchainID d) = Inr (sd_blockchainID d)))"
proof (induction ss arbitrary: seen m ss')
  case (Cons s ss)
  obtain s1 ss1 where s1: "SourceBlockchain_Validate env names s = Inr s1" "ss' = s1 # ss1"
      "validate_sources env names ss (sb_BlockchainID s1 # seen) (m(sb_blockchainID s1 \<mapsto> sb_subnetID s1)) = Inr (ss1, m')"
    using Cons.prems(1) by (auto split: sum.splits if_splits)
  from Cons.IH [OF s1(3)] SourceBlockchain_Validate_spec [OF s1(1)] Cons.prems(2) s1(2) show ?case
    by (auto split: if_splits)
qed simp

lemma latest_warp_max:
  assumes "latest_warp ps cur = Inr (Some (Some t, n))" and "\<And>t' n'. WarpConfig t' n' \<in> set ps \<Longrightarrow> t' \<noteq> None"
    and "\<And>t' n'. cur = Some (t', n') \<Longrightarrow> t' \<noteq> None"
  shows "(WarpConfig (Some t) n \<in> set ps \<or> cur = Some (Some t, n)) \<and>
    (\<forall>t' n'. WarpConfig (Some t') n' \<in> set ps \<or> cur = Some (Some t', n') \<longrightarrow> t' \<le> t)"
  using assms
proof (induction ps cur rule: latest_warp.induct)
  case (4 t1 n1 ps t2 n2)
  obtain a b where ab: "t1 = Some a" "t2 = Some b"
    using "4.prems"(2) [of t1 n1] "4.prems"(3) [of t2 n2] by auto
  have ps: "t' \<noteq> None" if "WarpConfig t' n' \<in> set ps" for t' n'
    using "4.prems"(2) [of t' n'] that by simp
  define c where "c = (if a > b then (t1, n1) else (t2, n2))"
  have "latest_warp ps (Some c) = Inr (Some (Some t, n))"
    using "4.prems"(1) ab by (simp add: c_def split: if_splits)
  moreover have "(if a > b then Some (t1, n1) else Some (t2, n2)) = Some c" by (simp add: c_def)
  moreover have "t' \<noteq> None" if "c = (t', n')" for t' n' using that ab by (auto simp: c_def split: if_splits)
  ultimately have IH: "WarpConfig (Some t) n \<in> set ps \<or> c = (Some t, n)"
      "\<And>t' n'. WarpConfig (Some t') n' \<in> set ps \<or> c = (Some t', n') \<Longrightarrow> t' \<le> t"
    using "4.IH" [OF refl ab] ps by auto
  have "c = (Some (max a b), if a > b then n1 else n2)"
    using ab by (auto simp: c_def max_def)
  then have "max a b \<le> t" using IH(2) by blast
  then have "a \<le> t" "b \<le> t" by simp_all
  then show ?case
    using IH ab by (auto simp: c_def split: if_splits)
qed (fastforce+)

lemma latest_warp_exists:
  "(\<And>t n. WarpConfig t n \<in> set ps \<Longrightarrow> t \<noteq> None) \<Longrightarrow> (\<And>t n. cur = Some (t, n) \<Longrightarrow> t \<noteq> None) \<Longrightarrow>
     cur \<noteq> None \<or> (\<exists>t n. WarpConfig t n \<in> set ps) \<Longrightarrow> \<exists>t n. latest_warp ps cur = Inr (Some (Some t, n))"
proof (induction ps cur rule: latest_warp.induct)
  case (4 t1 n1 ps t2 n2)
  obtain a b where ab: "t1 = Some a" "t2 = Some b"
    using "4.prems"(1) [of t1 n1] "4.prems"(2) [of t2 n2] by auto
  have ps: "t \<noteq> None" if "WarpConfig t n \<in> set ps" for t n
    using "4.prems"(1) [of t n] that by simp
  show ?case
    using "4.IH" [OF refl ab] ps ab by (cases "a > b") auto
next
  case (3 t1 n1 ps)
  have ps: "t \<noteq> None" if "WarpConfig t n \<in> set ps" for t n
    using "3.prems"(1) [of t n] that by simp
  have "t1 \<noteq> None" using "3.prems"(1) [of t1 n1] by simp
  then show ?case using "3.IH" ps by simp
qed auto

lemma find_quorum_hex:
  assumes "ids_env_ok ids" and "\<forall>d \<in> set ds. HasPrefix (db_BlockchainID d) ''0x''"
  shows "find_quorum (ids_String ids b) ds = Inl errFailedToGetWarpQuorum"
proof -
  have "\<not> HasPrefix (ids_String ids b) ''0x''" using assms(1) by (simp add: ids_env_ok_def)
  then show ?thesis using assms(2) by (induction ds) auto
qed

section \<open>Validated configurations\<close>

lemma Config_Validate_routes:
  assumes "Config_Validate env c = Inr c'"
    and "\<forall>s \<in> set (cfg_SourceBlockchains c). \<forall>d \<in> set (sb_SupportedDestinations s). sd_addresses d = []"
  shows "\<forall>s \<in> set (cfg_SourceBlockchains c'). 0 \<notin> set (sb_allowedOriginSenderAddresses s) \<and>
    (\<forall>d \<in> set (sb_SupportedDestinations s). 0 \<notin> set (sd_addresses d) \<and>
       cfg_blockchainIDToSubnetID c' (sd_blockchainID d) \<noteq> None \<and>
       (\<exists>t \<in> set (cfg_DestinationBlockchains c'). db_BlockchainID t = sd_BlockchainID d \<and> db_blockchainID t = sd_blockchainID d))"
proof -
  obtain names m where ds: "validate_dests env (cfg_DestinationBlockchains c) [] Map.empty =
      Inr (cfg_DestinationBlockchains c', names, m)"
    and ss: "validate_sources env names (cfg_SourceBlockchains c) [] m =
      Inr (cfg_SourceBlockchains c', cfg_blockchainIDToSubnetID c')"
    using assms(1) unfolding Config_Validate_def Let_def by (auto split: sum.splits option.splits if_splits)
  note d = validate_dests_spec [OF ds] and s = validate_sources_spec [OF ss assms(2)]
  show ?thesis
  proof (intro ballI conjI)
    fix s d assume sd: "s \<in> set (cfg_SourceBlockchains c')" "d \<in> set (sb_SupportedDestinations s)"
    then have sd': "sd_BlockchainID d \<in> set names" "HexOrCB58ToID (ce_ids env) (sd_BlockchainID d) = Inr (sd_blockchainID d)"
      using s by blast+
    then obtain t where t: "t \<in> set (cfg_DestinationBlockchains c')" "db_BlockchainID t = sd_BlockchainID d"
      using d by auto
    then have id: "db_blockchainID t = sd_blockchainID d" using d sd'(2) by fastforce
    with t show "\<exists>t \<in> set (cfg_DestinationBlockchains c'). db_BlockchainID t = sd_BlockchainID d \<and> db_blockchainID t = sd_blockchainID d"
      by blast
    have "m (sd_blockchainID d) \<noteq> None" using d t(1) id by metis
    then show "cfg_blockchainIDToSubnetID c' (sd_blockchainID d) \<noteq> None" using s by blast
    show "0 \<notin> set (sd_addresses d)" using s sd by blast
  qed (use s in blast)
qed

section \<open>A concrete configuration\<close>

definition sample_cfg_env :: cfg_env where
  "sample_cfg_env =
     \<lparr>ce_ids = sample_ids_env, ce_ParseRequestURI = \<lambda>u. if u = [] then Some (Errorf ''empty url'') else None,
      ce_IsHexAddress = \<lambda>a. HasPrefix a ''0x'', ce_HexToAddress = \<lambda>a. of_nat (length a),
      ce_HexToECDSA = \<lambda>k. if k = [] then Some (Errorf ''invalid length'') else None,
      ce_WarpDefaultQuorumNumerator = 67, ce_WarpQuorumDenominator = 100, ce_order = \<lambda>l. l,
      ce_Dial = \<lambda>_. Inr (Inr \<lparr>cc_PrecompileUpgrades = [WarpConfig (Some 10) 80, WarpConfig (Some 5) 70],
        cc_GenesisPrecompiles = Map.empty\<rparr>)\<rparr>"

definition sample_api :: api_config where
  "sample_api = \<lparr>BaseURL = ''http://localhost'', QueryParams = [], HTTPHeaders = []\<rparr>"

definition sample_source :: source_blockchain where
  "sample_source =
     \<lparr>sb_SubnetID = ''C4'', sb_BlockchainID = ''C5'', sb_VM = ''evm'', sb_RPCEndpoint = sample_api, sb_WSEndpoint = sample_api,
      sb_MessageContracts = [(''0xaa'', \<lparr>MessageFormat = ''teleporter'', Settings = []\<rparr>)], sb_SupportedDestinations = [],
      sb_ProcessHistoricalBlocksFromHeight = 0, sb_AllowedOriginSenderAddresses = [''0x1234''],
      sb_WarpAPIEndpoint = sample_api\<lparr>BaseURL := []\<rparr>, sb_subnetID = 0, sb_blockchainID = 0,
      sb_allowedOriginSenderAddresses = [], sb_useAppRequestNetwork = False\<rparr>"

definition sample_destination :: "string \<Rightarrow> destination_blockchain" where
  "sample_destination b =
     \<lparr>db_SubnetID = ''C6'', db_BlockchainID = b, db_VM = ''evm'', db_RPCEndpoint = sample_api, db_KMSKeyID = [],
      db_KMSAWSRegion = [], db_AccountPrivateKey = ''0x56'', db_warpQuorum = \<lparr>QuorumNumerator = 0, QuorumDenominator = 0\<rparr>,
      db_subnetID = 0, db_blockchainID = 0\<rparr>"

definition sample_config :: "string \<Rightarrow> relayer_config" where
  "sample_config b =
     \<lparr>cfg_StorageLocation = ''db'', cfg_RedisURL = [], cfg_DBWriteIntervalSeconds = 10, cfg_PChainAPI = Some sample_api,
      cfg_InfoAPI = Some sample_api, cfg_SourceBlockchains = [sample_source],
      cfg_DestinationBlockchains = [sample_destination b], cfg_ProcessMissedBlocks = True, cfg_DeciderURL = [],
      cfg_SignatureCacheSize = 1024, cfg_blockchainIDToSubnetID = Map.empty, cfg_overwrittenOptions = []\<rparr>"

section \<open>Properties\<close>

text \<open>
  C23: A configuration that passes validation routes to configured destinations only: each
  supported destination of a source is a configured destination with the same ID and a known
  subnet, and neither a destination nor an origin address is the zero address, which stands for
  any address.
\<close>

theorem validated_routes:
  assumes "Config_Validate env c = Inr c'"
    and "\<forall>s \<in> set (cfg_SourceBlockchains c). \<forall>d \<in> set (sb_SupportedDestinations s). sd_addresses d = []"
  shows "\<forall>s \<in> set (cfg_SourceBlockchains c'). 0 \<notin> set (sb_allowedOriginSenderAddresses s) \<and>
    (\<forall>d \<in> set (sb_SupportedDestinations s). 0 \<notin> set (sd_addresses d) \<and>
       cfg_blockchainIDToSubnetID c' (sd_blockchainID d) \<noteq> None \<and>
       (\<exists>t \<in> set (cfg_DestinationBlockchains c'). db_BlockchainID t = sd_BlockchainID d \<and> db_blockchainID t = sd_blockchainID d))"
  by (rule Config_Validate_routes [OF assms])

theorem validated_routes_witness:
  "\<exists>c'. Config_Validate sample_cfg_env (sample_config ''C7'') = Inr c' \<and> length (cfg_SourceBlockchains c') = 1 \<and>
     (\<forall>d \<in> set (sb_SupportedDestinations (hd (cfg_SourceBlockchains c'))). sd_BlockchainID d = ''C7'' \<and>
        cfg_blockchainIDToSubnetID c' (sd_blockchainID d) \<noteq> None)"
proof -
  have "case Config_Validate sample_cfg_env (sample_config ''C7'') of Inl _ \<Rightarrow> False | Inr c' \<Rightarrow>
      length (cfg_SourceBlockchains c') = 1 \<and>
      map sd_BlockchainID (sb_SupportedDestinations (hd (cfg_SourceBlockchains c'))) = [''C7'']"
    by code_simp
  then obtain c' where c': "Config_Validate sample_cfg_env (sample_config ''C7'') = Inr c'" "length (cfg_SourceBlockchains c') = 1"
      "map sd_BlockchainID (sb_SupportedDestinations (hd (cfg_SourceBlockchains c'))) = [''C7'']"
    by (auto split: sum.splits)
  have "\<forall>s \<in> set (cfg_SourceBlockchains (sample_config ''C7'')). \<forall>d \<in> set (sb_SupportedDestinations s). sd_addresses d = []"
    by (simp add: sample_config_def sample_source_def)
  from validated_routes [OF c'(1) this] c' show ?thesis
    by (cases "cfg_SourceBlockchains c'") auto
qed

text \<open>
  C24: The quorum of a subnet is the one of its latest Warp upgrade: the numerator comes from an
  upgrade of the chain configuration that no other one succeeds.
\<close>

theorem warp_quorum_latest:
  assumes "subnetID \<noteq> 0" and "WarpConfig t0 n0 \<in> set (cc_PrecompileUpgrades cc)"
    and "\<forall>t n. WarpConfig t n \<in> set (cc_PrecompileUpgrades cc) \<longrightarrow> t \<noteq> None"
  shows "\<exists>t n. getWarpQuorum env subnetID b (Inr cc) =
      Inr \<lparr>QuorumNumerator = calculateQuorumNumerator env n, QuorumDenominator = ce_WarpQuorumDenominator env\<rparr> \<and>
    WarpConfig (Some t) n \<in> set (cc_PrecompileUpgrades cc) \<and>
    (\<forall>t' n'. WarpConfig (Some t') n' \<in> set (cc_PrecompileUpgrades cc) \<longrightarrow> t' \<le> t)"
proof -
  have ts: "\<And>t n. WarpConfig t n \<in> set (cc_PrecompileUpgrades cc) \<Longrightarrow> t \<noteq> None" using assms(3) by blast
  obtain t n where l: "latest_warp (cc_PrecompileUpgrades cc) None = Inr (Some (Some t, n))"
    using latest_warp_exists [of "cc_PrecompileUpgrades cc" None] ts assms(2) by blast
  have "WarpConfig (Some t) n \<in> set (cc_PrecompileUpgrades cc) \<and>
      (\<forall>t' n'. WarpConfig (Some t') n' \<in> set (cc_PrecompileUpgrades cc) \<longrightarrow> t' \<le> t)"
    using latest_warp_max [OF l ts] by simp
  then show ?thesis
    using l assms(1) by (auto simp: getWarpQuorum_def Let_def)
qed

theorem warp_quorum_latest_witness:
  "getWarpQuorum sample_cfg_env 6 7 (Inr \<lparr>cc_PrecompileUpgrades = [WarpConfig (Some 10) 80, WarpConfig (Some 5) 70],
     cc_GenesisPrecompiles = Map.empty\<rparr>) = Inr \<lparr>QuorumNumerator = 80, QuorumDenominator = 100\<rparr>"
  using warp_quorum_latest [of 6 "Some 10" 80
      "\<lparr>cc_PrecompileUpgrades = [WarpConfig (Some 10) 80, WarpConfig (Some 5) 70], cc_GenesisPrecompiles = Map.empty\<rparr>"
      sample_cfg_env 7]
  by (auto simp: calculateQuorumNumerator_def sample_cfg_env_def)

text \<open>
  Destinations configured by a hexadecimal blockchain ID pass validation, but the relayer
  never finds their quorum: the lookup compares the configured text with the cb58 text of the ID.
\<close>

theorem hex_destination_no_quorum:
  assumes "ids_env_ok (ce_ids env)"
    and "\<forall>d \<in> set (cfg_DestinationBlockchains c). HasPrefix (db_BlockchainID d) ''0x''"
  shows "GetWarpQuorum env c b = Inl errFailedToGetWarpQuorum"
  using find_quorum_hex [OF assms] by (simp add: GetWarpQuorum_def)

theorem hex_destination_no_quorum_witness:
  "\<exists>c'. Config_Validate sample_cfg_env (sample_config (''0x'' @ hex_EncodeToString (replicate 31 0 @ [7]))) = Inr c' \<and>
     map db_blockchainID (cfg_DestinationBlockchains c') = [7] \<and>
     GetWarpQuorum sample_cfg_env c' 7 = Inl errFailedToGetWarpQuorum"
proof -
  let ?b = "''0x'' @ hex_EncodeToString (replicate 31 0 @ [7])"
  have "case Config_Validate sample_cfg_env (sample_config ?b) of Inl _ \<Rightarrow> False | Inr c' \<Rightarrow>
      map db_blockchainID (cfg_DestinationBlockchains c') = [7] \<and>
      list_all (\<lambda>d. HasPrefix (db_BlockchainID d) ''0x'') (cfg_DestinationBlockchains c')"
    by code_simp
  then obtain c' where c': "Config_Validate sample_cfg_env (sample_config ?b) = Inr c'"
      "map db_blockchainID (cfg_DestinationBlockchains c') = [7]"
      "\<forall>d \<in> set (cfg_DestinationBlockchains c'). HasPrefix (db_BlockchainID d) ''0x''"
    by (auto simp: list_all_iff split: sum.splits)
  have "ids_env_ok (ce_ids sample_cfg_env)" by (simp add: sample_cfg_env_def sample_ids_env_ok)
  from hex_destination_no_quorum [OF this c'(3)] c'(1,2) show ?thesis by (intro exI [of _ c']) simp
qed

text \<open>
  The key of a destination is the one given globally, else the one in the environment
  variable of its chain, else the configured one, always without its \<^verbatim>\<open>0x\<close>; nothing else of the
  destinations changes.
\<close>

theorem BuildConfig_keys:
  "\<exists>cfg'. BuildConfig getenv key (Inr cfg) = Inr cfg' \<and>
     cfg_DestinationBlockchains cfg' = map (\<lambda>s. s\<lparr>db_AccountPrivateKey := SanitizeHexString
       (if key \<noteq> [] then key
        else if getenv (''ACCOUNT_PRIVATE_KEY_'' @ db_BlockchainID s) \<noteq> [] then getenv (''ACCOUNT_PRIVATE_KEY_'' @ db_BlockchainID s)
        else db_AccountPrivateKey s)\<rparr>) (cfg_DestinationBlockchains cfg)"
proof -
  have "fst (override_keys getenv key ds ow) = map (\<lambda>s. s\<lparr>db_AccountPrivateKey := SanitizeHexString
       (if key \<noteq> [] then key
        else if getenv (''ACCOUNT_PRIVATE_KEY_'' @ db_BlockchainID s) \<noteq> [] then getenv (''ACCOUNT_PRIVATE_KEY_'' @ db_BlockchainID s)
        else db_AccountPrivateKey s)\<rparr>) ds" for ds ow
    by (induction ds arbitrary: ow) (simp_all add: Let_def case_prod_unfold)
  then show ?thesis by (simp add: BuildConfig_def case_prod_unfold)
qed

end
