(* ===== verification/Relayer_ID.thy ===== *)
theory Relayer_ID
  imports Relayer_Database Relayer_Config
begin

text \<open>
  \<^verbatim>\<open>database/relayer_id.go\<close>: the identifiers of application relayers. A relayer stands for a route,
  from a sender on a source chain to an address on a destination chain; its identifier is the
  hash of the text of the route. The zero address stands for every address. The theory shows that
  the text determines the route and which routes a configuration yields.
\<close>

section \<open>Identifiers\<close>

type_synonym route = "ids_ID \<times> ids_ID \<times> address \<times> address"

text \<open>The texts of IDs and addresses, and Keccak-256.\<close>

record rid_env =
  rk_ids :: ids_env
  rk_AddressString :: "address \<Rightarrow> string"
  rk_Keccak256Hash :: "string \<Rightarrow> hash"

definition AllAllowedAddress :: address where
  "AllAllowedAddress = 0"

fun route_text :: "rid_env \<Rightarrow> route \<Rightarrow> string" where
  "route_text env (sourceBlockchainID, destinationBlockchainID, originSenderAddress, destinationAddress) =
     string_Join [ids_String (rk_ids env) sourceBlockchainID, ids_String (rk_ids env) destinationBlockchainID,
       rk_AddressString env originSenderAddress, rk_AddressString env destinationAddress] CHR ''-''"

definition CalculateRelayerID :: "rid_env \<Rightarrow> ids_ID \<Rightarrow> ids_ID \<Rightarrow> address \<Rightarrow> address \<Rightarrow> hash" where
  "CalculateRelayerID env sourceBlockchainID destinationBlockchainID originSenderAddress destinationAddress =
     rk_Keccak256Hash env
       (route_text env (sourceBlockchainID, destinationBlockchainID, originSenderAddress, destinationAddress))"

definition NewRelayerID :: "rid_env \<Rightarrow> ids_ID \<Rightarrow> ids_ID \<Rightarrow> address \<Rightarrow> address \<Rightarrow> relayer_id" where
  "NewRelayerID env sourceBlockchainID destinationBlockchainID originSenderAddress destinationAddress =
     \<lparr>SourceBlockchainID = sourceBlockchainID, DestinationBlockchainID = destinationBlockchainID,
      OriginSenderAddress = originSenderAddress, DestinationAddress = destinationAddress,
      rid_ID = CalculateRelayerID env sourceBlockchainID destinationBlockchainID originSenderAddress destinationAddress\<rparr>"

definition or_all :: "address list \<Rightarrow> address list" where
  "or_all addresses = (if length addresses = 0 then addresses @ [AllAllowedAddress] else addresses)"

definition GetSourceBlockchainRelayerIDs :: "rid_env \<Rightarrow> source_blockchain \<Rightarrow> relayer_id list" where
  "GetSourceBlockchainRelayerIDs env s =
     concat (map (\<lambda>srcAddress.
       concat (map (\<lambda>dst.
         map (\<lambda>dstAddress. NewRelayerID env (sb_blockchainID s) (sd_blockchainID dst) srcAddress dstAddress)
           (or_all (sd_addresses dst)))
         (sb_SupportedDestinations s)))
       (or_all (sb_allowedOriginSenderAddresses s)))"

definition GetConfigRelayerIDs :: "rid_env \<Rightarrow> relayer_config \<Rightarrow> relayer_id list" where
  "GetConfigRelayerIDs env cfg = concat (map (GetSourceBlockchainRelayerIDs env) (cfg_SourceBlockchains cfg))"

section \<open>Routes\<close>

fun rid_route :: "relayer_id \<Rightarrow> route" where
  "rid_route r = (SourceBlockchainID r, DestinationBlockchainID r, OriginSenderAddress r, DestinationAddress r)"

text \<open>
  The texts of IDs (base 58) and of addresses (hexadecimal) are injective and have no hyphen. Two
  routes of a given set never collide under the hash.
\<close>

definition rid_env_ok :: "rid_env \<Rightarrow> bool" where
  "rid_env_ok env \<longleftrightarrow> ids_env_ok (rk_ids env) \<and> inj (rk_AddressString env) \<and>
     (\<forall>i. CHR ''-'' \<notin> set (ids_String (rk_ids env) i)) \<and> (\<forall>a. CHR ''-'' \<notin> set (rk_AddressString env a))"

definition collision_free :: "rid_env \<Rightarrow> route set \<Rightarrow> bool" where
  "collision_free env R \<longleftrightarrow> inj_on (rk_Keccak256Hash env) (route_text env ` R)"

lemma ids_String_inj: "ids_env_ok env \<Longrightarrow> ids_String env i = ids_String env j \<Longrightarrow> i = j"
  by (metis ids_env_ok_def sum.inject(2))

lemma route_text_inj:
  assumes "rid_env_ok env" and "route_text env p = route_text env q"
  shows "p = q"
proof -
  obtain a b c d where p: "p = (a, b, c, d)" by (metis prod_cases4)
  obtain a' b' c' d' where q: "q = (a', b', c', d')" by (metis prod_cases4)
  let ?S = "ids_String (rk_ids env)" and ?A = "rk_AddressString env"
  have "string_Join [?S a, ?S b, ?A c, ?A d] CHR ''-'' = string_Join [?S a', ?S b', ?A c', ?A d'] CHR ''-''"
    using assms(2) unfolding p q by (simp only: route_text.simps)
  then have "[?S a, ?S b, ?A c, ?A d] = [?S a', ?S b', ?A c', ?A d']"
    by (rule string_Join_inj) (use assms(1) in \<open>auto simp: rid_env_ok_def\<close>)
  then show ?thesis
    using assms(1) ids_String_inj [of "rk_ids env"] by (auto simp: p q rid_env_ok_def dest: injD)
qed

lemma CalculateRelayerID_inj:
  assumes "rid_env_ok env" and "collision_free env R" and "(a, b, c, d) \<in> R" and "(a', b', c', d') \<in> R"
    and "CalculateRelayerID env a b c d = CalculateRelayerID env a' b' c' d'"
  shows "(a, b, c, d) = (a', b', c', d')"
proof -
  have "route_text env (a, b, c, d) = route_text env (a', b', c', d')"
    using assms(2-5) unfolding collision_free_def CalculateRelayerID_def by (meson imageI inj_onD)
  then show ?thesis by (rule route_text_inj [OF assms(1)])
qed

lemma rid_ID_New [simp]: "rid_ID (NewRelayerID env a b c d) = CalculateRelayerID env a b c d"
  by (simp add: NewRelayerID_def)

lemma rid_route_New [simp]: "rid_route (NewRelayerID env a b c d) = (a, b, c, d)"
  by (simp add: NewRelayerID_def)

lemma set_or_all: "set (or_all l) = (if l = [] then {0} else set l)"
  by (simp add: or_all_def AllAllowedAddress_def)

lemma source_ids_iff:
  "r \<in> set (GetSourceBlockchainRelayerIDs env s) \<longleftrightarrow>
     (\<exists>o1 \<in> set (or_all (sb_allowedOriginSenderAddresses s)). \<exists>d \<in> set (sb_SupportedDestinations s).
        \<exists>a \<in> set (or_all (sd_addresses d)). r = NewRelayerID env (sb_blockchainID s) (sd_blockchainID d) o1 a)"
  by (auto simp: GetSourceBlockchainRelayerIDs_def)

section \<open>What a configuration allows\<close>

text \<open>
  The routing rule of the configuration: the sender is on the source's list and the address on the
  destination's list, where an empty list allows every address.
\<close>

fun allows :: "source_blockchain \<Rightarrow> route \<Rightarrow> bool" where
  "allows s (src, dst, origin, addr) \<longleftrightarrow> src = sb_blockchainID s \<and>
     (sb_allowedOriginSenderAddresses s = [] \<or> origin \<in> set (sb_allowedOriginSenderAddresses s)) \<and>
     (\<exists>d \<in> set (sb_SupportedDestinations s). sd_blockchainID d = dst \<and>
        (sd_addresses d = [] \<or> addr \<in> set (sd_addresses d)))"

definition no_zero_address :: "source_blockchain \<Rightarrow> bool" where
  "no_zero_address s \<longleftrightarrow> 0 \<notin> set (sb_allowedOriginSenderAddresses s) \<and>
     (\<forall>d \<in> set (sb_SupportedDestinations s). 0 \<notin> set (sd_addresses d))"

text \<open>The routes under which a message is looked up: each address, or the wildcard in its place.\<close>

definition lookups :: "route \<Rightarrow> route list" where
  "lookups p = (case p of (src, dst, origin, addr) \<Rightarrow>
     [(src, dst, origin, addr), (src, dst, origin, 0), (src, dst, 0, addr), (src, dst, 0, 0)])"

lemma lookup_route_allowed:
  assumes "no_zero_address s" and "r \<in> set (GetSourceBlockchainRelayerIDs env s)" and "rid_route r \<in> set (lookups p)"
  shows "allows s p"
proof -
  obtain src dst origin addr where p: "p = (src, dst, origin, addr)" by (metis prod_cases4)
  obtain o1 d a where r: "o1 \<in> set (or_all (sb_allowedOriginSenderAddresses s))" "d \<in> set (sb_SupportedDestinations s)"
      "a \<in> set (or_all (sd_addresses d))" "r = NewRelayerID env (sb_blockchainID s) (sd_blockchainID d) o1 a"
    using assms(2) unfolding source_ids_iff by blast
  have m: "src = sb_blockchainID s" "dst = sd_blockchainID d" "o1 = origin \<or> o1 = 0" "a = addr \<or> a = 0"
    using assms(3) unfolding r(4) rid_route_New by (auto simp: lookups_def p)
  have "sb_allowedOriginSenderAddresses s = [] \<or> origin \<in> set (sb_allowedOriginSenderAddresses s)"
    using r(1) m(3) assms(1) by (auto simp: set_or_all no_zero_address_def split: if_splits)
  moreover have "sd_addresses d = [] \<or> addr \<in> set (sd_addresses d)"
    using r(2,3) m(4) assms(1) by (auto simp: set_or_all no_zero_address_def split: if_splits)
  ultimately show ?thesis using m(1,2) r(2) by (auto simp: p)
qed

lemma allowed_has_lookup:
  assumes "allows s p"
  shows "\<exists>r \<in> set (GetSourceBlockchainRelayerIDs env s). rid_route r \<in> set (lookups p)"
proof -
  obtain src dst origin addr where p: "p = (src, dst, origin, addr)" by (metis prod_cases4)
  obtain d where d: "d \<in> set (sb_SupportedDestinations s)" "sd_blockchainID d = dst"
      "sd_addresses d = [] \<or> addr \<in> set (sd_addresses d)" and src: "src = sb_blockchainID s"
      and og: "sb_allowedOriginSenderAddresses s = [] \<or> origin \<in> set (sb_allowedOriginSenderAddresses s)"
    using assms unfolding p by auto
  let ?o = "if sb_allowedOriginSenderAddresses s = [] then 0 else origin"
  let ?a = "if sd_addresses d = [] then 0 else addr"
  let ?r = "NewRelayerID env (sb_blockchainID s) (sd_blockchainID d) ?o ?a"
  have "?o \<in> set (or_all (sb_allowedOriginSenderAddresses s))" "?a \<in> set (or_all (sd_addresses d))"
    using d(3) og by (auto simp: set_or_all)
  then have "?r \<in> set (GetSourceBlockchainRelayerIDs env s)" using d(1) unfolding source_ids_iff by blast
  moreover have "rid_route ?r \<in> set (lookups p)"
    unfolding rid_route_New by (simp add: lookups_def p src d(2))
  ultimately show ?thesis by blast
qed

section \<open>A concrete hash\<close>

definition sample_rid_env :: rid_env where
  "sample_rid_env =
     \<lparr>rk_ids = sample_ids_env, rk_AddressString = \<lambda>a. CHR ''A'' # decimal (unat a),
      rk_Keccak256Hash = \<lambda>s. word_of_int (foldl (\<lambda>n c. 257 * n + of_char c) 0 s)\<rparr>"

lemma decimal_no_hyphen: "CHR ''-'' \<notin> set (decimal n)"
proof (induction n rule: decimal.induct)
  case (1 n)
  have "CHR ''-'' \<noteq> digit_char (n mod 10)"
  proof
    assume "CHR ''-'' = digit_char (n mod 10)"
    then have "char_digit CHR ''-'' = Some (n mod 10)" by simp
    then show False by (simp add: char_digit_def)
  qed
  with 1 show ?case by (auto simp: decimal.simps [of n])
qed

lemma sample_rid_env_ok: "rid_env_ok sample_rid_env"
proof -
  have "inj (\<lambda>a :: address. decimal (unat a))"
    by (rule inj_on_inverseI [where g = "\<lambda>s. of_nat (the (digits_value 0 s))"]) (simp add: digits_value_decimal)
  then have "inj (\<lambda>a :: address. CHR ''A'' # decimal (unat a))" by (simp add: inj_def)
  then show ?thesis
    using sample_ids_env_ok decimal_no_hyphen by (simp add: rid_env_ok_def sample_rid_env_def sample_ids_env_def)
qed

end
