(* ===== verification/Peers_Network.thy ===== *)
theory Peers_Network
  imports Relayer_Utils
begin

text \<open>
  \<^verbatim>\<open>peers/app_request_network.go\<close> and \<^verbatim>\<open>peers/validators/canonical_validator_client.go\<close>: the
  canonical validators of a subnet, the connections to their nodes and the stake that is
  connected. The P-chain client, the info API, avalanchego's network and its computation of the
  canonical set are the environment \<open>net_env\<close>; \<open>net_env_ok\<close> says what the sources rely on.
\<close>

section \<open>Data\<close>

record 'pk warp_validator =
  PublicKey :: 'pk
  PublicKeyBytes :: bytes
  Weight :: u64
  NodeIDs :: "nodeID list"

text \<open>The answer of \<^verbatim>\<open>GetValidatorSet\<close> for a node: its weight and its BLS key, if it has one.\<close>

record 'pk validator_output =
  gvo_NodeID :: nodeID
  gvo_PublicKey :: "'pk option"
  gvo_Weight :: u64

text \<open>A validator as the platform client reports it.\<close>

record 'pk client_validator =
  clv_NodeID :: nodeID
  clv_Weight :: u64
  clv_Signer :: "'pk option"

record 'pk connected_validators =
  ConnectedWeight :: u64
  TotalValidatorWeight :: u64
  ValidatorSet :: "'pk warp_validator list"
  NodeValidatorIndexMap :: "nodeID \<Rightarrow> nat option"

record 'pk pchain_client =
  pc_GetHeight :: "u64 result"
  pc_GetValidatorsAt :: "ids_ID \<Rightarrow> u64 \<Rightarrow> (nodeID \<Rightarrow> 'pk validator_output option) result"
  pc_GetCurrentValidators :: "ids_ID \<Rightarrow> nodeID list \<Rightarrow> 'pk client_validator list result"
  pc_ValidatedBy :: "ids_ID \<Rightarrow> ids_ID result"

text \<open>
  \<open>ne_canonical\<close> is avalanchego's \<^verbatim>\<open>GetCanonicalValidatorSet\<close>, which asks the client it is given for
  the validators at a height; \<open>ne_PeerInfo\<close> the connected ones among the given nodes; the peers
  of the info API come with their public address.
\<close>

record 'pk net_env =
  ne_client :: "'pk pchain_client"
  ne_canonical :: "(u64 \<Rightarrow> ids_ID \<Rightarrow> (nodeID \<Rightarrow> 'pk validator_output option) result) \<Rightarrow> u64 \<Rightarrow> ids_ID
     \<Rightarrow> ('pk warp_validator list \<times> u64) result"
  ne_PeerInfo :: "nodeID set \<Rightarrow> nodeID list"
  ne_Peers :: "(nodeID \<times> string) list result"
  ne_GetNodeID :: "nodeID result"
  ne_GetNodeIP :: "string result"

section \<open>The canonical validator client\<close>

definition GetSubnetID :: "'pk pchain_client \<Rightarrow> ids_ID \<Rightarrow> ids_ID result" where
  "GetSubnetID v blockchainID = pc_ValidatedBy v blockchainID"

definition GetMinimumHeight :: "'pk pchain_client \<Rightarrow> u64 result" where
  "GetMinimumHeight v = pc_GetHeight v"

definition GetCurrentHeight :: "'pk pchain_client \<Rightarrow> u64 result" where
  "GetCurrentHeight v = pc_GetHeight v"

fun subnet_outputs ::
  "'pk client_validator list \<Rightarrow> (nodeID \<Rightarrow> 'pk validator_output option) \<Rightarrow> nodeID \<Rightarrow> 'pk validator_output option" where
  "subnet_outputs [] res = res"
| "subnet_outputs (v # vs) res =
     subnet_outputs vs (res(clv_NodeID v \<mapsto>
       \<lparr>gvo_NodeID = clv_NodeID v, gvo_PublicKey = None, gvo_Weight = clv_Weight v\<rparr>))"

fun set_BLS_keys ::
  "'pk client_validator list \<Rightarrow> (nodeID \<Rightarrow> 'pk validator_output option) \<Rightarrow> nodeID \<Rightarrow> 'pk validator_output option" where
  "set_BLS_keys [] res = res"
| "set_BLS_keys (v # vs) res =
     set_BLS_keys vs
       (case res (clv_NodeID v) of
          None \<Rightarrow> res
        | Some vdr \<Rightarrow>
            (case clv_Signer v of
               None \<Rightarrow> res
             | Some k \<Rightarrow> res(clv_NodeID v \<mapsto> vdr\<lparr>gvo_PublicKey := Some k\<rparr>)))"

definition getCurrentValidatorSet ::
  "'pk pchain_client \<Rightarrow> ids_ID \<Rightarrow> (nodeID \<Rightarrow> 'pk validator_output option) result" where
  "getCurrentValidatorSet v subnetID =
     (case pc_GetCurrentValidators v subnetID [] of
        Inl e \<Rightarrow> Inl e
      | Inr subnetVdrs \<Rightarrow>
          (let res = subnet_outputs subnetVdrs Map.empty;
               subnetNodeIDs = map clv_NodeID subnetVdrs
           in case pc_GetCurrentValidators v 0 subnetNodeIDs of
                Inl e \<Rightarrow> Inl e
              | Inr primaryVdrs \<Rightarrow> Inr (set_BLS_keys primaryVdrs res)))"

definition GetValidatorSet ::
  "'pk pchain_client \<Rightarrow> u64 \<Rightarrow> ids_ID \<Rightarrow> (nodeID \<Rightarrow> 'pk validator_output option) result" where
  "GetValidatorSet v height subnetID =
     (case pc_GetValidatorsAt v subnetID height of
        Inl e \<Rightarrow> getCurrentValidatorSet v subnetID
      | Inr res \<Rightarrow> Inr res)"

definition GetCurrentCanonicalValidatorSet ::
  "'pk net_env \<Rightarrow> ids_ID \<Rightarrow> ('pk warp_validator list \<times> u64) result" where
  "GetCurrentCanonicalValidatorSet env subnetID =
     (case GetCurrentHeight (ne_client env) of
        Inl e \<Rightarrow> Inl e
      | Inr height \<Rightarrow>
          (case ne_canonical env (GetValidatorSet (ne_client env)) height subnetID of
             Inl e \<Rightarrow> Inl e
           | Inr (vdrs, totalValidatorWeight) \<Rightarrow> Inr (vdrs, totalValidatorWeight)))"

section \<open>Connecting\<close>

text \<open>
  The state is the list of nodes handed to \<^verbatim>\<open>ManuallyTrack\<close>, newest last. The loop over the peers
  stops as soon as every requested node is tracked.
\<close>

fun track_peers ::
  "nodeID set \<Rightarrow> (nodeID \<times> string) list \<Rightarrow> nodeID set \<Rightarrow> (nodeID \<times> string) list
     \<Rightarrow> bool \<times> nodeID set \<times> (nodeID \<times> string) list" where
  "track_peers nodeIDs [] trackedNodes manual = (False, trackedNodes, manual)"
| "track_peers nodeIDs ((n, ip) # peers) trackedNodes manual =
     (if n \<in> nodeIDs then
        (let tracked = insert n trackedNodes; manual' = manual @ [(n, ip)]
         in if card tracked = card nodeIDs then (True, tracked, manual')
            else track_peers nodeIDs peers tracked manual')
      else track_peers nodeIDs peers trackedNodes manual)"

definition ConnectPeers ::
  "'pk net_env \<Rightarrow> nodeID set \<Rightarrow> (nodeID \<times> string) list \<Rightarrow> nodeID set \<times> (nodeID \<times> string) list" where
  "ConnectPeers env nodeIDs manual =
     (if length (ne_PeerInfo env nodeIDs) = card nodeIDs then (nodeIDs, manual)
      else case ne_Peers env of
          Inl e \<Rightarrow> ({}, manual)
        | Inr peers \<Rightarrow>
            (case track_peers nodeIDs peers {} manual of
               (True, trackedNodes, manual') \<Rightarrow> (trackedNodes, manual')
             | (False, trackedNodes, manual') \<Rightarrow>
                 (case ne_GetNodeID env of
                    Inl e \<Rightarrow> (trackedNodes, manual')
                  | Inr apiNodeID \<Rightarrow>
                      if apiNodeID \<in> nodeIDs then
                        (case ne_GetNodeIP env of
                           Inl e \<Rightarrow> (trackedNodes, manual')
                         | Inr ip \<Rightarrow> (insert apiNodeID trackedNodes, manual' @ [(apiNodeID, ip)]))
                      else (trackedNodes, manual'))))"

text \<open>The value a Go map gives for a key it may not have: the zero value.\<close>

definition index_of :: "(nodeID \<Rightarrow> nat option) \<Rightarrow> nodeID \<Rightarrow> nat" where
  "index_of m n = (case m n of None \<Rightarrow> 0 | Some i \<Rightarrow> i)"

fun node_index_map :: "'pk warp_validator list \<Rightarrow> nat \<Rightarrow> (nodeID \<Rightarrow> nat option) \<Rightarrow> nodeID \<Rightarrow> nat option" where
  "node_index_map [] i m = m"
| "node_index_map (v # vs) i m = node_index_map vs (Suc i) (foldl (\<lambda>m n. m(n \<mapsto> i)) m (NodeIDs v))"

definition GetValidator :: "'pk connected_validators \<Rightarrow> nodeID \<Rightarrow> ('pk warp_validator \<times> nat) result" where
  "GetValidator c nodeID =
     (let i = index_of (NodeValidatorIndexMap c) nodeID
      in if i < length (ValidatorSet c) then Inr (ValidatorSet c ! i, i)
         else Inl (Panic ''index out of range''))"

definition ConnectToCanonicalValidators ::
  "'pk net_env \<Rightarrow> ids_ID \<Rightarrow> (nodeID \<times> string) list \<Rightarrow> 'pk connected_validators result \<times> (nodeID \<times> string) list" where
  "ConnectToCanonicalValidators env subnetID manual =
     (case GetCurrentCanonicalValidatorSet env subnetID of
        Inl e \<Rightarrow> (Inl e, manual)
      | Inr (validatorSet, totalValidatorWeight) \<Rightarrow>
          (let m = node_index_map validatorSet 0 Map.empty;
               nodeIDs = (\<Union>v \<in> set validatorSet. set (NodeIDs v));
               (connectedNodes, manual') = ConnectPeers env nodeIDs manual
           in if \<exists>n \<in> connectedNodes. index_of m n \<ge> length validatorSet
              then (Inl (Panic ''index out of range''), manual')
              else (Inr \<lparr>ConnectedWeight = (\<Sum>n \<in> connectedNodes. Weight (validatorSet ! index_of m n)),
                         TotalValidatorWeight = totalValidatorWeight, ValidatorSet = validatorSet,
                         NodeValidatorIndexMap = m\<rparr>, manual')))"

section \<open>Lemmas\<close>

lemma track_peers_subset:
  "track_peers nodeIDs peers tracked manual = (b, t, m) \<Longrightarrow> tracked \<subseteq> nodeIDs \<Longrightarrow> t \<subseteq> nodeIDs"
  by (induction nodeIDs peers tracked manual rule: track_peers.induct) (auto simp: Let_def split: if_splits)

lemma ConnectPeers_subset: "fst (ConnectPeers env nodeIDs manual) \<subseteq> nodeIDs"
  by (simp add: ConnectPeers_def split: sum.split prod.split bool.split)
    (meson empty_subsetI track_peers_subset)

lemma fold_index: "foldl (\<lambda>m n. m(n \<mapsto> i)) m ns k = (if k \<in> set ns then Some i else m k)"
  by (induction ns arbitrary: m) auto

lemma node_index_map_dom:
  "node_index_map vs i m n \<noteq> None \<longleftrightarrow> (\<exists>v \<in> set vs. n \<in> set (NodeIDs v)) \<or> m n \<noteq> None"
  by (induction vs arbitrary: i m) (auto simp: fold_index)

lemma node_index_map_nodes:
  assumes "node_index_map vs i m n = Some k"
  shows "i \<le> k \<and> k < i + length vs \<and> n \<in> set (NodeIDs (vs ! (k - i))) \<or> m n = Some k"
  using assms
proof (induction vs arbitrary: i m)
  case (Cons v vs)
  have "Suc i \<le> k \<and> k < Suc i + length vs \<and> n \<in> set (NodeIDs (vs ! (k - Suc i))) \<or>
      n \<in> set (NodeIDs v) \<and> i = k \<or> n \<notin> set (NodeIDs v) \<and> m n = Some k"
    using Cons.IH [OF Cons.prems [unfolded node_index_map.simps]] unfolding fold_index
    by (auto split: if_splits)
  then show ?case by (auto simp: nth_Cons')
qed simp

text \<open>A node of exactly one validator is mapped to that validator.\<close>

lemma node_index_map_unique:
  assumes "j < length vs" and "n \<in> set (NodeIDs (vs ! j))"
    and "\<forall>i < length vs. n \<in> set (NodeIDs (vs ! i)) \<longrightarrow> i = j"
  shows "node_index_map vs 0 Map.empty n = Some j"
proof -
  have "node_index_map vs 0 Map.empty n \<noteq> None"
    using assms(1,2) by (subst node_index_map_dom) (auto intro: bexI [of _ "vs ! j"])
  then obtain k where k: "node_index_map vs 0 Map.empty n = Some k" by auto
  with node_index_map_nodes [OF k] assms(3) show ?thesis by auto
qed

section \<open>What the network relies on\<close>

text \<open>
  What avalanchego documents of a canonical set: every validator has a node, no node belongs to
  two validators, and the total weight, checked against overflow, is at least the sum of the
  weights (it includes validators without a BLS key).
\<close>

definition canonical_set_ok :: "'pk warp_validator list \<Rightarrow> u64 \<Rightarrow> bool" where
  "canonical_set_ok vs t \<longleftrightarrow>
     (\<forall>v \<in> set vs. NodeIDs v \<noteq> []) \<and>
     (\<forall>i < length vs. \<forall>j < length vs. i \<noteq> j \<longrightarrow> set (NodeIDs (vs ! i)) \<inter> set (NodeIDs (vs ! j)) = {}) \<and>
     sum_list (map (\<lambda>v. unat (Weight v)) vs) \<le> unat t"

definition cv_ok :: "'pk connected_validators \<Rightarrow> bool" where
  "cv_ok cv \<longleftrightarrow>
     canonical_set_ok (ValidatorSet cv) (TotalValidatorWeight cv) \<and>
     NodeValidatorIndexMap cv = node_index_map (ValidatorSet cv) 0 Map.empty"

definition net_env_ok :: "'pk net_env \<Rightarrow> bool" where
  "net_env_ok env \<longleftrightarrow>
     (\<forall>get height subnet vs t. ne_canonical env get height subnet = Inr (vs, t) \<longrightarrow> canonical_set_ok vs t)"

lemma cv_ok_GetValidator:
  assumes "cv_ok cv" and "i < length (ValidatorSet cv)" and "n \<in> set (NodeIDs (ValidatorSet cv ! i))"
  shows "GetValidator cv n = Inr (ValidatorSet cv ! i, i)"
proof -
  have disj: "\<forall>i < length (ValidatorSet cv). \<forall>j < length (ValidatorSet cv). i \<noteq> j \<longrightarrow>
      set (NodeIDs (ValidatorSet cv ! i)) \<inter> set (NodeIDs (ValidatorSet cv ! j)) = {}"
    and m: "NodeValidatorIndexMap cv = node_index_map (ValidatorSet cv) 0 Map.empty"
    using assms(1) unfolding cv_ok_def canonical_set_ok_def by - (elim conjE, assumption)+
  have "NodeValidatorIndexMap cv n = Some i"
    unfolding m using disj assms(2,3) by (intro node_index_map_unique) blast+
  then show ?thesis
    using assms(2) by (simp add: GetValidator_def index_of_def)
qed

lemma canonical_set_of_env:
  "net_env_ok env \<Longrightarrow> GetCurrentCanonicalValidatorSet env s = Inr (vs, t) \<Longrightarrow> canonical_set_ok vs t"
  unfolding net_env_ok_def GetCurrentCanonicalValidatorSet_def by (auto split: sum.splits)

lemma connect_shape:
  assumes "ConnectToCanonicalValidators env s manual = (Inr cv, manual')"
  shows "GetCurrentCanonicalValidatorSet env s = Inr (ValidatorSet cv, TotalValidatorWeight cv) \<and>
    NodeValidatorIndexMap cv = node_index_map (ValidatorSet cv) 0 Map.empty \<and>
    ConnectedWeight cv =
      (\<Sum>n \<in> fst (ConnectPeers env (\<Union>v \<in> set (ValidatorSet cv). set (NodeIDs v)) manual).
         Weight (ValidatorSet cv ! index_of (NodeValidatorIndexMap cv) n))"
  using assms
  by (auto simp: ConnectToCanonicalValidators_def Let_def split: sum.splits prod.splits if_splits)

section \<open>Connected stake\<close>

text \<open>The validators with a connected node.\<close>

definition connected_indices :: "'pk connected_validators \<Rightarrow> nodeID set \<Rightarrow> nat set" where
  "connected_indices cv nodes = {i. i < length (ValidatorSet cv) \<and> set (NodeIDs (ValidatorSet cv ! i)) \<inter> nodes \<noteq> {}}"

lemma connected_weight_le_total:
  assumes "cv_ok cv"
  shows "(\<Sum>i \<in> connected_indices cv nodes. unat (Weight (ValidatorSet cv ! i))) \<le> unat (TotalValidatorWeight cv)"
proof -
  have "(\<Sum>i \<in> connected_indices cv nodes. unat (Weight (ValidatorSet cv ! i)))
      \<le> (\<Sum>i < length (ValidatorSet cv). unat (Weight (ValidatorSet cv ! i)))"
    by (rule sum_mono2) (auto simp: connected_indices_def)
  also have "\<dots> \<le> unat (TotalValidatorWeight cv)"
    using assms by (simp add: cv_ok_def canonical_set_ok_def sum_list_nth)
  finally show ?thesis .
qed

lemma index_of_node:
  assumes "cv_ok cv" and "v \<in> set (ValidatorSet cv)" and "n \<in> set (NodeIDs v)"
  shows "index_of (NodeValidatorIndexMap cv) n < length (ValidatorSet cv) \<and>
    n \<in> set (NodeIDs (ValidatorSet cv ! index_of (NodeValidatorIndexMap cv) n))"
proof -
  obtain i where i: "i < length (ValidatorSet cv)" "v = ValidatorSet cv ! i"
    using assms(2) by (metis in_set_conv_nth)
  then have "GetValidator cv n = Inr (v, i)"
    using cv_ok_GetValidator [OF assms(1) i(1)] assms(3) by simp
  with assms(3) show ?thesis
    by (auto simp: GetValidator_def Let_def split: if_splits)
qed

lemma index_of_inj:
  assumes "cv_ok cv" and single: "\<forall>v \<in> set (ValidatorSet cv). length (NodeIDs v) = 1"
  shows "inj_on (index_of (NodeValidatorIndexMap cv)) (\<Union>v \<in> set (ValidatorSet cv). set (NodeIDs v))"
proof (rule inj_onI)
  fix m n
  let ?ix = "index_of (NodeValidatorIndexMap cv)"
  assume m: "m \<in> (\<Union>v \<in> set (ValidatorSet cv). set (NodeIDs v))" and
    n: "n \<in> (\<Union>v \<in> set (ValidatorSet cv). set (NodeIDs v))" and eq: "?ix m = ?ix n"
  have mn: "?ix n < length (ValidatorSet cv)" "m \<in> set (NodeIDs (ValidatorSet cv ! ?ix n))"
      "n \<in> set (NodeIDs (ValidatorSet cv ! ?ix n))"
    using index_of_node [OF assms(1)] m n eq by (metis UN_E)+
  then have "length (NodeIDs (ValidatorSet cv ! ?ix n)) = 1" using single by simp
  with mn(2,3) show "m = n" by (auto simp: length_Suc_conv)
qed

lemma connected_indices_image:
  assumes "cv_ok cv" and "nodes \<subseteq> (\<Union>v \<in> set (ValidatorSet cv). set (NodeIDs v))"
  shows "connected_indices cv nodes = index_of (NodeValidatorIndexMap cv) ` nodes"
proof -
  have "index_of (NodeValidatorIndexMap cv) n = i"
    if "i < length (ValidatorSet cv)" "n \<in> set (NodeIDs (ValidatorSet cv ! i))" for n i
    using cv_ok_GetValidator [OF assms(1) that] by (simp add: GetValidator_def Let_def split: if_splits)
  moreover have "index_of (NodeValidatorIndexMap cv) n < length (ValidatorSet cv) \<and>
      n \<in> set (NodeIDs (ValidatorSet cv ! index_of (NodeValidatorIndexMap cv) n))" if "n \<in> nodes" for n
    using index_of_node [OF assms(1)] assms(2) that by blast
  ultimately show ?thesis
    unfolding connected_indices_def by (auto simp: image_iff)
qed

section \<open>The fallback validator set\<close>

lemma subnet_outputs_map:
  "distinct (map clv_NodeID vs) \<Longrightarrow> subnet_outputs vs m n =
     (case map_of (map (\<lambda>v. (clv_NodeID v, clv_Weight v)) vs) n of
        None \<Rightarrow> m n
      | Some w \<Rightarrow> Some \<lparr>gvo_NodeID = n, gvo_PublicKey = None, gvo_Weight = w\<rparr>)"
proof (induction vs arbitrary: m)
  case (Cons v vs)
  have "map_of (map (\<lambda>v. (clv_NodeID v, clv_Weight v)) vs) (clv_NodeID v) = None"
    using Cons.prems by (auto simp: map_of_eq_None_iff image_image)
  with Cons show ?case by (auto split: option.splits)
qed simp

lemma set_BLS_keys_map:
  assumes "distinct (map clv_NodeID vs)"
  shows "set_BLS_keys vs m n =
     map_option (\<lambda>g. case map_of (map (\<lambda>v. (clv_NodeID v, clv_Signer v)) vs) n of
         Some (Some k) \<Rightarrow> g\<lparr>gvo_PublicKey := Some k\<rparr> | _ \<Rightarrow> g) (m n)"
  using assms
proof (induction vs arbitrary: m)
  case Nil
  then show ?case by (simp add: option.map_ident)
next
  case (Cons v vs)
  have "map_of (map (\<lambda>v. (clv_NodeID v, clv_Signer v)) vs) (clv_NodeID v) = None"
    using Cons.prems by (auto simp: map_of_eq_None_iff image_image)
  with Cons show ?case by (cases "m n") (auto split: option.splits)
qed

section \<open>A concrete network\<close>

text \<open>
  A network that is connected to every node, with the given canonical set; the client lists the
  nodes 1 and 2, the first of which has a BLS key.
\<close>

definition sample_client :: "nat pchain_client" where
  "sample_client =
     \<lparr>pc_GetHeight = Inr 5, pc_GetValidatorsAt = \<lambda>_ _. Inl (Errorf ''method not available''),
      pc_GetCurrentValidators = \<lambda>s ns. if s = 0 then Inr [\<lparr>clv_NodeID = 1, clv_Weight = 9, clv_Signer = Some 77\<rparr>]
        else Inr [\<lparr>clv_NodeID = 1, clv_Weight = 60, clv_Signer = None\<rparr>, \<lparr>clv_NodeID = 2, clv_Weight = 40, clv_Signer = None\<rparr>],
      pc_ValidatedBy = \<lambda>_. Inr 4\<rparr>"

definition sample_net :: "nat warp_validator list \<Rightarrow> u64 \<Rightarrow> nat net_env" where
  "sample_net vs t =
     \<lparr>ne_client = sample_client, ne_canonical = \<lambda>_ _ _. Inr (vs, t), ne_PeerInfo = \<lambda>ns. filter (\<lambda>n. n \<in> ns) [1, 2, 3],
      ne_Peers = Inr [], ne_GetNodeID = Inr 9, ne_GetNodeIP = Inr ''127.0.0.1''\<rparr>"

definition sample_vdr :: "nat \<Rightarrow> u64 \<Rightarrow> nodeID list \<Rightarrow> nat warp_validator" where
  "sample_vdr k w ns = \<lparr>PublicKey = k, PublicKeyBytes = replicate 48 (of_nat k), Weight = w, NodeIDs = ns\<rparr>"

lemma sample_net_ok:
  "net_env_ok (sample_net [sample_vdr 1 60 [1], sample_vdr 2 40 [2]] 100)"
  "net_env_ok (sample_net [sample_vdr 1 60 [1, 3], sample_vdr 2 40 [2]] 100)"
  by (auto simp: net_env_ok_def sample_net_def sample_vdr_def canonical_set_ok_def less_Suc_eq)

section \<open>Properties\<close>

text \<open>
  C21: Nodes are attributed to their validators: when the canonical set is as documented,
  connecting does not panic, and the validator found for a node of the set is the one it belongs
  to.
\<close>

theorem connect_attributes_nodes:
  assumes "net_env_ok env"
  shows "case fst (ConnectToCanonicalValidators env s manual) of
      Inl e \<Rightarrow> GetCurrentCanonicalValidatorSet env s = Inl e
    | Inr cv \<Rightarrow> \<forall>i < length (ValidatorSet cv). \<forall>n \<in> set (NodeIDs (ValidatorSet cv ! i)).
        GetValidator cv n = Inr (ValidatorSet cv ! i, i)"
proof (cases "GetCurrentCanonicalValidatorSet env s")
  case (Inl e)
  then show ?thesis by (simp add: ConnectToCanonicalValidators_def)
next
  case (Inr p)
  obtain vs t where p: "GetCurrentCanonicalValidatorSet env s = Inr (vs, t)"
    using Inr by (cases p) auto
  let ?m = "node_index_map vs 0 Map.empty" and ?nodes = "\<Union>v \<in> set vs. set (NodeIDs v)"
  have "index_of ?m n < length vs" if "n \<in> fst (ConnectPeers env ?nodes manual)" for n
  proof -
    have "n \<in> ?nodes" using that ConnectPeers_subset by blast
    then obtain k where "?m n = Some k" using node_index_map_dom [of vs 0 Map.empty n] by auto
    with node_index_map_nodes [OF this] show ?thesis by (simp add: index_of_def)
  qed
  then have "\<not> (\<exists>n \<in> fst (ConnectPeers env ?nodes manual). length vs \<le> index_of ?m n)"
    by (simp add: not_le)
  then obtain cv manual' where cv: "ConnectToCanonicalValidators env s manual = (Inr cv, manual')"
    using p by (simp add: ConnectToCanonicalValidators_def case_prod_unfold Let_def)
  have "cv_ok cv"
    using connect_shape [OF cv] canonical_set_of_env [OF assms] by (auto simp: cv_ok_def)
  then show ?thesis
    unfolding cv by (simp add: cv_ok_GetValidator)
qed

theorem connect_attributes_nodes_witness:
  "\<exists>cv. fst (ConnectToCanonicalValidators (sample_net [sample_vdr 1 60 [1, 3], sample_vdr 2 40 [2]] 100) 4 []) = Inr cv \<and>
     GetValidator cv 3 = Inr (sample_vdr 1 60 [1, 3], 0)"
proof -
  let ?env = "sample_net [sample_vdr 1 60 [1, 3], sample_vdr 2 40 [2]] 100"
  obtain cv where cv: "fst (ConnectToCanonicalValidators ?env 4 []) = Inr cv"
      "ValidatorSet cv = [sample_vdr 1 60 [1, 3], sample_vdr 2 40 [2]]"
    using connect_attributes_nodes [OF sample_net_ok(2), of 4 "[]"]
      connect_shape [of ?env 4 "[]"]
    by (cases "ConnectToCanonicalValidators ?env 4 []")
      (auto simp: GetCurrentCanonicalValidatorSet_def GetCurrentHeight_def sample_net_def sample_client_def split: sum.splits)
  from connect_attributes_nodes [OF sample_net_ok(2), of 4 "[]"] cv
  have "GetValidator cv 3 = Inr (ValidatorSet cv ! 0, 0)" by (auto simp: sample_vdr_def)
  with cv show ?thesis by simp
qed

text \<open>
  C22: When each validator runs one node, the connected weight is the weight of the validators
  with a connected node: it does not wrap around and is at most the total.
\<close>

theorem connected_weight_exact:
  assumes "net_env_ok env" and "ConnectToCanonicalValidators env s manual = (Inr cv, manual')"
    and "\<forall>v \<in> set (ValidatorSet cv). length (NodeIDs v) = 1"
    and "nodes = fst (ConnectPeers env (\<Union>v \<in> set (ValidatorSet cv). set (NodeIDs v)) manual)"
  shows "unat (ConnectedWeight cv) = (\<Sum>i \<in> connected_indices cv nodes. unat (Weight (ValidatorSet cv ! i))) \<and>
    ConnectedWeight cv \<le> TotalValidatorWeight cv"
proof -
  let ?ix = "index_of (NodeValidatorIndexMap cv)" and ?w = "\<lambda>i. unat (Weight (ValidatorSet cv ! i))"
  have ok: "cv_ok cv"
    using connect_shape [OF assms(2)] canonical_set_of_env [OF assms(1)] by (auto simp: cv_ok_def)
  have sub: "nodes \<subseteq> (\<Union>v \<in> set (ValidatorSet cv). set (NodeIDs v))"
    unfolding assms(4) by (rule ConnectPeers_subset)
  have sum: "(\<Sum>n \<in> nodes. ?w (?ix n)) = (\<Sum>i \<in> connected_indices cv nodes. ?w i)"
    unfolding connected_indices_image [OF ok sub]
    using sum.reindex [OF inj_on_subset [OF index_of_inj [OF ok assms(3)] sub], of ?w] by simp
  have le: "(\<Sum>n \<in> nodes. ?w (?ix n)) \<le> unat (TotalValidatorWeight cv)"
    unfolding sum by (rule connected_weight_le_total [OF ok])
  also have "\<dots> < 2 ^ LENGTH(64)" by (rule unsigned_less)
  finally have "unat (\<Sum>n \<in> nodes. Weight (ValidatorSet cv ! ?ix n)) = (\<Sum>n \<in> nodes. ?w (?ix n))"
    using finite_subset [OF sub] by (intro unat_sum) auto
  then show ?thesis
    using connect_shape [OF assms(2)] assms(4) sum le by (simp add: word_le_nat_alt)
qed

theorem connected_weight_exact_witness:
  "\<exists>cv manual. ConnectToCanonicalValidators (sample_net [sample_vdr 1 60 [1], sample_vdr 2 40 [2]] 100) 4 [] = (Inr cv, manual) \<and>
     unat (ConnectedWeight cv) = 100 \<and> ConnectedWeight cv \<le> TotalValidatorWeight cv"
proof -
  let ?env = "sample_net [sample_vdr 1 60 [1], sample_vdr 2 40 [2]] 100"
  obtain cv manual where cv: "ConnectToCanonicalValidators ?env 4 [] = (Inr cv, manual)"
      "ValidatorSet cv = [sample_vdr 1 60 [1], sample_vdr 2 40 [2]]" "ConnectedWeight cv = 100"
    by (simp add: ConnectToCanonicalValidators_def GetCurrentCanonicalValidatorSet_def GetCurrentHeight_def
        sample_net_def sample_client_def sample_vdr_def ConnectPeers_def index_of_def)
  from connected_weight_exact [OF sample_net_ok(1) cv(1) _ refl] cv show ?thesis
    by (auto simp: sample_vdr_def)
qed

text \<open>
  A validator that runs several nodes is counted once per connected node, so the connected
  weight can exceed the total weight of the subnet.
\<close>

theorem connected_weight_overcounts:
  "\<exists>(env :: nat net_env) cv manual. net_env_ok env \<and> ConnectToCanonicalValidators env 4 [] = (Inr cv, manual) \<and>
     ConnectedWeight cv = 160 \<and> TotalValidatorWeight cv = 100"
proof -
  let ?env = "sample_net [sample_vdr 1 60 [1, 3], sample_vdr 2 40 [2]] 100"
  have "\<exists>cv manual. ConnectToCanonicalValidators ?env 4 [] = (Inr cv, manual) \<and>
     ConnectedWeight cv = 160 \<and> TotalValidatorWeight cv = 100"
    by (simp add: ConnectToCanonicalValidators_def GetCurrentCanonicalValidatorSet_def GetCurrentHeight_def
        sample_net_def sample_client_def sample_vdr_def ConnectPeers_def index_of_def)
  with sample_net_ok(2) show ?thesis by blast
qed

text \<open>
  C28: The fallback to \<^verbatim>\<open>getCurrentValidators\<close> gives every subnet validator its subnet weight and
  the BLS key of its primary network registration, and no other node.
\<close>

theorem getCurrentValidatorSet_correct:
  assumes "pc_GetCurrentValidators v subnetID [] = Inr subnet"
    and "pc_GetCurrentValidators v 0 (map clv_NodeID subnet) = Inr primary"
    and "distinct (map clv_NodeID subnet)" and "distinct (map clv_NodeID primary)"
  shows "\<exists>res. getCurrentValidatorSet v subnetID = Inr res \<and> dom res = clv_NodeID ` set subnet \<and>
    (\<forall>x \<in> set subnet. res (clv_NodeID x) = Some \<lparr>gvo_NodeID = clv_NodeID x,
       gvo_PublicKey = (case find (\<lambda>y. clv_NodeID y = clv_NodeID x) primary of None \<Rightarrow> None | Some y \<Rightarrow> clv_Signer y),
       gvo_Weight = clv_Weight x\<rparr>)"
proof -
  have keys: "map_of (map (\<lambda>y. (clv_NodeID y, clv_Signer y)) primary) n =
      map_option clv_Signer (find (\<lambda>y. clv_NodeID y = n) primary)" for n
    by (induction primary) auto
  have weight: "map_of (map (\<lambda>y. (clv_NodeID y, clv_Weight y)) subnet) (clv_NodeID x) = Some (clv_Weight x)"
    if "x \<in> set subnet" for x
    using that assms(3) by (intro map_of_is_SomeI) (auto simp: comp_def)
  have none: "map_of (map (\<lambda>y. (clv_NodeID y, clv_Weight y)) subnet) n = None \<longleftrightarrow> n \<notin> clv_NodeID ` set subnet" for n
    by (simp add: map_of_eq_None_iff image_image)
  define res where "res = set_BLS_keys primary (subnet_outputs subnet Map.empty)"
  have res: "res n = map_option (\<lambda>w. \<lparr>gvo_NodeID = n,
       gvo_PublicKey = (case find (\<lambda>y. clv_NodeID y = n) primary of None \<Rightarrow> None | Some y \<Rightarrow> clv_Signer y),
       gvo_Weight = w\<rparr>) (map_of (map (\<lambda>y. (clv_NodeID y, clv_Weight y)) subnet) n)" for n
    unfolding res_def set_BLS_keys_map [OF assms(4)] subnet_outputs_map [OF assms(3)] keys
    by (auto split: option.splits)
  have "dom res = clv_NodeID ` set subnet"
    using none by (auto simp: dom_def res)
  moreover have "getCurrentValidatorSet v subnetID = Inr res"
    using assms(1,2) by (simp add: getCurrentValidatorSet_def res_def)
  ultimately show ?thesis using res weight by simp
qed

theorem getCurrentValidatorSet_correct_witness:
  "\<exists>res. getCurrentValidatorSet sample_client 4 = Inr res \<and> dom res = {1, 2} \<and>
     res 1 = Some \<lparr>gvo_NodeID = 1, gvo_PublicKey = Some 77, gvo_Weight = 60\<rparr> \<and>
     res 2 = Some \<lparr>gvo_NodeID = 2, gvo_PublicKey = None, gvo_Weight = 40\<rparr>"
  using getCurrentValidatorSet_correct [of sample_client 4
      "[\<lparr>clv_NodeID = 1, clv_Weight = 60, clv_Signer = None\<rparr>, \<lparr>clv_NodeID = 2, clv_Weight = 40, clv_Signer = None\<rparr>]"
      "[\<lparr>clv_NodeID = 1, clv_Weight = 9, clv_Signer = Some 77\<rparr>]"]
  by (auto simp: sample_client_def)

end
