(* ===== verification/External_Handler.thy ===== *)
theory External_Handler
  imports Peers_Network
begin

text \<open>
  \<^verbatim>\<open>peers/external_handler.go\<close>: inbound responses are dispatched to the channel registered for their
  request ID, which is closed after the expected number of responses. Every call holds the
  handler's lock, so the calls are the steps of the machine; a receive by the owner of a channel
  is a step of its own. A send on a channel without room is a value of the model, \<open>Blocked\<close>: the
  call then waits with the lock held.
\<close>

section \<open>Messages\<close>

datatype message_op = AppResponseOp | AppErrorOp | OtherOp

text \<open>
  An inbound message: \<open>im_ChainID\<close> and \<open>im_RequestID\<close> are what avalanchego extracts from the
  message, \<open>None\<close> when it has no such field; \<open>im_AppBytes\<close> the bytes of an \<^verbatim>\<open>AppResponse\<close>.
\<close>

record inbound_message =
  im_Op :: message_op
  im_NodeID :: nodeID
  im_ChainID :: "ids_ID option"
  im_RequestID :: "u32 option"
  im_AppBytes :: "bytes option"

record request_id =
  rq_NodeID :: nodeID
  rq_ChainID :: ids_ID
  rq_RequestID :: u32
  rq_Op :: message_op

section \<open>The handler\<close>

text \<open>Channels are objects shared with their owner: the handler refers to them by number.\<close>

record channel =
  ch_cap :: nat
  ch_buf :: "inbound_message list"
  ch_closed :: bool

record expectedResponses =
  er_expected :: nat
  er_received :: nat

text \<open>The operations of avalanchego's timeout manager, on its state \<open>'tm\<close>.\<close>

record 'tm timeout_ops =
  tm_Put :: "request_id \<Rightarrow> inbound_message \<Rightarrow> 'tm \<Rightarrow> 'tm"
  tm_Remove :: "request_id \<Rightarrow> 'tm \<Rightarrow> 'tm"

record 'tm external_handler =
  responseChans :: "u32 \<Rightarrow> nat option"
  responsesCount :: "u32 \<Rightarrow> expectedResponses option"
  eh_chans :: "nat \<Rightarrow> channel"
  eh_next :: nat
  eh_timeouts :: 'tm
  eh_finished :: nat
  eh_connects :: nat
  eh_disconnects :: nat

datatype 'a go_outcome = Done 'a | Blocked | Panicked

definition NewRelayerExternalHandler :: "'tm result \<Rightarrow> 'tm external_handler result" where
  "NewRelayerExternalHandler timeoutManager =
     (case timeoutManager of
        Inl e \<Rightarrow> Inl e
      | Inr tm \<Rightarrow> Inr \<lparr>responseChans = Map.empty, responsesCount = Map.empty,
          eh_chans = \<lambda>_. \<lparr>ch_cap = 0, ch_buf = [], ch_closed = False\<rparr>, eh_next = 0, eh_timeouts = tm,
          eh_finished = 0, eh_connects = 0, eh_disconnects = 0\<rparr>)"

definition Connected :: "'tm external_handler \<Rightarrow> 'tm external_handler" where
  "Connected h = h\<lparr>eh_connects := eh_connects h + 1\<rparr>"

definition Disconnected :: "'tm external_handler \<Rightarrow> 'tm external_handler" where
  "Disconnected h = h\<lparr>eh_disconnects := eh_disconnects h + 1\<rparr>"

definition OnFinishedHandling :: "'tm external_handler \<Rightarrow> 'tm external_handler" where
  "OnFinishedHandling h = h\<lparr>eh_finished := eh_finished h + 1\<rparr>"

definition RegisterRequestID :: "u32 \<Rightarrow> nat \<Rightarrow> 'tm external_handler \<Rightarrow> nat \<times> 'tm external_handler" where
  "RegisterRequestID requestID numExpectedResponses h =
     (let responseChan = eh_next h
      in (responseChan,
          h\<lparr>eh_chans := (eh_chans h)(responseChan := \<lparr>ch_cap = numExpectedResponses, ch_buf = [], ch_closed = False\<rparr>),
            eh_next := Suc responseChan,
            responseChans := (responseChans h)(requestID \<mapsto> responseChan),
            responsesCount := (responsesCount h)(requestID \<mapsto> \<lparr>er_expected = numExpectedResponses, er_received = 0\<rparr>)\<rparr>))"

text \<open>The message that a timeout hands to \<^verbatim>\<open>HandleInbound\<close>.\<close>

definition InboundAppError :: "nodeID \<Rightarrow> ids_ID \<Rightarrow> u32 \<Rightarrow> inbound_message" where
  "InboundAppError n c r =
     \<lparr>im_Op = AppErrorOp, im_NodeID = n, im_ChainID = Some c, im_RequestID = Some r, im_AppBytes = None\<rparr>"

definition RegisterAppRequest :: "'tm timeout_ops \<Rightarrow> request_id \<Rightarrow> 'tm external_handler \<Rightarrow> 'tm external_handler" where
  "RegisterAppRequest ops reqID h =
     (let inMsg = InboundAppError (rq_NodeID reqID) (rq_ChainID reqID) (rq_RequestID reqID)
      in h\<lparr>eh_timeouts := tm_Put ops reqID inMsg (eh_timeouts h)\<rparr>)"

definition registerAppResponse ::
  "'tm timeout_ops \<Rightarrow> inbound_message \<Rightarrow> 'tm external_handler \<Rightarrow> 'tm external_handler go_outcome" where
  "registerAppResponse ops m h =
     (case im_ChainID m of
        None \<Rightarrow> Done (OnFinishedHandling h)
      | Some chainID \<Rightarrow>
          (case im_RequestID m of
             None \<Rightarrow> Done (OnFinishedHandling h)
           | Some requestID \<Rightarrow>
               (let reqID = \<lparr>rq_NodeID = im_NodeID m, rq_ChainID = chainID, rq_RequestID = requestID, rq_Op = im_Op m\<rparr>;
                    h1 = h\<lparr>eh_timeouts := tm_Remove ops reqID (eh_timeouts h)\<rparr>
                in case responseChans h1 requestID of
                     None \<Rightarrow> Done h1
                   | Some c \<Rightarrow>
                       (let ch = eh_chans h1 c
                        in if ch_closed ch then Panicked
                           else if length (ch_buf ch) \<ge> ch_cap ch then Blocked
                           else
                             (let ch' = ch\<lparr>ch_buf := ch_buf ch @ [m]\<rparr>;
                                  h2 = h1\<lparr>eh_chans := (eh_chans h1)(c := ch')\<rparr>
                              in case responsesCount h2 requestID of
                                   None \<Rightarrow> Done h2
                                 | Some responses \<Rightarrow>
                                     (let received = er_received responses + 1
                                      in if received = er_expected responses then
                                           Done (h2\<lparr>eh_chans := (eh_chans h2)(c := ch'\<lparr>ch_closed := True\<rparr>),
                                                    responseChans := (responseChans h2)(requestID := None),
                                                    responsesCount := (responsesCount h2)(requestID := None)\<rparr>)
                                         else
                                           Done (h2\<lparr>responsesCount := (responsesCount h2)(requestID \<mapsto>
                                             \<lparr>er_expected = er_expected responses, er_received = received\<rparr>)\<rparr>)))))))"

definition HandleInbound ::
  "'tm timeout_ops \<Rightarrow> inbound_message \<Rightarrow> 'tm external_handler \<Rightarrow> 'tm external_handler go_outcome" where
  "HandleInbound ops m h =
     (if im_Op m = AppResponseOp \<or> im_Op m = AppErrorOp then registerAppResponse ops m h
      else Done (OnFinishedHandling h))"

text \<open>The owner of a channel receives from it: the oldest message, or that it is closed and empty.\<close>

definition chan_receive :: "nat \<Rightarrow> 'tm external_handler \<Rightarrow> (inbound_message option \<times> 'tm external_handler) option" where
  "chan_receive c h =
     (case ch_buf (eh_chans h c) of
        m # ms \<Rightarrow> Some (Some m, h\<lparr>eh_chans := (eh_chans h)(c := (eh_chans h c)\<lparr>ch_buf := ms\<rparr>)\<rparr>)
      | [] \<Rightarrow> if ch_closed (eh_chans h c) then Some (None, h) else None)"

text \<open>The machine: requests with at least one expected response, inbound messages, receives.\<close>

inductive handler_reach :: "'tm timeout_ops \<Rightarrow> 'tm external_handler \<Rightarrow> bool" for ops where
  new: "NewRelayerExternalHandler t = Inr h \<Longrightarrow> handler_reach ops h"
| request: "handler_reach ops h \<Longrightarrow> n > 0 \<Longrightarrow> RegisterRequestID r n h = (c, h') \<Longrightarrow> handler_reach ops h'"
| timeout: "handler_reach ops h \<Longrightarrow> handler_reach ops (RegisterAppRequest ops q h)"
| inbound: "handler_reach ops h \<Longrightarrow> HandleInbound ops m h = Done h' \<Longrightarrow> handler_reach ops h'"
| receive: "handler_reach ops h \<Longrightarrow> chan_receive c h = Some (x, h') \<Longrightarrow> handler_reach ops h'"

section \<open>The invariant\<close>

text \<open>
  An open request has its own channel, open, with room for as many messages as were expected, at
  most as many in it as were received, and fewer received than expected.
\<close>

definition request_ok :: "'tm external_handler \<Rightarrow> u32 \<Rightarrow> nat \<Rightarrow> bool" where
  "request_ok h r c \<longleftrightarrow>
     c < eh_next h \<and> \<not> ch_closed (eh_chans h c) \<and>
     (\<exists>e. responsesCount h r = Some e \<and> er_received e < er_expected e \<and>
        ch_cap (eh_chans h c) = er_expected e \<and> length (ch_buf (eh_chans h c)) \<le> er_received e)"

definition handler_inv :: "'tm external_handler \<Rightarrow> bool" where
  "handler_inv h \<longleftrightarrow>
     (\<forall>r c. responseChans h r = Some c \<longrightarrow> request_ok h r c) \<and>
     (\<forall>r r' c. responseChans h r = Some c \<longrightarrow> responseChans h r' = Some c \<longrightarrow> r = r')"

lemma handler_invD:
  assumes "handler_inv h" and "responseChans h r = Some c"
  shows "request_ok h r c" and "responseChans h r' = Some c \<Longrightarrow> r' = r"
  using assms unfolding handler_inv_def by blast+

lemma handler_invI:
  assumes "\<And>r c. responseChans h r = Some c \<Longrightarrow> request_ok h r c"
    and "\<And>r r' c. responseChans h r = Some c \<Longrightarrow> responseChans h r' = Some c \<Longrightarrow> r = r'"
  shows "handler_inv h"
  using assms unfolding handler_inv_def by blast

text \<open>Whether a message goes to the channel of request \<open>r\<close>.\<close>

definition answers :: "u32 \<Rightarrow> inbound_message \<Rightarrow> bool" where
  "answers r m \<longleftrightarrow> (im_Op m = AppResponseOp \<or> im_Op m = AppErrorOp) \<and> im_ChainID m \<noteq> None \<and> im_RequestID m = Some r"

text \<open>A message that answers no open request leaves channels and counts alone.\<close>

lemma HandleInbound_other:
  assumes "\<forall>r c. answers r m \<longrightarrow> responseChans h r \<noteq> Some c"
  shows "\<exists>h'. HandleInbound ops m h = Done h' \<and> responseChans h' = responseChans h \<and>
    responsesCount h' = responsesCount h \<and> eh_chans h' = eh_chans h \<and> eh_next h' = eh_next h"
  using assms
  by (auto simp: HandleInbound_def registerAppResponse_def answers_def OnFinishedHandling_def Let_def split: option.split)

text \<open>A message that answers an open request is queued, and the last expected one closes the channel.\<close>

lemma HandleInbound_answer:
  assumes "answers r m" and "responseChans h r = Some c" and "request_ok h r c"
    and "responsesCount h r = Some e"
  shows "\<exists>h'. HandleInbound ops m h = Done h' \<and> eh_next h' = eh_next h \<and>
    (let ch = (eh_chans h c)\<lparr>ch_buf := ch_buf (eh_chans h c) @ [m]\<rparr> in
      if er_received e + 1 = er_expected e then
        eh_chans h' = (eh_chans h)(c := ch\<lparr>ch_closed := True\<rparr>) \<and>
        responseChans h' = (responseChans h)(r := None) \<and> responsesCount h' = (responsesCount h)(r := None)
      else
        eh_chans h' = (eh_chans h)(c := ch) \<and> responseChans h' = responseChans h \<and>
        responsesCount h' = (responsesCount h)(r \<mapsto> \<lparr>er_expected = er_expected e, er_received = er_received e + 1\<rparr>))"
proof -
  obtain chainID where m: "im_Op m = AppResponseOp \<or> im_Op m = AppErrorOp" "im_ChainID m = Some chainID"
      "im_RequestID m = Some r"
    using assms(1) by (auto simp: answers_def)
  have room: "\<not> ch_closed (eh_chans h c)" "\<not> ch_cap (eh_chans h c) \<le> length (ch_buf (eh_chans h c))"
    using assms(3,4) by (auto simp: request_ok_def)
  show ?thesis
  proof (cases "er_received e + 1 = er_expected e")
    case True
    then show ?thesis
      using m room assms(2,4) by (simp add: HandleInbound_def registerAppResponse_def Let_def)
  next
    case False
    then show ?thesis
      using m room assms(2,4) by (simp add: HandleInbound_def registerAppResponse_def Let_def)
  qed
qed

lemma request_ok_transfer:
  assumes "request_ok h r c" and "eh_chans h' c = eh_chans h c" and "eh_next h \<le> eh_next h'"
    and "responsesCount h' r = responsesCount h r"
  shows "request_ok h' r c"
  using assms by (auto simp: request_ok_def)

lemma handler_inv_same:
  assumes "handler_inv h" and "responseChans h' = responseChans h" and "responsesCount h' = responsesCount h"
    and "eh_chans h' = eh_chans h" and "eh_next h' = eh_next h"
  shows "handler_inv h'"
proof (rule handler_invI)
  show "request_ok h' r c" if "responseChans h' r = Some c" for r c
    using handler_invD(1) [OF assms(1), of r c] that assms(2-5) by (simp add: request_ok_def)
  show "r = r'" if "responseChans h' r = Some c" "responseChans h' r' = Some c" for r r' c
    using handler_invD(2) [OF assms(1), of r' c r] that assms(2) by simp
qed

lemma HandleInbound_inv [go_invs]:
  assumes inv: "handler_inv h"
  shows "\<exists>h'. HandleInbound ops m h = Done h' \<and> handler_inv h'"
proof (cases "\<exists>r c. answers r m \<and> responseChans h r = Some c")
  case False
  then obtain h' where h': "HandleInbound ops m h = Done h'" "responseChans h' = responseChans h"
      "responsesCount h' = responsesCount h" "eh_chans h' = eh_chans h" "eh_next h' = eh_next h"
    using HandleInbound_other [of m h ops] by auto
  then show ?thesis using handler_inv_same [OF inv] by blast
next
  case True
  then obtain r c where r: "answers r m" "responseChans h r = Some c" by blast
  have ok: "request_ok h r c" using handler_invD(1) [OF inv r(2)] .
  then obtain e where e: "responsesCount h r = Some e" "er_received e < er_expected e"
      "ch_cap (eh_chans h c) = er_expected e" "length (ch_buf (eh_chans h c)) \<le> er_received e"
    by (auto simp: request_ok_def)
  obtain h' where h': "HandleInbound ops m h = Done h'" "eh_next h' = eh_next h" and upd:
    "let ch = (eh_chans h c)\<lparr>ch_buf := ch_buf (eh_chans h c) @ [m]\<rparr> in
      if er_received e + 1 = er_expected e then
        eh_chans h' = (eh_chans h)(c := ch\<lparr>ch_closed := True\<rparr>) \<and>
        responseChans h' = (responseChans h)(r := None) \<and> responsesCount h' = (responsesCount h)(r := None)
      else
        eh_chans h' = (eh_chans h)(c := ch) \<and> responseChans h' = responseChans h \<and>
        responsesCount h' = (responsesCount h)(r \<mapsto> \<lparr>er_expected = er_expected e, er_received = er_received e + 1\<rparr>)"
    using HandleInbound_answer [OF r ok e(1)] by blast
  have other: "c' \<noteq> c" if "responseChans h r' = Some c'" "r' \<noteq> r" for r' c'
    using handler_invD(2) [OF inv r(2)] that by blast
  have sub: "responseChans h r' = Some c'" if "responseChans h' r' = Some c'" for r' c'
    using that upd by (auto simp: Let_def split: if_splits)
  have "handler_inv h'"
  proof (rule handler_invI)
    fix r' c' assume a: "responseChans h' r' = Some c'"
    show "request_ok h' r' c'"
    proof (cases "r' = r")
      case True
      have c: "c' = c"
        using sub [OF a] True r(2) by simp
      have ne: "er_received e + 1 \<noteq> er_expected e"
      proof
        assume "er_received e + 1 = er_expected e"
        with upd a True show False by (simp add: Let_def)
      qed
      then have "eh_chans h' c = (eh_chans h c)\<lparr>ch_buf := ch_buf (eh_chans h c) @ [m]\<rparr>"
          "responsesCount h' r = Some \<lparr>er_expected = er_expected e, er_received = er_received e + 1\<rparr>"
        using upd by (simp_all add: Let_def)
      then show ?thesis
        unfolding c True using ok e(2-4) h'(2) ne by (simp add: request_ok_def)
    next
      case False
      then show ?thesis
        using other [OF sub [OF a] False] upd h'(2)
        by (intro request_ok_transfer [OF handler_invD(1) [OF inv sub [OF a]]]) (auto simp: Let_def split: if_splits)
    qed
  qed (use sub handler_invD(2) [OF inv] in blast)
  with h'(1) show ?thesis by blast
qed

lemma RegisterRequestID_inv [go_invs]:
  assumes inv: "handler_inv h" and "n > 0" and "RegisterRequestID r n h = (c, h')"
  shows "handler_inv h'"
proof (rule handler_invI)
  have fresh: "responseChans h r' \<noteq> Some (eh_next h)" for r'
    using handler_invD(1) [OF inv, of r' "eh_next h"] by (auto simp: request_ok_def)
  show "request_ok h' r' c'" if a: "responseChans h' r' = Some c'" for r' c'
  proof (cases "r' = r")
    case True
    with a assms(2,3) show ?thesis by (auto simp: RegisterRequestID_def Let_def request_ok_def)
  next
    case False
    then have a': "responseChans h r' = Some c'"
      using a assms(3) by (auto simp: RegisterRequestID_def Let_def)
    show ?thesis
      using False assms(3) fresh [of r'] a'
      by (intro request_ok_transfer [OF handler_invD(1) [OF inv a']]) (auto simp: RegisterRequestID_def Let_def)
  qed
  show "r' = r''" if "responseChans h' r' = Some c'" "responseChans h' r'' = Some c'" for r' r'' c'
    using that assms(3) fresh [of r'] fresh [of r''] handler_invD(2) [OF inv, of r'' c' r']
    by (auto simp: RegisterRequestID_def Let_def split: if_splits)
qed

lemma chan_receive_shape:
  assumes "chan_receive c h = Some (x, h')"
  shows "responseChans h' = responseChans h \<and> responsesCount h' = responsesCount h \<and> eh_next h' = eh_next h \<and>
    (\<forall>d. ch_cap (eh_chans h' d) = ch_cap (eh_chans h d) \<and> ch_closed (eh_chans h' d) = ch_closed (eh_chans h d) \<and>
       length (ch_buf (eh_chans h' d)) \<le> length (ch_buf (eh_chans h d)))"
proof (cases "ch_buf (eh_chans h c)")
  case Nil
  then show ?thesis using assms by (simp add: chan_receive_def split: if_splits)
next
  case (Cons m ms)
  then have "h' = h\<lparr>eh_chans := (eh_chans h)(c := (eh_chans h c)\<lparr>ch_buf := ms\<rparr>)\<rparr>"
    using assms by (simp add: chan_receive_def)
  with Cons show ?thesis by simp
qed

lemma request_ok_shorter:
  assumes "request_ok h r c" and "responsesCount h' r = responsesCount h r" and "eh_next h' = eh_next h"
    and "ch_cap (eh_chans h' c) = ch_cap (eh_chans h c)" and "ch_closed (eh_chans h' c) = ch_closed (eh_chans h c)"
    and "length (ch_buf (eh_chans h' c)) \<le> length (ch_buf (eh_chans h c))"
  shows "request_ok h' r c"
  using assms by (auto simp: request_ok_def)

lemma chan_receive_inv [go_invs]:
  assumes inv: "handler_inv h" and rcv: "chan_receive c h = Some (x, h')"
  shows "handler_inv h'"
proof (rule handler_invI)
  note sh = chan_receive_shape [OF rcv]
  then have same: "responseChans h' = responseChans h" by simp
  show "request_ok h' r c'" if "responseChans h' r = Some c'" for r c'
    using sh by (intro request_ok_shorter [OF handler_invD(1) [OF inv that [unfolded same]]]) simp_all
  show "r = r'" if "responseChans h' r = Some c'" "responseChans h' r' = Some c'" for r r' c'
    using handler_invD(2) [OF inv that(2) [unfolded same]] that(1) same by simp
qed

lemma handler_reach_inv: "handler_reach ops h \<Longrightarrow> handler_inv h"
proof (induction rule: handler_reach.induct)
  case (new t h)
  then show ?case by (auto simp: NewRelayerExternalHandler_def handler_inv_def split: sum.splits)
next
  case (timeout h q)
  then show ?case by (auto simp: RegisterAppRequest_def Let_def intro: handler_inv_same)
next
  case (inbound h m h')
  then show ?case using HandleInbound_inv [of h ops m] by auto
qed (auto intro: RegisterRequestID_inv chan_receive_inv)

section \<open>Delivery\<close>

fun handle_all ::
  "'tm timeout_ops \<Rightarrow> inbound_message list \<Rightarrow> 'tm external_handler \<Rightarrow> 'tm external_handler go_outcome" where
  "handle_all ops [] h = Done h"
| "handle_all ops (m # ms) h =
     (case HandleInbound ops m h of Done h' \<Rightarrow> handle_all ops ms h' | Blocked \<Rightarrow> Blocked | Panicked \<Rightarrow> Panicked)"

lemma HandleInbound_unreferenced:
  assumes "handler_inv h" and "\<forall>r. responseChans h r \<noteq> Some c" and "HandleInbound ops m h = Done h'"
  shows "eh_chans h' c = eh_chans h c \<and> (\<forall>r. responseChans h' r \<noteq> Some c)"
proof (cases "\<exists>r d. answers r m \<and> responseChans h r = Some d")
  case False
  then show ?thesis using HandleInbound_other [of m h ops] assms(2,3) by auto
next
  case True
  then obtain r d where r: "answers r m" "responseChans h r = Some d" by blast
  have ok: "request_ok h r d" using handler_invD(1) [OF assms(1) r(2)] .
  then obtain e where e: "responsesCount h r = Some e" by (auto simp: request_ok_def)
  have "d \<noteq> c" using assms(2) r(2) by auto
  then show ?thesis
    using HandleInbound_answer [OF r ok e, of ops] assms(2,3) by (auto simp: Let_def split: if_splits)
qed

lemma handle_all_unreferenced:
  "handler_inv h \<Longrightarrow> \<forall>r. responseChans h r \<noteq> Some c \<Longrightarrow>
     \<exists>h'. handle_all ops ms h = Done h' \<and> eh_chans h' c = eh_chans h c"
proof (induction ms arbitrary: h)
  case (Cons m ms)
  obtain h1 where h1: "HandleInbound ops m h = Done h1" "handler_inv h1"
    using HandleInbound_inv [OF Cons.prems(1), of ops m] by blast
  from HandleInbound_unreferenced [OF Cons.prems this(1)] Cons.IH [OF this(2)] show ?case
    using h1(1) by auto
qed simp

lemma handle_all_open:
  assumes "handler_inv h" and "responseChans h r = Some c" and "responsesCount h r = Some e"
  shows "\<exists>h'. handle_all ops ms h = Done h' \<and>
    ch_buf (eh_chans h' c) = ch_buf (eh_chans h c) @ take (er_expected e - er_received e) (filter (answers r) ms) \<and>
    (ch_closed (eh_chans h' c) \<longleftrightarrow> er_expected e - er_received e \<le> length (filter (answers r) ms))"
  using assms
proof (induction ms arbitrary: h e)
  case Nil
  then show ?case using handler_invD(1) [OF Nil(1,2)] by (auto simp: request_ok_def)
next
  case (Cons m ms)
  have ok: "request_ok h r c" using handler_invD(1) [OF Cons.prems(1,2)] .
  then have lt: "er_received e < er_expected e" using Cons.prems(3) by (auto simp: request_ok_def)
  obtain h1 where h1: "HandleInbound ops m h = Done h1" "handler_inv h1"
    using HandleInbound_inv [OF Cons.prems(1), of ops m] by blast
  show ?case
  proof (cases "answers r m")
    case True
    let ?ch = "(eh_chans h c)\<lparr>ch_buf := ch_buf (eh_chans h c) @ [m]\<rparr>"
    note upd = HandleInbound_answer [OF True Cons.prems(2) ok Cons.prems(3), of ops]
    show ?thesis
    proof (cases "er_received e + 1 = er_expected e")
      case last: True
      then have "eh_chans h1 c = ?ch\<lparr>ch_closed := True\<rparr>" "responseChans h1 = (responseChans h)(r := None)"
        using upd h1(1) by (auto simp: Let_def)
      moreover have "\<forall>r'. responseChans h1 r' \<noteq> Some c"
        using handler_invD(2) [OF Cons.prems(1,2)] calculation(2) by auto
      ultimately show ?thesis
        using handle_all_unreferenced [OF h1(2), of c ops ms] h1(1) True last [symmetric] by auto
    next
      case False
      then have "eh_chans h1 c = ?ch" "responseChans h1 r = Some c"
        "responsesCount h1 r = Some \<lparr>er_expected = er_expected e, er_received = er_received e + 1\<rparr>"
        using upd h1(1) Cons.prems(2) by (auto simp: Let_def)
      from Cons.IH [OF h1(2) this(2,3)] this(1) show ?thesis
        using h1(1) True lt by (auto simp: Suc_diff_Suc [symmetric])
    qed
  next
    case False
    have same: "eh_chans h1 c = eh_chans h c" "responseChans h1 r = Some c" "responsesCount h1 r = Some e"
    proof -
      have "eh_chans h1 c = eh_chans h c \<and> responseChans h1 r = responseChans h r \<and> responsesCount h1 r = responsesCount h r"
      proof (cases "\<exists>r' d. answers r' m \<and> responseChans h r' = Some d")
        case True
        then obtain r' d where r': "answers r' m" "responseChans h r' = Some d" by blast
        have ok': "request_ok h r' d" using handler_invD(1) [OF Cons.prems(1) r'(2)] .
        then obtain e' where e': "responsesCount h r' = Some e'" by (auto simp: request_ok_def)
        have "r' \<noteq> r" "d \<noteq> c" using r' False handler_invD(2) [OF Cons.prems(1,2)] by auto
        then show ?thesis
          using HandleInbound_answer [OF r' ok' e', of ops] h1(1) by (auto simp: Let_def split: if_splits)
      qed (use HandleInbound_other [of m h ops] h1(1) in auto)
      then show "eh_chans h1 c = eh_chans h c" "responseChans h1 r = Some c" "responsesCount h1 r = Some e"
        using Cons.prems(2,3) by simp_all
    qed
    from Cons.IH [OF h1(2) same(2,3)] same(1) h1(1) False show ?thesis by auto
  qed
qed

section \<open>Properties\<close>

definition sample_ops :: "unit timeout_ops" where
  "sample_ops = \<lparr>tm_Put = \<lambda>_ _ t. t, tm_Remove = \<lambda>_ t. t\<rparr>"

definition sample_handler :: "unit external_handler" where
  "sample_handler =
     \<lparr>responseChans = Map.empty, responsesCount = Map.empty,
      eh_chans = \<lambda>_. \<lparr>ch_cap = 0, ch_buf = [], ch_closed = False\<rparr>, eh_next = 0, eh_timeouts = (),
      eh_finished = 0, eh_connects = 0, eh_disconnects = 0\<rparr>"

lemma sample_handler_reach: "handler_reach sample_ops sample_handler"
  by (rule handler_reach.new [of "Inr ()"]) (simp add: NewRelayerExternalHandler_def sample_handler_def)



text \<open>
  C19: The channel of a request gets the first responses to it, as many as are expected, in the
  order in which they arrive, and is closed with the last of them; messages for other requests
  and late ones do not reach it.
\<close>

theorem first_responses_delivered:
  assumes "handler_reach ops h" and "n > 0" and "RegisterRequestID r n h = (c, h1)"
  shows "\<exists>h2. handle_all ops ms h1 = Done h2 \<and>
    ch_buf (eh_chans h2 c) = take n (filter (answers r) ms) \<and>
    (ch_closed (eh_chans h2 c) \<longleftrightarrow> n \<le> length (filter (answers r) ms))"
proof -
  have inv: "handler_inv h1"
    using RegisterRequestID_inv [OF handler_reach_inv [OF assms(1)] assms(2,3)] .
  have new: "responseChans h1 r = Some c" "responsesCount h1 r = Some \<lparr>er_expected = n, er_received = 0\<rparr>"
      "ch_buf (eh_chans h1 c) = []"
    using assms(3) by (auto simp: RegisterRequestID_def Let_def)
  show ?thesis
    using handle_all_open [OF inv new(1,2), of ops ms] new(3) by simp
qed

theorem first_responses_delivered_witness:
  "\<exists>h2. handle_all sample_ops [InboundAppError 1 2 9, InboundAppError 1 2 3, InboundAppError 4 2 3]
      (snd (RegisterRequestID 3 1 sample_handler)) = Done h2 \<and>
    ch_buf (eh_chans h2 0) = [InboundAppError 1 2 3] \<and> ch_closed (eh_chans h2 0)"
proof -
  have r: "RegisterRequestID 3 1 sample_handler = (0, snd (RegisterRequestID 3 1 sample_handler))"
    by (simp add: RegisterRequestID_def sample_handler_def)
  from first_responses_delivered [OF sample_handler_reach zero_less_one r,
      of "[InboundAppError 1 2 9, InboundAppError 1 2 3, InboundAppError 4 2 3]"]
  show ?thesis by (simp add: answers_def InboundAppError_def)
qed

text \<open>
  A request registered with no expected response gets a channel without room: the next
  message for it blocks the handler, which holds its lock.
\<close>

theorem zero_expected_blocks:
  assumes "answers r m"
  shows "HandleInbound ops m (snd (RegisterRequestID r 0 h)) = Blocked"
  using assms by (auto simp: RegisterRequestID_def HandleInbound_def registerAppResponse_def answers_def Let_def)

theorem zero_expected_blocks_witness:
  "HandleInbound sample_ops (InboundAppError 1 2 3) (snd (RegisterRequestID 3 0 sample_handler)) = Blocked"
  by (rule zero_expected_blocks) (simp add: answers_def InboundAppError_def)

text \<open>
  A message for a request that is not open is dropped without its finished handler being
  called.
\<close>

theorem late_response_unfinished:
  assumes "answers r m" and "responseChans h r = None"
  shows "\<exists>h'. HandleInbound ops m h = Done h' \<and> eh_finished h' = eh_finished h \<and> eh_chans h' = eh_chans h"
  using assms by (auto simp: HandleInbound_def registerAppResponse_def answers_def Let_def)

theorem late_response_unfinished_witness:
  "\<exists>h'. HandleInbound sample_ops (InboundAppError 1 2 3) sample_handler = Done h' \<and> eh_finished h' = 0"
  using late_response_unfinished [of 3 "InboundAppError 1 2 3" sample_handler sample_ops]
  by (auto simp: answers_def InboundAppError_def sample_handler_def)

end
