(* ===== verification/App_Network.thy ===== *)
theory App_Network
  imports External_Handler "HOL-Library.Sublist"
begin

text \<open>
  The interface \<^verbatim>\<open>AppRequestNetwork\<close> of \<^verbatim>\<open>peers/app_request_network.go\<close>, as a record of the methods the
  aggregator calls on a network of state \<open>'n\<close>, the locale \<open>app_request_network\<close> of what it relies
  on, and the implementation \<^verbatim>\<open>appRequestNetwork\<close> over the external handler.
\<close>

section \<open>The interface\<close>

text \<open>
  \<open>an_Responses\<close> reads a response channel: the messages it yields with the time each is read, and
  whether it is closed after them.
\<close>

record ('pk, 'n) app_network =
  an_ConnectToCanonicalValidators :: "ids_ID \<Rightarrow> 'n \<Rightarrow> 'pk connected_validators result \<times> 'n"
  an_GetSubnetID :: "ids_ID \<Rightarrow> 'n \<Rightarrow> ids_ID result \<times> 'n"
  an_RegisterAppRequest :: "request_id \<Rightarrow> 'n \<Rightarrow> 'n"
  an_RegisterRequestID :: "u32 \<Rightarrow> nat \<Rightarrow> 'n \<Rightarrow> nat \<times> 'n"
  an_Send :: "bytes \<Rightarrow> nodeID set \<Rightarrow> ids_ID \<Rightarrow> 'n \<Rightarrow> nodeID set \<times> 'n"
  an_Responses :: "nat \<Rightarrow> 'n \<Rightarrow> ((int \<times> inbound_message) list \<times> bool) \<times> 'n"

text \<open>
  The aggregator relies on canonical sets of validators as documented, taken from the validators
  \<open>Vs\<close>, and on messages being sent to the nodes that were named.
\<close>

locale app_request_network =
  fixes nw :: "('pk, 'n) app_network"
    and invar :: "'n \<Rightarrow> bool"
    and Vs :: "'pk warp_validator set"
  assumes invar_connect: "invar n \<Longrightarrow> invar (snd (an_ConnectToCanonicalValidators nw s n))"
    and invar_subnet: "invar n \<Longrightarrow> invar (snd (an_GetSubnetID nw b n))"
    and invar_request: "invar n \<Longrightarrow> invar (an_RegisterAppRequest nw q n)"
    and invar_requestID: "invar n \<Longrightarrow> invar (snd (an_RegisterRequestID nw r k n))"
    and invar_send: "invar n \<Longrightarrow> invar (snd (an_Send nw msg ns s n))"
    and invar_responses: "invar n \<Longrightarrow> invar (snd (an_Responses nw c n))"
    and connect_ok: "invar n \<Longrightarrow> an_ConnectToCanonicalValidators nw s n = (Inr cv, n') \<Longrightarrow> cv_ok cv"
    and connect_known: "invar n \<Longrightarrow> an_ConnectToCanonicalValidators nw s n = (Inr cv, n') \<Longrightarrow> set (ValidatorSet cv) \<subseteq> Vs"
    and send_subset: "invar n \<Longrightarrow> fst (an_Send nw msg ns s n) \<subseteq> ns"

text \<open>
  A network on which no node answers the same request twice: the channel of a request yields at
  most one message per node.
\<close>

locale single_responses = app_request_network +
  assumes responses_once: "invar n \<Longrightarrow> an_RegisterRequestID nw r k n = (c, n1) \<Longrightarrow> an_Send nw msg ns s n1 = (sent, n2) \<Longrightarrow>
    an_Responses nw c n2 = ((rs, closed), n3) \<Longrightarrow> distinct (map (im_NodeID \<circ> snd) rs)"

section \<open>The implementation\<close>

text \<open>
  The state: the environment and the peers tracked so far, the handler, and what the rest of the
  network will do, the answer to each send (the nodes it reached among those asked) and, for
  each channel that is read, the messages that arrive meanwhile with their time.
\<close>

record ('pk, 'tm) network =
  nt_env :: "'pk net_env"
  nt_tracked :: "(nodeID \<times> string) list"
  nt_ops :: "'tm timeout_ops"
  nt_handler :: "'tm external_handler"
  nt_reached :: "nodeID set list"
  nt_arrivals :: "(int \<times> inbound_message) list list"

definition network_Connect :: "ids_ID \<Rightarrow> ('pk, 'tm) network \<Rightarrow> 'pk connected_validators result \<times> ('pk, 'tm) network" where
  "network_Connect subnetID n =
     (case ConnectToCanonicalValidators (nt_env n) subnetID (nt_tracked n) of
        (r, tracked) \<Rightarrow> (r, n\<lparr>nt_tracked := tracked\<rparr>))"

definition network_GetSubnetID :: "ids_ID \<Rightarrow> ('pk, 'tm) network \<Rightarrow> ids_ID result \<times> ('pk, 'tm) network" where
  "network_GetSubnetID blockchainID n = (GetSubnetID (ne_client (nt_env n)) blockchainID, n)"

definition network_RegisterAppRequest :: "request_id \<Rightarrow> ('pk, 'tm) network \<Rightarrow> ('pk, 'tm) network" where
  "network_RegisterAppRequest requestID n =
     n\<lparr>nt_handler := RegisterAppRequest (nt_ops n) requestID (nt_handler n)\<rparr>"

definition network_RegisterRequestID :: "u32 \<Rightarrow> nat \<Rightarrow> ('pk, 'tm) network \<Rightarrow> nat \<times> ('pk, 'tm) network" where
  "network_RegisterRequestID requestID numExpectedResponse n =
     (case RegisterRequestID requestID numExpectedResponse (nt_handler n) of (c, h) \<Rightarrow> (c, n\<lparr>nt_handler := h\<rparr>))"

definition network_Send :: "bytes \<Rightarrow> nodeID set \<Rightarrow> ids_ID \<Rightarrow> ('pk, 'tm) network \<Rightarrow> nodeID set \<times> ('pk, 'tm) network" where
  "network_Send msg nodeIDs subnetID n =
     (case nt_reached n of
        [] \<Rightarrow> ({}, n)
      | reached # rest \<Rightarrow> (nodeIDs \<inter> reached, n\<lparr>nt_reached := rest\<rparr>))"

text \<open>
  Reading a channel: the messages that arrive are handled, those of the channel are read in
  order. Each message is read at the time it arrived. A handler that blocks leaves the channel
  open.
\<close>

definition arrival_time :: "(int \<times> inbound_message) list \<Rightarrow> inbound_message \<Rightarrow> int" where
  "arrival_time ms m = (case find (\<lambda>p. snd p = m) ms of None \<Rightarrow> 0 | Some p \<Rightarrow> fst p)"

definition network_Responses ::
  "nat \<Rightarrow> ('pk, 'tm) network \<Rightarrow> ((int \<times> inbound_message) list \<times> bool) \<times> ('pk, 'tm) network" where
  "network_Responses c n =
     (case nt_arrivals n of
        [] \<Rightarrow> (([], ch_closed (eh_chans (nt_handler n) c)), n)
      | ms # rest \<Rightarrow>
          (case handle_all (nt_ops n) (map snd ms) (nt_handler n) of
             Done h \<Rightarrow>
               ((map (\<lambda>m. (arrival_time ms m, m)) (ch_buf (eh_chans h c)), ch_closed (eh_chans h c)),
                n\<lparr>nt_handler := h\<lparr>eh_chans := (eh_chans h)(c := (eh_chans h c)\<lparr>ch_buf := []\<rparr>)\<rparr>, nt_arrivals := rest\<rparr>)
           | _ \<Rightarrow> (([], False), n)))"

definition network_ops :: "('pk, ('pk, 'tm) network) app_network" where
  "network_ops =
     \<lparr>an_ConnectToCanonicalValidators = network_Connect, an_GetSubnetID = network_GetSubnetID,
      an_RegisterAppRequest = network_RegisterAppRequest, an_RegisterRequestID = network_RegisterRequestID,
      an_Send = network_Send, an_Responses = network_Responses\<rparr>"

text \<open>The validators that the environment may report.\<close>

definition known_validators :: "'pk net_env \<Rightarrow> 'pk warp_validator set" where
  "known_validators env = {v. \<exists>get height subnet vs t. ne_canonical env get height subnet = Inr (vs, t) \<and> v \<in> set vs}"

definition network_ok :: "'pk warp_validator set \<Rightarrow> ('pk, 'tm) network \<Rightarrow> bool" where
  "network_ok Vs n \<longleftrightarrow> net_env_ok (nt_env n) \<and> known_validators (nt_env n) \<subseteq> Vs"

lemma canonical_set_known:
  "GetCurrentCanonicalValidatorSet env s = Inr (vs, t) \<Longrightarrow> set vs \<subseteq> known_validators env"
  unfolding GetCurrentCanonicalValidatorSet_def known_validators_def by (auto split: sum.splits) blast

interpretation arn: app_request_network network_ops "network_ok Vs" Vs for Vs :: "'pk warp_validator set"
proof
  fix n n' :: "('pk, 'tm) network" and cv s
  assume ok: "network_ok Vs n" and c: "an_ConnectToCanonicalValidators network_ops s n = (Inr cv, n')"
  obtain t where "ConnectToCanonicalValidators (nt_env n) s (nt_tracked n) = (Inr cv, t)"
    using c by (auto simp: network_ops_def network_Connect_def split: prod.splits)
  from connect_shape [OF this] canonical_set_of_env canonical_set_known ok
  show "cv_ok cv" "set (ValidatorSet cv) \<subseteq> Vs"
    by (fastforce simp: cv_ok_def network_ok_def)+
qed (auto simp: network_ops_def network_ok_def network_Connect_def network_GetSubnetID_def network_RegisterAppRequest_def
    network_RegisterRequestID_def network_Send_def network_Responses_def split: prod.split list.split go_outcome.split)

section \<open>Networks without repeated answers\<close>

definition network_single :: "'pk warp_validator set \<Rightarrow> ('pk, 'tm) network \<Rightarrow> bool" where
  "network_single Vs n \<longleftrightarrow> network_ok Vs n \<and> (\<forall>ms \<in> set (nt_arrivals n). distinct (map (im_NodeID \<circ> snd) ms))"

lemma HandleInbound_buf:
  assumes "HandleInbound ops m h = Done h'"
  shows "ch_buf (eh_chans h' c) = ch_buf (eh_chans h c) \<or> ch_buf (eh_chans h' c) = ch_buf (eh_chans h c) @ [m]"
  using assms
  by (auto simp: HandleInbound_def registerAppResponse_def OnFinishedHandling_def Let_def split: if_splits option.splits)

lemma handle_all_buf:
  "handle_all ops ms h = Done h' \<Longrightarrow> \<exists>xs. subseq xs ms \<and> ch_buf (eh_chans h' c) = ch_buf (eh_chans h c) @ xs"
proof (induction ms arbitrary: h)
  case (Cons m ms)
  obtain h1 where h1: "HandleInbound ops m h = Done h1" "handle_all ops ms h1 = Done h'"
    using Cons.prems by (auto split: go_outcome.splits)
  obtain xs where xs: "subseq xs ms" "ch_buf (eh_chans h' c) = ch_buf (eh_chans h1 c) @ xs"
    using Cons.IH [OF h1(2)] by blast
  from HandleInbound_buf [OF h1(1), of c] show ?case
  proof
    assume "ch_buf (eh_chans h1 c) = ch_buf (eh_chans h c)"
    with xs show ?thesis by (intro exI [of _ xs]) auto
  next
    assume "ch_buf (eh_chans h1 c) = ch_buf (eh_chans h c) @ [m]"
    with xs show ?thesis by (intro exI [of _ "m # xs"]) auto
  qed
qed simp

lemma subseq_distinct: "subseq xs ys \<Longrightarrow> distinct ys \<Longrightarrow> distinct xs"
  by (induction rule: list_emb.induct) (auto dest: list_emb_set)

lemma network_Responses_once:
  assumes "network_single Vs n" and "ch_buf (eh_chans (nt_handler n) c) = []"
    and "network_Responses c n = ((rs, closed), n')"
  shows "distinct (map (im_NodeID \<circ> snd) rs)"
proof (cases "nt_arrivals n")
  case Nil
  then show ?thesis using assms(3) by (simp add: network_Responses_def)
next
  case (Cons ms rest)
  show ?thesis
  proof (cases "handle_all (nt_ops n) (map snd ms) (nt_handler n)")
    case (Done h)
    then have "map snd rs = ch_buf (eh_chans h c)"
      using assms(3) Cons by (auto simp: network_Responses_def comp_def)
    then have "subseq (map snd rs) (map snd ms)"
      using handle_all_buf [OF Done, of c] assms(2) by auto
    then have "subseq (map im_NodeID (map snd rs)) (map im_NodeID (map snd ms))"
      by (rule subseq_map)
    then show ?thesis
      using assms(1) Cons subseq_distinct by (auto simp: network_single_def)
  qed (use assms(3) Cons in \<open>auto simp: network_Responses_def\<close>)
qed

lemma network_single_step:
  "network_single Vs n \<Longrightarrow> network_ok Vs n' \<Longrightarrow> set (nt_arrivals n') \<subseteq> set (nt_arrivals n) \<Longrightarrow> network_single Vs n'"
  by (auto simp: network_single_def)

lemma network_single_ok: "network_single Vs n \<Longrightarrow> network_ok Vs n"
  by (simp add: network_single_def)

lemma network_arrivals:
  "nt_arrivals (snd (an_ConnectToCanonicalValidators network_ops s n)) = nt_arrivals n"
  "nt_arrivals (snd (an_GetSubnetID network_ops b n)) = nt_arrivals n"
  "nt_arrivals (an_RegisterAppRequest network_ops q n) = nt_arrivals n"
  "nt_arrivals (snd (an_RegisterRequestID network_ops r k n)) = nt_arrivals n"
  "nt_arrivals (snd (an_Send network_ops msg ns s n)) = nt_arrivals n"
  "set (nt_arrivals (snd (an_Responses network_ops c n))) \<subseteq> set (nt_arrivals n)"
  by (auto simp: network_ops_def network_Connect_def network_GetSubnetID_def network_RegisterAppRequest_def
      network_RegisterRequestID_def network_Send_def network_Responses_def split: prod.splits list.splits go_outcome.splits)

interpretation srn: single_responses network_ops "network_single Vs" Vs for Vs :: "'pk warp_validator set"
proof
  fix n n1 n2 n3 :: "('pk, 'tm) network" and r k c msg ns s sent rs closed
  assume ok: "network_single Vs n" and reg: "an_RegisterRequestID network_ops r k n = (c, n1)"
    and send: "an_Send network_ops msg ns s n1 = (sent, n2)"
    and rsp: "an_Responses network_ops c n2 = ((rs, closed), n3)"
  have "network_single Vs n2 \<and> ch_buf (eh_chans (nt_handler n2) c) = []"
    using ok reg send
    by (auto simp: network_ops_def network_RegisterRequestID_def network_Send_def RegisterRequestID_def Let_def
        network_single_def network_ok_def split: list.splits)
  with rsp show "distinct (map (im_NodeID \<circ> snd) rs)"
    using network_Responses_once by (auto simp: network_ops_def)
next
  fix n n' :: "('pk, 'tm) network" and s b q r k msg ns c cv
  assume n: "network_single Vs n"
  note step = network_single_step [OF n] and ok = network_single_ok [OF n]
  show "network_single Vs (snd (an_ConnectToCanonicalValidators network_ops s n))"
    by (rule step [OF arn.invar_connect [OF ok]]) (simp add: network_arrivals)
  show "network_single Vs (snd (an_GetSubnetID network_ops b n))"
    by (rule step [OF arn.invar_subnet [OF ok]]) (simp add: network_arrivals)
  show "network_single Vs (an_RegisterAppRequest network_ops q n)"
    by (rule step [OF arn.invar_request [OF ok]]) (simp add: network_arrivals)
  show "network_single Vs (snd (an_RegisterRequestID network_ops r k n))"
    by (rule step [OF arn.invar_requestID [OF ok]]) (simp add: network_arrivals)
  show "network_single Vs (snd (an_Send network_ops msg ns s n))"
    by (rule step [OF arn.invar_send [OF ok]]) (simp add: network_arrivals)
  show "network_single Vs (snd (an_Responses network_ops c n))"
    by (rule step [OF arn.invar_responses [OF ok] network_arrivals(6)])
  show "cv_ok cv" if "an_ConnectToCanonicalValidators network_ops s n = (Inr cv, n')"
    by (rule arn.connect_ok [OF ok that])
  show "set (ValidatorSet cv) \<subseteq> Vs" if "an_ConnectToCanonicalValidators network_ops s n = (Inr cv, n')"
    by (rule arn.connect_known [OF ok that])
  show "fst (an_Send network_ops msg ns s n) \<subseteq> ns"
    by (rule arn.send_subset [OF ok])
qed

end
