(* ===== verification/Signature_Cache.thy ===== *)
theory Signature_Cache
  imports Relayer_Prelude
begin

text \<open>
  \<^verbatim>\<open>signature-aggregator/aggregator/cache/cache.go\<close>: signatures by message ID and public key, over
  an LRU cache of a third-party package. The operations of that package are the record
  \<open>lru_ops\<close>, \<open>lru_ok\<close> is what the cache relies on, and the locale \<open>signature_cache\<close> is what the
  aggregator relies on.
\<close>

text \<open>
  The keys of the inner map are the first 48 bytes of a public key, its values the 96 bytes of a
  signature.
\<close>

type_synonym signature_map = "bytes \<Rightarrow> bytes option"

record 'c lru_ops =
  lru_New :: "int \<Rightarrow> 'c result"
  lru_Get :: "ids_ID \<Rightarrow> 'c \<Rightarrow> signature_map option \<times> 'c"
  lru_Add :: "ids_ID \<Rightarrow> signature_map \<Rightarrow> 'c \<Rightarrow> 'c"

record 'c cache =
  cache_ops :: "'c lru_ops"
  cache_signatures :: 'c

definition PublicKeyLen :: nat where
  "PublicKeyLen = 48"

definition SignatureLen :: nat where
  "SignatureLen = 96"

text \<open>\<^verbatim>\<open>math.MaxInt\<close> on a 64-bit platform.\<close>

definition NewCache :: "'c lru_ops \<Rightarrow> u64 \<Rightarrow> 'c cache result" where
  "NewCache ops n =
     (if uint n > 2 ^ 63 - 1 then Inl (Errorf ''cache size too big'')
      else case lru_New ops (uint n) of
          Inl e \<Rightarrow> Inl e
        | Inr c \<Rightarrow> Inr \<lparr>cache_ops = ops, cache_signatures = c\<rparr>)"

definition Cache_Get :: "'c cache \<Rightarrow> ids_ID \<Rightarrow> signature_map option \<times> 'c cache" where
  "Cache_Get c msgID =
     (case lru_Get (cache_ops c) msgID (cache_signatures c) of
        (Some cachedValue, l) \<Rightarrow> (Some cachedValue, c\<lparr>cache_signatures := l\<rparr>)
      | (None, l) \<Rightarrow> (None, c\<lparr>cache_signatures := l\<rparr>))"

definition Cache_Add :: "'c cache \<Rightarrow> ids_ID \<Rightarrow> bytes \<Rightarrow> bytes \<Rightarrow> 'c cache" where
  "Cache_Add c msgID pubKey signature =
     (let (got, c1) = Cache_Get c msgID;
          sigs = (case got of None \<Rightarrow> Map.empty | Some m \<Rightarrow> m);
          sigs' = sigs(pubKey \<mapsto> signature)
      in c1\<lparr>cache_signatures := lru_Add (cache_ops c1) msgID sigs' (cache_signatures c1)\<rparr>)"

section \<open>What the aggregator relies on\<close>

text \<open>What is cached under a message ID and a key.\<close>

definition cached :: "('c \<Rightarrow> ids_ID \<Rightarrow> signature_map option \<times> 'c) \<Rightarrow> 'c \<Rightarrow> ids_ID \<Rightarrow> bytes \<Rightarrow> bytes option" where
  "cached get c m k = (case fst (get c m) of None \<Rightarrow> None | Some sigs \<Rightarrow> sigs k)"

text \<open>Whatever is evicted, a signature in the cache was put there for its message and key.\<close>

locale signature_cache =
  fixes get :: "'c \<Rightarrow> ids_ID \<Rightarrow> signature_map option \<times> 'c"
    and add :: "'c \<Rightarrow> ids_ID \<Rightarrow> bytes \<Rightarrow> bytes \<Rightarrow> 'c"
    and invar :: "'c \<Rightarrow> bool"
  assumes invar_get: "invar c \<Longrightarrow> invar (snd (get c m))"
    and invar_add: "invar c \<Longrightarrow> invar (add c m k s)"
    and cached_get: "invar c \<Longrightarrow> cached get (snd (get c m)) m' k' = Some s' \<Longrightarrow> cached get c m' k' = Some s'"
    and cached_add: "invar c \<Longrightarrow> cached get (add c m k s) m' k' = Some s' \<Longrightarrow>
      m' = m \<and> k' = k \<and> s' = s \<or> cached get c m' k' = Some s'"
begin

text \<open>
  A property of (message, key, signature) triples that holds of everything added holds of
  everything cached.
\<close>

definition all_cached :: "(ids_ID \<Rightarrow> bytes \<Rightarrow> bytes \<Rightarrow> bool) \<Rightarrow> 'c \<Rightarrow> bool" where
  "all_cached P c \<longleftrightarrow> (\<forall>m k s. cached get c m k = Some s \<longrightarrow> P m k s)"

lemma all_cached_add: "invar c \<Longrightarrow> all_cached P c \<Longrightarrow> P m k s \<Longrightarrow> all_cached P (add c m k s)"
  unfolding all_cached_def using cached_add by blast

lemma all_cached_get: "invar c \<Longrightarrow> all_cached P c \<Longrightarrow> all_cached P (snd (get c m))"
  unfolding all_cached_def using cached_get by blast

lemma all_cachedD: "all_cached P c \<Longrightarrow> fst (get c m) = Some sigs \<Longrightarrow> sigs k = Some s \<Longrightarrow> P m k s"
  unfolding all_cached_def cached_def by (metis option.simps(5))

end

text \<open>
  What the LRU package documents: a lookup gives the value last added under its key or nothing,
  and a lookup changes no value.
\<close>

definition lru_ok :: "'c lru_ops \<Rightarrow> bool" where
  "lru_ok ops \<longleftrightarrow>
     (\<forall>c k v. fst (lru_Get ops k (lru_Add ops k v c)) \<in> {None, Some v}) \<and>
     (\<forall>c k k' v. k' \<noteq> k \<longrightarrow> fst (lru_Get ops k' (lru_Add ops k v c)) \<in> {None, fst (lru_Get ops k' c)}) \<and>
     (\<forall>c k k'. fst (lru_Get ops k' (snd (lru_Get ops k c))) = fst (lru_Get ops k' c))"

lemma lru_okD:
  assumes "lru_ok ops"
  shows "fst (lru_Get ops k (lru_Add ops k v c)) = None \<or> fst (lru_Get ops k (lru_Add ops k v c)) = Some v"
    and "k' \<noteq> k \<Longrightarrow> fst (lru_Get ops k' (lru_Add ops k v c)) = None \<or>
      fst (lru_Get ops k' (lru_Add ops k v c)) = fst (lru_Get ops k' c)"
    and "fst (lru_Get ops k' (snd (lru_Get ops k c))) = fst (lru_Get ops k' c)"
  using assms unfolding lru_ok_def by blast+

definition cache_ok :: "'c cache \<Rightarrow> bool" where
  "cache_ok c \<longleftrightarrow> lru_ok (cache_ops c)"

lemma Cache_Get_simps [simp]:
  "fst (Cache_Get c m) = fst (lru_Get (cache_ops c) m (cache_signatures c))"
  "cache_ops (snd (Cache_Get c m)) = cache_ops c"
  "cache_signatures (snd (Cache_Get c m)) = snd (lru_Get (cache_ops c) m (cache_signatures c))"
  by (simp_all add: Cache_Get_def split: prod.split option.split)

lemma Cache_Add_simps [simp]:
  "cache_ops (Cache_Add c m k s) = cache_ops c"
  "cache_signatures (Cache_Add c m k s) = lru_Add (cache_ops c) m
     ((case fst (Cache_Get c m) of None \<Rightarrow> Map.empty | Some sigs \<Rightarrow> sigs)(k \<mapsto> s)) (cache_signatures (snd (Cache_Get c m)))"
  unfolding Cache_Add_def Let_def case_prod_unfold by simp_all

lemma Cache_Add_lookup:
  assumes "cache_ok c" and "cached Cache_Get (Cache_Add c m k s) m' k' = Some s'"
  shows "m' = m \<and> k' = k \<and> s' = s \<or> cached Cache_Get c m' k' = Some s'"
proof -
  let ?ops = "cache_ops c" and ?l = "cache_signatures c"
  let ?v = "(case fst (lru_Get ?ops m ?l) of None \<Rightarrow> Map.empty | Some sigs \<Rightarrow> sigs)(k \<mapsto> s)"
  have ok: "lru_ok ?ops" using assms(1) by (simp add: cache_ok_def)
  obtain sigs where sigs: "fst (lru_Get ?ops m' (lru_Add ?ops m ?v (snd (lru_Get ?ops m ?l)))) = Some sigs" "sigs k' = Some s'"
    using assms(2) by (auto simp: cached_def split: option.splits)
  show ?thesis
  proof (cases "m' = m")
    case True
    then have "sigs = ?v" using lru_okD(1) [OF ok, of m ?v "snd (lru_Get ?ops m ?l)"] sigs(1) by auto
    with sigs(2) True show ?thesis
      by (auto simp: cached_def split: if_splits option.splits)
  next
    case False
    then have "fst (lru_Get ?ops m' ?l) = Some sigs"
      using lru_okD(2) [OF ok False, of ?v "snd (lru_Get ?ops m ?l)"] lru_okD(3) [OF ok, of m' m ?l] sigs(1) by auto
    with sigs(2) show ?thesis by (simp add: cached_def)
  qed
qed

interpretation sigc: signature_cache Cache_Get Cache_Add cache_ok
proof
  show "cached Cache_Get c m' k' = Some s'" if "cache_ok c" "cached Cache_Get (snd (Cache_Get c m)) m' k' = Some s'"
    for c :: "'a cache" and m m' k' s'
    using that lru_okD(3) [of "cache_ops c" m' m "cache_signatures c"] by (simp add: cached_def cache_ok_def)
qed (auto simp: cache_ok_def [where c = "snd _"] cache_ok_def [where c = "Cache_Add _ _ _ _"] cache_ok_def
    dest: Cache_Add_lookup [rotated])

end
