(* ===== verification/Signature_Aggregator.thy ===== *)
theory Signature_Aggregator
  imports App_Network Signature_Cache "HOL-Library.AList"
begin

text \<open>
  \<^verbatim>\<open>signature-aggregator/aggregator/aggregator.go\<close>: a Warp message is signed by asking the canonical
  validators of a subnet for their BLS signatures, in up to five attempts, until the stake of the
  signers passes the quorum. BLS, the codecs and the construction of a Warp message belong to
  other modules: the environment \<open>agg_env\<close>. The theory shows that every signature in a signed
  message verifies, when the signers' stake passes the quorum, and how it can fall short of it.
\<close>

section \<open>Data\<close>

text \<open>An unsigned message with its ID and bytes, which avalanchego computes when it is built.\<close>

record unsigned_message =
  um_NetworkID :: u32
  um_SourceChainID :: ids_ID
  um_Payload :: bytes
  um_ID :: ids_ID
  um_Bytes :: bytes

record warp_message =
  wm_Unsigned :: unsigned_message
  wm_Signers :: bytes
  wm_Signature :: bytes

text \<open>
  \<open>map_order\<close> is the order in which Go iterates over the signature map.
\<close>

record ('pk, 'sig) agg_env =
  bls_SignatureFromBytes :: "bytes \<Rightarrow> 'sig result"
  bls_Verify :: "'pk \<Rightarrow> 'sig \<Rightarrow> bytes \<Rightarrow> bool"
  bls_AggregateSignatures :: "'sig list \<Rightarrow> 'sig result"
  bls_SignatureToBytes :: "'sig \<Rightarrow> bytes"
  bits_Bytes :: "nat set \<Rightarrow> bytes"
  warp_NewMessage :: "unsigned_message \<Rightarrow> bytes \<Rightarrow> bytes \<Rightarrow> warp_message result"
  proto_SignatureRequest :: "bytes \<Rightarrow> bytes \<Rightarrow> bytes result"
  p2p_PrefixMessage :: "bytes \<Rightarrow> bytes"
  coreth_RequestToBytes :: "ids_ID \<Rightarrow> bytes result"
  evm_RequestToBytes :: "ids_ID \<Rightarrow> bytes result"
  proto_SignatureResponse :: "bytes \<Rightarrow> bytes result"
  codec_SignatureResponse :: "bytes \<Rightarrow> bytes result"
  creator_AppRequest :: "ids_ID \<Rightarrow> u32 \<Rightarrow> bytes \<Rightarrow> bytes result"
  map_order :: "(nat \<times> bytes) list \<Rightarrow> (nat \<times> bytes) list"

text \<open>The counters of the aggregator's metrics.\<close>

record agg_metrics =
  FailuresToGetValidatorSet :: nat
  FailuresToConnectToSufficientStake :: nat
  SignatureCacheHits :: nat
  SignatureCacheMisses :: int
  AppRequestCount :: nat
  FailuresSendingToNode :: nat
  ValidatorTimeouts :: nat
  InvalidSignatureResponses :: nat

text \<open>The time of Etna is \<open>None\<close> for the zero time.\<close>

record 'c aggregator =
  subnetIDsByBlockchainID :: "ids_ID \<Rightarrow> ids_ID option"
  currentRequestID :: u32
  sa_cache :: "'c cache"
  etnaTime :: "int option"
  sa_metrics :: agg_metrics

text \<open>The signatures of an aggregation by validator index, and the stake accumulated so far.\<close>

type_synonym signatures = "(nat \<times> bytes) list"
type_synonym 'c agg_state = "'c aggregator \<times> signatures \<times> int"

definition maxRelayerQueryAttempts :: nat where
  "maxRelayerQueryAttempts = 5"

definition errNotEnoughSignatures :: error where
  "errNotEnoughSignatures = Sentinel ''failed to collect a threshold of signatures''"

definition errNotEnoughConnectedStake :: error where
  "errNotEnoughConnectedStake = Sentinel ''failed to connect to a threshold of stake''"

definition NewSignatureAggregator :: "'c lru_ops \<Rightarrow> u64 \<Rightarrow> int option \<Rightarrow> u32 \<Rightarrow> 'c aggregator result" where
  "NewSignatureAggregator ops signatureCacheSize etna random =
     (case NewCache ops signatureCacheSize of
        Inl e \<Rightarrow> Inl (Wrap ''failed to create signature cache'' e)
      | Inr c \<Rightarrow> Inr \<lparr>subnetIDsByBlockchainID = Map.empty, currentRequestID = random, sa_cache = c, etnaTime = etna,
          sa_metrics = \<lparr>FailuresToGetValidatorSet = 0, FailuresToConnectToSufficientStake = 0, SignatureCacheHits = 0,
            SignatureCacheMisses = 0, AppRequestCount = 0, FailuresSendingToNode = 0, ValidatorTimeouts = 0,
            InvalidSignatureResponses = 0\<rparr>\<rparr>)"

section \<open>Requests and responses\<close>

definition etnaActivated :: "'c aggregator \<Rightarrow> int \<Rightarrow> bool" where
  "etnaActivated s now = (case etnaTime s of None \<Rightarrow> False | Some t \<Rightarrow> t < now)"

definition PrimaryNetworkID :: ids_ID where
  "PrimaryNetworkID = 0"

definition marshalRequest ::
  "('pk, 'sig) agg_env \<Rightarrow> 'c aggregator \<Rightarrow> int \<Rightarrow> unsigned_message \<Rightarrow> bytes \<Rightarrow> ids_ID \<Rightarrow> bytes result" where
  "marshalRequest env s now unsignedMessage justification sourceSubnet =
     (if etnaActivated s now then
        (case proto_SignatureRequest env (um_Bytes unsignedMessage) justification of
           Inl e \<Rightarrow> Inl e
         | Inr messageBytes \<Rightarrow> Inr (p2p_PrefixMessage env messageBytes))
      else if sourceSubnet = PrimaryNetworkID then coreth_RequestToBytes env (um_ID unsignedMessage)
      else evm_RequestToBytes env (um_ID unsignedMessage))"

definition unmarshalResponse :: "('pk, 'sig) agg_env \<Rightarrow> 'c aggregator \<Rightarrow> int \<Rightarrow> bytes \<Rightarrow> bytes result" where
  "unmarshalResponse env s now responseBytes =
     (if etnaActivated s now then
        (case proto_SignatureResponse env responseBytes of
           Inl e \<Rightarrow> Inl e
         | Inr sig \<Rightarrow> to_array SignatureLen sig)
      else
        (case codec_SignatureResponse env responseBytes of
           Inl e \<Rightarrow> Inl e
         | Inr sig \<Rightarrow> Inr sig))"

text \<open>
  The answer is the signature and whether it is valid; a response that does not decode is logged
  and treated like an empty signature, a panic of the decoding leaves the function.
\<close>

definition isValidSignatureResponse ::
  "('pk, 'sig) agg_env \<Rightarrow> 'c aggregator \<Rightarrow> int \<Rightarrow> unsigned_message \<Rightarrow> inbound_message \<Rightarrow> 'pk \<Rightarrow> (bytes \<times> bool) result" where
  "isValidSignatureResponse env s now unsignedMessage response pubKey =
     (let zero = replicate SignatureLen 0; invalid = Inr (zero, False)
      in if im_Op response = AppErrorOp then invalid
         else case im_AppBytes response of
             None \<Rightarrow> invalid
           | Some appBytes \<Rightarrow>
               (case unmarshalResponse env s now appBytes of
                  Inl (Panic p) \<Rightarrow> Inl (Panic p)
                | r \<Rightarrow>
                    (let signature = (case r of Inl e \<Rightarrow> zero | Inr b \<Rightarrow> b)
                     in if signature = zero then invalid
                        else if length signature \<noteq> SignatureLen then invalid
                        else case bls_SignatureFromBytes env signature of
                            Inl e \<Rightarrow> invalid
                          | Inr sig \<Rightarrow>
                              if \<not> bls_Verify env pubKey sig (um_Bytes unsignedMessage) then invalid
                              else Inr (signature, True))))"

section \<open>Aggregation\<close>

fun unmarshal_signatures :: "('pk, 'sig) agg_env \<Rightarrow> signatures \<Rightarrow> ('sig list \<times> nat set) result" where
  "unmarshal_signatures env [] = Inr ([], {})"
| "unmarshal_signatures env ((i, sigBytes) # rest) =
     (case bls_SignatureFromBytes env sigBytes of
        Inl e \<Rightarrow> Inl (err_wrap ''Failed to unmarshal signature'' e)
      | Inr sig \<Rightarrow>
          (case unmarshal_signatures env rest of
             Inl e \<Rightarrow> Inl e
           | Inr (sigs, bits) \<Rightarrow> Inr (sig # sigs, insert i bits)))"

definition aggregateSignatures :: "('pk, 'sig) agg_env \<Rightarrow> signatures \<Rightarrow> ('sig \<times> nat set) result" where
  "aggregateSignatures env signatureMap =
     (case unmarshal_signatures env (map_order env signatureMap) of
        Inl e \<Rightarrow> Inl e
      | Inr (sigs, vdrBitSet) \<Rightarrow>
          (case bls_AggregateSignatures env sigs of
             Inl e \<Rightarrow> Inl (err_wrap ''Failed to aggregate signatures'' e)
           | Inr aggSig \<Rightarrow> Inr (aggSig, vdrBitSet)))"

definition aggregateIfSufficientWeight ::
  "('pk, 'sig) agg_env \<Rightarrow> unsigned_message \<Rightarrow> signatures \<Rightarrow> int \<Rightarrow> 'pk connected_validators \<Rightarrow> u64
     \<Rightarrow> warp_message option result" where
  "aggregateIfSufficientWeight env unsignedMessage signatureMap accumulatedSignatureWeight cv quorumPercentage =
     (if \<not> CheckStakeWeightPercentageExceedsThreshold (Some accumulatedSignatureWeight) (TotalValidatorWeight cv) quorumPercentage
      then Inr None
      else case aggregateSignatures env signatureMap of
          Inl e \<Rightarrow> Inl (err_wrap ''Failed to aggregate signature.'' e)
        | Inr (aggSig, vdrBitSet) \<Rightarrow>
            (case to_array SignatureLen (bls_SignatureToBytes env aggSig) of
               Inl e \<Rightarrow> Inl e
             | Inr sigBytes \<Rightarrow>
                 (case warp_NewMessage env unsignedMessage (bits_Bytes env vdrBitSet) sigBytes of
                    Inl e \<Rightarrow> Inl (err_wrap ''Failed to create new signed message'' e)
                  | Inr signedMsg \<Rightarrow> Inr (Some signedMsg))))"

definition handleResponse ::
  "('pk, 'sig) agg_env \<Rightarrow> int \<Rightarrow> inbound_message \<Rightarrow> nodeID set \<Rightarrow> u32 \<Rightarrow> 'pk connected_validators \<Rightarrow> unsigned_message
     \<Rightarrow> u64 \<Rightarrow> 'c agg_state \<Rightarrow> (warp_message option \<times> bool) result \<times> 'c agg_state" where
  "handleResponse env now response sentTo requestID cv unsignedMessage quorumPercentage st =
     (case st of (s, signatureMap, acc) \<Rightarrow>
        (case im_RequestID response of
           None \<Rightarrow> (Inr (None, False), st)
         | Some rcvReqID \<Rightarrow>
             (let nodeID = im_NodeID response; metrics = sa_metrics s
              in if nodeID \<notin> sentTo \<or> rcvReqID \<noteq> requestID then (Inr (None, False), st)
                 else if im_Op response = AppErrorOp then
                   (Inr (None, True), (s\<lparr>sa_metrics := metrics\<lparr>ValidatorTimeouts := ValidatorTimeouts metrics + 1\<rparr>\<rparr>, signatureMap, acc))
                 else case GetValidator cv nodeID of
                     Inl e \<Rightarrow> (Inl e, st)
                   | Inr (validator, vdrIndex) \<Rightarrow>
                       (case isValidSignatureResponse env s now unsignedMessage response (PublicKey validator) of
                          Inl e \<Rightarrow> (Inl e, st)
                        | Inr (signature, valid) \<Rightarrow>
                            if valid then
                              (let signatureMap' = AList.update vdrIndex signature signatureMap
                               in case to_array PublicKeyLen (PublicKeyBytes validator) of
                                    Inl e \<Rightarrow> (Inl e, (s, signatureMap', acc))
                                  | Inr key \<Rightarrow>
                                      (let s' = s\<lparr>sa_cache := Cache_Add (sa_cache s) (um_ID unsignedMessage) key signature\<rparr>;
                                           acc' = acc + uint (Weight validator);
                                           st' = (s', signatureMap', acc')
                                       in case aggregateIfSufficientWeight env unsignedMessage signatureMap' acc' cv quorumPercentage of
                                            Inl e \<Rightarrow> (Inl e, st')
                                          | Inr (Some signedMsg) \<Rightarrow> (Inr (Some signedMsg, True), st')
                                          | Inr None \<Rightarrow> (Inr (None, True), st')))
                            else
                              (Inr (None, True), (s\<lparr>sa_metrics := metrics\<lparr>InvalidSignatureResponses :=
                                  InvalidSignatureResponses metrics + 1\<rparr>\<rparr>, signatureMap, acc))))))"

section \<open>Creating a signed message\<close>

definition setSubnetID :: "ids_ID \<Rightarrow> ids_ID \<Rightarrow> 'c aggregator \<Rightarrow> 'c aggregator" where
  "setSubnetID blockchainID subnetID s =
     s\<lparr>subnetIDsByBlockchainID := (subnetIDsByBlockchainID s)(blockchainID \<mapsto> subnetID)\<rparr>"

definition getSubnetID ::
  "('pk, 'n) app_network \<Rightarrow> ids_ID \<Rightarrow> 'c aggregator \<Rightarrow> 'n \<Rightarrow> ids_ID result \<times> 'c aggregator \<times> 'n" where
  "getSubnetID nw blockchainID s n =
     (case subnetIDsByBlockchainID s blockchainID of
        Some subnetID \<Rightarrow> (Inr subnetID, s, n)
      | None \<Rightarrow>
          (case an_GetSubnetID nw blockchainID n of
             (Inl e, n') \<Rightarrow> (Inl (Errorf ''source blockchain not found for chain ID''), s, n')
           | (Inr subnetID, n') \<Rightarrow> (Inr subnetID, setSubnetID blockchainID subnetID s, n')))"

text \<open>The cached signatures of the validators, in order.\<close>

fun load_cached :: "signature_map \<Rightarrow> 'pk warp_validator list \<Rightarrow> nat \<Rightarrow> signatures \<times> int \<Rightarrow> (signatures \<times> int) result" where
  "load_cached sigs [] i st = Inr st"
| "load_cached sigs (v # vs) i st =
     (case to_array PublicKeyLen (PublicKeyBytes v) of
        Inl e \<Rightarrow> Inl e
      | Inr key \<Rightarrow>
          (case sigs key of
             None \<Rightarrow> load_cached sigs vs (Suc i) st
           | Some signature \<Rightarrow>
               load_cached sigs vs (Suc i) (AList.update i signature (fst st), snd st + uint (Weight v))))"

text \<open>The nodes to query: the first node of each validator without a signature, each with a timeout.\<close>

fun collect_nodes ::
  "('pk, 'n) app_network \<Rightarrow> signatures \<Rightarrow> ids_ID \<Rightarrow> u32 \<Rightarrow> 'pk warp_validator list \<Rightarrow> nat \<Rightarrow> nodeID set \<Rightarrow> 'n
     \<Rightarrow> nodeID set result \<times> 'n" where
  "collect_nodes nw signatureMap chainID requestID [] i vdrSet n = (Inr vdrSet, n)"
| "collect_nodes nw signatureMap chainID requestID (v # vs) i vdrSet n =
     (if map_of signatureMap i \<noteq> None then collect_nodes nw signatureMap chainID requestID vs (Suc i) vdrSet n
      else case NodeIDs v of
          [] \<Rightarrow> (Inl (Panic ''index out of range''), n)
        | nodeID # _ \<Rightarrow>
            collect_nodes nw signatureMap chainID requestID vs (Suc i) (insert nodeID vdrSet)
              (an_RegisterAppRequest nw
                 \<lparr>rq_NodeID = nodeID, rq_ChainID = chainID, rq_RequestID = requestID, rq_Op = AppResponseOp\<rparr> n))"

text \<open>The loop over the response channel.\<close>

fun collect_responses ::
  "('pk, 'sig) agg_env \<Rightarrow> nodeID set \<Rightarrow> u32 \<Rightarrow> 'pk connected_validators \<Rightarrow> unsigned_message \<Rightarrow> u64 \<Rightarrow> int \<Rightarrow> bool
     \<Rightarrow> (int \<times> inbound_message) list \<Rightarrow> int \<Rightarrow> 'c agg_state \<Rightarrow> warp_message option result go_outcome \<times> 'c agg_state" where
  "collect_responses env sentTo requestID cv um quorum responsesExpected closed [] responseCount st =
     (if closed then Done (Inr None) else Blocked, st)"
| "collect_responses env sentTo requestID cv um quorum responsesExpected closed ((now, response) # rest) responseCount st =
     (case handleResponse env now response sentTo requestID cv um quorum st of
        (Inl e, st') \<Rightarrow> (Done (Inl (err_wrap ''failed to handle response'' e)), st')
      | (Inr (Some signedMsg, relevant), st') \<Rightarrow> (Done (Inr (Some signedMsg)), st')
      | (Inr (None, relevant), st') \<Rightarrow>
          (let responseCount' = (if relevant then responseCount + 1 else responseCount)
           in if responseCount' = responsesExpected then (Done (Inr None), st')
              else collect_responses env sentTo requestID cv um quorum responsesExpected closed rest responseCount' st'))"

text \<open>One attempt: query the validators whose signature is missing, then handle the responses.\<close>

definition query_attempt ::
  "('pk, 'sig) agg_env \<Rightarrow> ('pk, 'n) app_network \<Rightarrow> 'pk connected_validators \<Rightarrow> unsigned_message \<Rightarrow> u64 \<Rightarrow> u32 \<Rightarrow> bytes \<Rightarrow> ids_ID
     \<Rightarrow> 'c agg_state \<Rightarrow> 'n \<Rightarrow> warp_message option result go_outcome \<times> 'c agg_state \<times> 'n" where
  "query_attempt env nw cv um quorum requestID outMsg sourceSubnet st n =
     (case st of (s, signatureMap, acc) \<Rightarrow>
        (let responsesExpected = int (length (ValidatorSet cv)) - int (length signatureMap)
         in case collect_nodes nw signatureMap (um_SourceChainID um) requestID (ValidatorSet cv) 0 {} n of
              (Inl e, n1) \<Rightarrow> (Done (Inl e), st, n1)
            | (Inr vdrSet, n1) \<Rightarrow>
                (let (responseChan, n2) = an_RegisterRequestID nw requestID (card vdrSet) n1;
                     (sentTo, n3) = an_Send nw outMsg vdrSet sourceSubnet n2;
                     failures = card (vdrSet - sentTo);
                     responsesExpected' = responsesExpected - int failures;
                     metrics = sa_metrics s;
                     s' = s\<lparr>sa_metrics := metrics\<lparr>AppRequestCount := AppRequestCount metrics + 1,
                       FailuresSendingToNode := FailuresSendingToNode metrics + failures\<rparr>\<rparr>
                 in if responsesExpected' > 0 then
                      (let ((responses, closed), n4) = an_Responses nw responseChan n3;
                           (r, st') = collect_responses env sentTo requestID cv um quorum responsesExpected' closed responses 0
                             (s', signatureMap, acc)
                       in (r, st', n4))
                    else (Done (Inr None), (s', signatureMap, acc), n3))))"

fun query_attempts ::
  "('pk, 'sig) agg_env \<Rightarrow> ('pk, 'n) app_network \<Rightarrow> 'pk connected_validators \<Rightarrow> unsigned_message \<Rightarrow> u64 \<Rightarrow> u32 \<Rightarrow> bytes \<Rightarrow> ids_ID
     \<Rightarrow> nat \<Rightarrow> 'c agg_state \<Rightarrow> 'n \<Rightarrow> warp_message result go_outcome \<times> 'c agg_state \<times> 'n" where
  "query_attempts env nw cv um quorum requestID outMsg sourceSubnet 0 st n = (Done (Inl errNotEnoughSignatures), st, n)"
| "query_attempts env nw cv um quorum requestID outMsg sourceSubnet (Suc k) st n =
     (case query_attempt env nw cv um quorum requestID outMsg sourceSubnet st n of
        (Done (Inl e), st', n') \<Rightarrow> (Done (Inl e), st', n')
      | (Done (Inr (Some signedMsg)), st', n') \<Rightarrow> (Done (Inr signedMsg), st', n')
      | (Done (Inr None), st', n') \<Rightarrow> query_attempts env nw cv um quorum requestID outMsg sourceSubnet k st' n'
      | (Blocked, st', n') \<Rightarrow> (Blocked, st', n')
      | (Panicked, st', n') \<Rightarrow> (Panicked, st', n'))"

text \<open>The signatures already cached for the message; the hits are counted.\<close>

definition cached_signatures ::
  "unsigned_message \<Rightarrow> 'pk connected_validators \<Rightarrow> 'c aggregator \<Rightarrow> (signatures \<times> int) result \<times> 'c aggregator" where
  "cached_signatures um cv s =
     (case Cache_Get (sa_cache s) (um_ID um) of
        (None, c) \<Rightarrow> (Inr ([], 0), s\<lparr>sa_cache := c\<rparr>)
      | (Some cachedSignatures, c) \<Rightarrow>
          (let s1 = s\<lparr>sa_cache := c\<rparr>; metrics = sa_metrics s1
           in case load_cached cachedSignatures (ValidatorSet cv) 0 ([], 0) of
                Inl e \<Rightarrow> (Inl e, s1)
              | Inr (signatureMap, acc) \<Rightarrow>
                  (Inr (signatureMap, acc),
                   s1\<lparr>sa_metrics := metrics\<lparr>SignatureCacheHits := SignatureCacheHits metrics + length signatureMap\<rparr>\<rparr>)))"

text \<open>The request to the validators, under a fresh request ID, and the attempts.\<close>

definition request_signatures ::
  "('pk, 'sig) agg_env \<Rightarrow> ('pk, 'n) app_network \<Rightarrow> int \<Rightarrow> unsigned_message \<Rightarrow> bytes \<Rightarrow> ids_ID \<Rightarrow> u64 \<Rightarrow> 'pk connected_validators
     \<Rightarrow> 'c agg_state \<Rightarrow> 'n \<Rightarrow> warp_message result go_outcome \<times> 'c agg_state \<times> 'n" where
  "request_signatures env nw now um justification sourceSubnet quorum cv st n =
     (case st of (s, signatureMap, acc) \<Rightarrow>
        (case marshalRequest env s now um justification sourceSubnet of
           Inl e \<Rightarrow> (Done (Inl (err_wrap ''Failed to marshal request bytes'' e)), st, n)
         | Inr reqBytes \<Rightarrow>
             (let requestID = currentRequestID s + 1; s' = s\<lparr>currentRequestID := requestID\<rparr>
              in case creator_AppRequest env (um_SourceChainID um) requestID reqBytes of
                   Inl e \<Rightarrow> (Done (Inl (err_wrap ''Failed to create app request message'' e)), (s', signatureMap, acc), n)
                 | Inr outMsg \<Rightarrow>
                     query_attempts env nw cv um quorum requestID outMsg sourceSubnet maxRelayerQueryAttempts
                       (s', signatureMap, acc) n)))"

text \<open>From the cached signatures on: aggregate them if they suffice, else ask the validators.\<close>

definition sign_with_validators ::
  "('pk, 'sig) agg_env \<Rightarrow> ('pk, 'n) app_network \<Rightarrow> int \<Rightarrow> unsigned_message \<Rightarrow> bytes \<Rightarrow> ids_ID \<Rightarrow> u64 \<Rightarrow> 'pk connected_validators
     \<Rightarrow> 'c aggregator \<Rightarrow> 'n \<Rightarrow> warp_message result go_outcome \<times> 'c agg_state \<times> 'n" where
  "sign_with_validators env nw now um justification sourceSubnet quorum cv s n =
     (case cached_signatures um cv s of
        (Inl e, s1) \<Rightarrow> (Done (Inl e), (s1, [], 0), n)
      | (Inr (signatureMap, acc), s1) \<Rightarrow>
          (case aggregateIfSufficientWeight env um signatureMap acc cv quorum of
             Inl e \<Rightarrow> (Done (Inl e), (s1, signatureMap, acc), n)
           | Inr (Some signedMsg) \<Rightarrow> (Done (Inr signedMsg), (s1, signatureMap, acc), n)
           | Inr None \<Rightarrow>
               (let metrics = sa_metrics s1;
                    s2 = (if length signatureMap > 0
                          then s1\<lparr>sa_metrics := metrics\<lparr>SignatureCacheMisses := SignatureCacheMisses metrics +
                                 (int (length (ValidatorSet cv)) - int (length signatureMap))\<rparr>\<rparr>
                          else s1)
                in request_signatures env nw now um justification sourceSubnet quorum cv (s2, signatureMap, acc) n)))"

definition CreateSignedMessage ::
  "('pk, 'sig) agg_env \<Rightarrow> ('pk, 'n) app_network \<Rightarrow> int \<Rightarrow> unsigned_message \<Rightarrow> bytes \<Rightarrow> ids_ID \<Rightarrow> u64
     \<Rightarrow> 'c aggregator \<Rightarrow> 'n \<Rightarrow> warp_message result go_outcome \<times> 'c aggregator \<times> 'n" where
  "CreateSignedMessage env nw now um justification inputSigningSubnet quorum s n =
     (case getSubnetID nw (um_SourceChainID um) s n of
        (Inl e, s1, n1) \<Rightarrow> (Done (Inl (Errorf ''Source message subnet not found for chainID'')), s1, n1)
      | (Inr sourceSubnet, s1, n1) \<Rightarrow>
          (let signingSubnet = (if inputSigningSubnet = 0 then sourceSubnet else inputSigningSubnet);
               metrics = sa_metrics s1
           in case an_ConnectToCanonicalValidators nw signingSubnet n1 of
                (Inl e, n2) \<Rightarrow>
                  (Done (Inl (err_wrap ''Failed to connect to canonical validators'' e)),
                   s1\<lparr>sa_metrics := metrics\<lparr>FailuresToGetValidatorSet := FailuresToGetValidatorSet metrics + 1\<rparr>\<rparr>, n2)
              | (Inr cv, n2) \<Rightarrow>
                  if \<not> CheckStakeWeightPercentageExceedsThreshold (Some (uint (ConnectedWeight cv))) (TotalValidatorWeight cv) quorum
                  then (Done (Inl errNotEnoughConnectedStake),
                        s1\<lparr>sa_metrics := metrics\<lparr>FailuresToConnectToSufficientStake :=
                          FailuresToConnectToSufficientStake metrics + 1\<rparr>\<rparr>, n2)
                  else
                    (case sign_with_validators env nw now um justification sourceSubnet quorum cv s1 n2 of
                       (r, (s3, _, _), n3) \<Rightarrow> (r, s3, n3))))"

section \<open>What holds of the collected signatures\<close>

text \<open>Go iterates over a map in some order, each entry once.\<close>

definition map_order_ok :: "('pk, 'sig) agg_env \<Rightarrow> bool" where
  "map_order_ok env \<longleftrightarrow> (\<forall>m. mset (map_order env m) = mset m)"

definition verifies :: "('pk, 'sig) agg_env \<Rightarrow> 'pk \<Rightarrow> unsigned_message \<Rightarrow> bytes \<Rightarrow> bool" where
  "verifies env pk um b \<longleftrightarrow>
     (\<exists>sig. bls_SignatureFromBytes env b = Inr sig \<and> bls_Verify env pk sig (um_Bytes um))"

definition sigs_ok :: "('pk, 'sig) agg_env \<Rightarrow> 'pk connected_validators \<Rightarrow> unsigned_message \<Rightarrow> signatures \<Rightarrow> bool" where
  "sigs_ok env cv um m \<longleftrightarrow>
     distinct (map fst m) \<and>
     (\<forall>i b. map_of m i = Some b \<longrightarrow>
        i < length (ValidatorSet cv) \<and> verifies env (PublicKey (ValidatorSet cv ! i)) um b)"

definition signer_weight :: "'pk connected_validators \<Rightarrow> signatures \<Rightarrow> int" where
  "signer_weight cv m = (\<Sum>i \<in> fst ` set m. uint (Weight (ValidatorSet cv ! i)))"

text \<open>
  A message signed from the collected signatures: the accumulated weight passes the quorum, the
  signature aggregates exactly the collected ones, and the bit set names their validators.
\<close>

definition signed_from ::
  "('pk, 'sig) agg_env \<Rightarrow> 'pk connected_validators \<Rightarrow> unsigned_message \<Rightarrow> u64 \<Rightarrow> signatures \<Rightarrow> int \<Rightarrow> warp_message \<Rightarrow> bool" where
  "signed_from env cv um quorum m acc msg \<longleftrightarrow>
     CheckStakeWeightPercentageExceedsThreshold (Some acc) (TotalValidatorWeight cv) quorum \<and>
     (\<exists>agg. aggregateSignatures env m = Inr (agg, fst ` set m) \<and>
        warp_NewMessage env um (bits_Bytes env (fst ` set m)) (take SignatureLen (bls_SignatureToBytes env agg)) = Inr msg)"

lemma sigs_ok_update:
  assumes "sigs_ok env cv um m" and "i < length (ValidatorSet cv)"
    and "verifies env (PublicKey (ValidatorSet cv ! i)) um b"
  shows "sigs_ok env cv um (AList.update i b m)"
  using assms by (auto simp: sigs_ok_def distinct_update update_conv')

lemma set_update_keys: "fst ` set (AList.update i b m) = insert i (fst ` set m)"
  by (simp add: dom_update)

lemma signer_weight_update:
  assumes "i \<notin> fst ` set m"
  shows "signer_weight cv (AList.update i b m) = signer_weight cv m + uint (Weight (ValidatorSet cv ! i))"
  using assms by (simp add: signer_weight_def set_update_keys)

lemma unmarshal_signatures_bits:
  "unmarshal_signatures env m = Inr (sigs, bits) \<Longrightarrow> bits = fst ` set m"
  by (induction env m arbitrary: sigs bits rule: unmarshal_signatures.induct)
    (force split: sum.splits)+

lemma aggregate_signed:
  assumes "map_order_ok env" and "aggregateIfSufficientWeight env um m acc cv quorum = Inr (Some msg)"
  shows "signed_from env cv um quorum m acc msg"
proof -
  obtain agg bits where agg: "aggregateSignatures env m = Inr (agg, bits)"
      "warp_NewMessage env um (bits_Bytes env bits) (take SignatureLen (bls_SignatureToBytes env agg)) = Inr msg"
      "CheckStakeWeightPercentageExceedsThreshold (Some acc) (TotalValidatorWeight cv) quorum"
    using assms(2) by (auto simp: aggregateIfSufficientWeight_def to_array_def split: if_splits sum.splits)
  have "set (map_order env m) = set m"
    using assms(1) unfolding map_order_ok_def by (metis set_mset_mset)
  then have "bits = fst ` set m"
    using agg(1) unmarshal_signatures_bits [of env "map_order env m"]
    by (force simp: aggregateSignatures_def split: sum.splits)
  with agg show ?thesis by (auto simp: signed_from_def)
qed

lemma valid_response_verifies:
  assumes "isValidSignatureResponse env s now um r pk = Inr (b, True)"
  shows "verifies env pk um b"
  using assms
  by (auto simp: isValidSignatureResponse_def verifies_def Let_def split: if_splits option.splits sum.splits error.splits)

section \<open>The cache holds verified signatures\<close>

text \<open>
  The IDs of the messages that are aggregated and the cache keys of the validators identify the
  bytes of a message and a public key.
\<close>

text \<open>The canonical validators that sign: those of the given subnet, or of the source's own.\<close>

definition signing_set ::
  "('pk, 'n) app_network \<Rightarrow> unsigned_message \<Rightarrow> ids_ID \<Rightarrow> 'c aggregator \<Rightarrow> 'n \<Rightarrow> 'pk connected_validators \<Rightarrow> bool" where
  "signing_set nw um subnet s n cv \<longleftrightarrow>
     (\<exists>sourceSubnet s1 n1 n2. getSubnetID nw (um_SourceChainID um) s n = (Inr sourceSubnet, s1, n1) \<and>
        an_ConnectToCanonicalValidators nw (if subnet = 0 then sourceSubnet else subnet) n1 = (Inr cv, n2))"

lemma signing_set_network:
  assumes "signing_set network_ops um subnet s n cv"
  shows "\<exists>sourceSubnet. fst (getSubnetID network_ops (um_SourceChainID um) s n) = Inr sourceSubnet \<and>
    GetCurrentCanonicalValidatorSet (nt_env n) (if subnet = 0 then sourceSubnet else subnet) =
      Inr (ValidatorSet cv, TotalValidatorWeight cv)"
proof -
  obtain src s1 n1 n2 where g: "getSubnetID network_ops (um_SourceChainID um) s n = (Inr src, s1, n1)"
    and c: "an_ConnectToCanonicalValidators network_ops (if subnet = 0 then src else subnet) n1 = (Inr cv, n2)"
    using assms unfolding signing_set_def by blast
  have "n1 = n"
    using g by (auto simp: getSubnetID_def network_ops_def network_GetSubnetID_def split: option.splits sum.splits)
  then obtain t where "ConnectToCanonicalValidators (nt_env n) (if subnet = 0 then src else subnet) (nt_tracked n) = (Inr cv, t)"
    using c by (auto simp: network_ops_def network_Connect_def split: prod.splits)
  from connect_shape [OF this] g show ?thesis by auto
qed

definition distinguished :: "unsigned_message set \<Rightarrow> 'pk warp_validator set \<Rightarrow> bool" where
  "distinguished Ms Vs \<longleftrightarrow>
     (\<forall>um \<in> Ms. \<forall>um' \<in> Ms. um_ID um = um_ID um' \<longrightarrow> um_Bytes um = um_Bytes um') \<and>
     (\<forall>v \<in> Vs. \<forall>v' \<in> Vs. take PublicKeyLen (PublicKeyBytes v) = take PublicKeyLen (PublicKeyBytes v') \<longrightarrow>
        PublicKey v = PublicKey v')"

definition verified_entry ::
  "('pk, 'sig) agg_env \<Rightarrow> unsigned_message set \<Rightarrow> 'pk warp_validator set \<Rightarrow> ids_ID \<Rightarrow> bytes \<Rightarrow> bytes \<Rightarrow> bool" where
  "verified_entry env Ms Vs m k b \<longleftrightarrow>
     (\<exists>um \<in> Ms. \<exists>v \<in> Vs. um_ID um = m \<and> take PublicKeyLen (PublicKeyBytes v) = k \<and> verifies env (PublicKey v) um b)"

definition cache_verified ::
  "('pk, 'sig) agg_env \<Rightarrow> unsigned_message set \<Rightarrow> 'pk warp_validator set \<Rightarrow> 'c cache \<Rightarrow> bool" where
  "cache_verified env Ms Vs c \<longleftrightarrow> cache_ok c \<and> sigc.all_cached (verified_entry env Ms Vs) c"

lemma verified_entry_use:
  assumes "distinguished Ms Vs" and "verified_entry env Ms Vs (um_ID um) (take PublicKeyLen (PublicKeyBytes v)) b"
    and "um \<in> Ms" and "v \<in> Vs"
  shows "verifies env (PublicKey v) um b"
proof -
  obtain um' v' where e: "um' \<in> Ms" "v' \<in> Vs" "um_ID um' = um_ID um"
      "take PublicKeyLen (PublicKeyBytes v') = take PublicKeyLen (PublicKeyBytes v)" "verifies env (PublicKey v') um' b"
    using assms(2) by (auto simp: verified_entry_def)
  then have "um_Bytes um' = um_Bytes um" "PublicKey v' = PublicKey v"
    using assms(1,3,4) unfolding distinguished_def by blast+
  with e(5) show ?thesis by (simp add: verifies_def)
qed

lemma load_cached_inv:
  assumes "load_cached sigs (drop i (ValidatorSet cv)) i (m, acc) = Inr (m', acc')"
    and "i \<le> length (ValidatorSet cv)"
    and "\<And>j b. j < length (ValidatorSet cv) \<Longrightarrow> sigs (take PublicKeyLen (PublicKeyBytes (ValidatorSet cv ! j))) = Some b \<Longrightarrow>
      verifies env (PublicKey (ValidatorSet cv ! j)) um b"
    and "sigs_ok env cv um m" and "acc = signer_weight cv m" and "\<forall>j \<in> fst ` set m. j < i"
  shows "sigs_ok env cv um m' \<and> acc' = signer_weight cv m'"
  using assms
proof (induction "length (ValidatorSet cv) - i" arbitrary: i m acc)
  case 0
  from "0.hyps" "0.prems"(1,2) have "m = m' \<and> acc = acc'" by simp
  with "0.prems"(4,5) show ?case by blast
next
  case (Suc d)
  then have i: "i < length (ValidatorSet cv)" by simp
  let ?v = "ValidatorSet cv ! i"
  have dr: "drop i (ValidatorSet cv) = ?v # drop (Suc i) (ValidatorSet cv)"
    using i by (simp add: Cons_nth_drop_Suc)
  have later: "\<forall>j \<in> fst ` set m. j < Suc i" using Suc.prems(6) by auto
  show ?case
  proof (cases "sigs (take PublicKeyLen (PublicKeyBytes ?v))")
    case None
    then have "load_cached sigs (drop (Suc i) (ValidatorSet cv)) (Suc i) (m, acc) = Inr (m', acc')"
      using Suc.prems(1) unfolding dr by (auto simp: to_array_def split: if_splits)
    then show ?thesis
      using Suc.hyps(2) Suc.prems(3,4,5) later i by (intro Suc.hyps(1)) auto
  next
    case (Some b)
    have new: "i \<notin> fst ` set m" using Suc.prems(6) by auto
    have "load_cached sigs (drop (Suc i) (ValidatorSet cv)) (Suc i)
        (AList.update i b m, acc + uint (Weight ?v)) = Inr (m', acc')"
      using Suc.prems(1) Some unfolding dr by (auto simp: to_array_def split: if_splits)
    moreover have "sigs_ok env cv um (AList.update i b m)"
      using sigs_ok_update [OF Suc.prems(4) i Suc.prems(3) [OF i Some]] .
    moreover have "acc + uint (Weight ?v) = signer_weight cv (AList.update i b m)"
      using signer_weight_update [OF new, of cv b] Suc.prems(5) by simp
    moreover have "\<forall>j \<in> fst ` set (AList.update i b m). j < Suc i"
      using later set_update_keys [of i b m] by simp
    ultimately show ?thesis
      using Suc.hyps(1) [of "Suc i" "AList.update i b m" "acc + uint (Weight ?v)"] Suc.hyps(2) Suc.prems(3) i by simp
  qed
qed

section \<open>Responses\<close>

lemma handleResponse_cases:
  assumes "handleResponse env now response sentTo requestID cv um quorum (s, m, acc) = (r, s', m', acc')"
  shows "m' = m \<and> acc' = acc \<and> sa_cache s' = sa_cache s \<and> (\<forall>msg rel. r \<noteq> Inr (Some msg, rel)) \<or>
    (\<exists>v i b. im_NodeID response \<in> sentTo \<and> GetValidator cv (im_NodeID response) = Inr (v, i) \<and>
       verifies env (PublicKey v) um b \<and> m' = AList.update i b m \<and>
       ((\<exists>e. r = Inl e) \<and> sa_cache s' = sa_cache s \<or>
        sa_cache s' = Cache_Add (sa_cache s) (um_ID um) (take PublicKeyLen (PublicKeyBytes v)) b \<and>
        acc' = acc + uint (Weight v) \<and>
        (\<forall>msg rel. r = Inr (Some msg, rel) \<longrightarrow> aggregateIfSufficientWeight env um m' acc' cv quorum = Inr (Some msg))))"
proof (cases "im_RequestID response = Some requestID \<and> im_NodeID response \<in> sentTo \<and> im_Op response \<noteq> AppErrorOp")
  case False
  then show ?thesis
    using assms by (auto simp: handleResponse_def Let_def split: option.splits if_splits)
next
  case True
  show ?thesis
  proof (cases "GetValidator cv (im_NodeID response)")
    case (Inl e)
    then show ?thesis using assms True by (auto simp: handleResponse_def)
  next
    case (Inr vi)
    obtain v i where vi: "GetValidator cv (im_NodeID response) = Inr (v, i)" using Inr by (cases vi) auto
    show ?thesis
    proof (cases "isValidSignatureResponse env s now um response (PublicKey v)")
      case (Inl e)
      then show ?thesis using assms True vi by (auto simp: handleResponse_def)
    next
      case (Inr bv)
      obtain b valid where bv: "isValidSignatureResponse env s now um response (PublicKey v) = Inr (b, valid)"
        using Inr by (cases bv) auto
      show ?thesis
      proof (cases valid)
        case False
        then show ?thesis using assms True vi bv by (auto simp: handleResponse_def Let_def)
      next
        case valid: True
        have "verifies env (PublicKey v) um b"
          using valid_response_verifies bv valid by simp
        then show ?thesis
          using assms True vi bv valid
          by (auto simp: handleResponse_def to_array_def Let_def split: if_splits sum.splits option.splits)
      qed
    qed
  qed
qed


text \<open>The nodes that are queried belong to validators, so their index is in range.\<close>

definition nodes_of :: "'pk connected_validators \<Rightarrow> nat set \<Rightarrow> nodeID set" where
  "nodes_of cv I = {n. \<exists>i \<in> I. i < length (ValidatorSet cv) \<and> n \<in> set (NodeIDs (ValidatorSet cv ! i))}"

definition agg_inv ::
  "('pk, 'sig) agg_env \<Rightarrow> unsigned_message set \<Rightarrow> 'pk warp_validator set \<Rightarrow> 'pk connected_validators \<Rightarrow> unsigned_message
     \<Rightarrow> 'c agg_state \<Rightarrow> bool" where
  "agg_inv env Ms Vs cv um st \<longleftrightarrow> sigs_ok env cv um (fst (snd st)) \<and> cache_verified env Ms Vs (sa_cache (fst st))"

text \<open>What an aggregation of \<open>um\<close> by the validators \<open>cv\<close> relies on.\<close>

definition agg_ctx ::
  "('pk, 'sig) agg_env \<Rightarrow> unsigned_message set \<Rightarrow> 'pk warp_validator set \<Rightarrow> 'pk connected_validators \<Rightarrow> unsigned_message \<Rightarrow> bool" where
  "agg_ctx env Ms Vs cv um \<longleftrightarrow>
     map_order_ok env \<and> distinguished Ms Vs \<and> cv_ok cv \<and> um \<in> Ms \<and> set (ValidatorSet cv) \<subseteq> Vs"

lemma cache_verified_add:
  assumes "cache_verified env Ms Vs c" and "um \<in> Ms" and "v \<in> Vs" and "verifies env (PublicKey v) um b"
  shows "cache_verified env Ms Vs (Cache_Add c (um_ID um) (take PublicKeyLen (PublicKeyBytes v)) b)"
proof -
  have "verified_entry env Ms Vs (um_ID um) (take PublicKeyLen (PublicKeyBytes v)) b"
    unfolding verified_entry_def using assms(2-4) by blast
  with assms(1) show ?thesis
    unfolding cache_verified_def by (auto intro: sigc.invar_add sigc.all_cached_add)
qed

lemma GetValidator_node:
  assumes "cv_ok cv" and "n \<in> nodes_of cv I" and "GetValidator cv n = Inr (v, i)"
  shows "i \<in> I \<and> i < length (ValidatorSet cv) \<and> v = ValidatorSet cv ! i \<and> n \<in> set (NodeIDs v)"
  using assms cv_ok_GetValidator [OF assms(1)] by (fastforce simp: nodes_of_def)

lemma handleResponse_inv:
  assumes ctx: "agg_ctx env Ms Vs cv um" and sent: "sentTo \<subseteq> nodes_of cv I"
    and inv: "agg_inv env Ms Vs cv um (s, m, acc)"
    and h: "handleResponse env now response sentTo requestID cv um quorum (s, m, acc) = (r, s', m', acc')"
  shows "agg_inv env Ms Vs cv um (s', m', acc') \<and>
    (\<forall>msg rel. r = Inr (Some msg, rel) \<longrightarrow> signed_from env cv um quorum m' acc' msg)"
proof -
  have sok: "sigs_ok env cv um m" and cok: "cache_verified env Ms Vs (sa_cache s)"
    using inv by (auto simp: agg_inv_def)
  have *: "map_order_ok env" "cv_ok cv" "um \<in> Ms" "set (ValidatorSet cv) \<subseteq> Vs"
    using ctx by (auto simp: agg_ctx_def)
  show ?thesis
    using handleResponse_cases [OF h]
  proof (elim disjE exE conjE)
    fix v i b
    assume g: "im_NodeID response \<in> sentTo" "GetValidator cv (im_NodeID response) = Inr (v, i)"
      and b: "verifies env (PublicKey v) um b" and m': "m' = AList.update i b m"
    from GetValidator_node [OF *(2) _ g(2), of I] sent g(1)
    have i: "i < length (ValidatorSet cv)" "v = ValidatorSet cv ! i" by auto
    have sok': "sigs_ok env cv um m'"
      unfolding m' using sigs_ok_update [OF sok i(1)] b i(2) by simp
    { fix e assume "r = Inl e" "sa_cache s' = sa_cache s"
      then show ?thesis using sok' cok by (simp add: agg_inv_def) }
    { assume c: "sa_cache s' = Cache_Add (sa_cache s) (um_ID um) (take PublicKeyLen (PublicKeyBytes v)) b"
        and agg: "\<forall>msg rel. r = Inr (Some msg, rel) \<longrightarrow> aggregateIfSufficientWeight env um m' acc' cv quorum = Inr (Some msg)"
      have "v \<in> Vs" using i *(4) by auto
      then have "cache_verified env Ms Vs (sa_cache s')"
        unfolding c using cache_verified_add [OF cok *(3) _ b] by simp
      then show ?thesis
        using sok' agg aggregate_signed [OF *(1)] by (auto simp: agg_inv_def) }
  qed (use sok cok in \<open>simp_all add: agg_inv_def\<close>)
qed

lemma handleResponse_weight:
  assumes ok: "cv_ok cv" and sent: "sentTo \<subseteq> nodes_of cv I"
    and acc: "acc = signer_weight cv m"
    and new: "im_NodeID response \<in> sentTo \<Longrightarrow>
      \<forall>i < length (ValidatorSet cv). im_NodeID response \<in> set (NodeIDs (ValidatorSet cv ! i)) \<longrightarrow> i \<notin> fst ` set m"
    and h: "handleResponse env now response sentTo requestID cv um quorum (s, m, acc) = (Inr x, s', m', acc')"
  shows "acc' = signer_weight cv m' \<and>
    (\<forall>j \<in> fst ` set m'. j \<in> fst ` set m \<or> im_NodeID response \<in> sentTo \<and> j < length (ValidatorSet cv) \<and>
       im_NodeID response \<in> set (NodeIDs (ValidatorSet cv ! j)))"
  using handleResponse_cases [OF h]
proof (elim disjE exE conjE)
  fix v i b
  assume g: "im_NodeID response \<in> sentTo" "GetValidator cv (im_NodeID response) = Inr (v, i)"
    and m': "m' = AList.update i b m" and acc': "acc' = acc + uint (Weight v)"
  from GetValidator_node [OF ok _ g(2), of I] sent g(1)
  have i: "i < length (ValidatorSet cv)" "v = ValidatorSet cv ! i" "im_NodeID response \<in> set (NodeIDs v)" by auto
  then have "i \<notin> fst ` set m" using new [OF g(1)] by auto
  from signer_weight_update [OF this, of cv b] show ?thesis
    using acc acc' i m' g(1) set_update_keys [of i b m] by auto
qed (use acc in auto)


text \<open>The nodes an attempt asks: the first node of each validator in \<open>I\<close>.\<close>

definition queried :: "'pk connected_validators \<Rightarrow> nat set \<Rightarrow> nodeID set" where
  "queried cv I = {hd (NodeIDs (ValidatorSet cv ! i)) | i. i \<in> I \<and> i < length (ValidatorSet cv)}"

lemma canonical_NodeIDs: "cv_ok cv \<Longrightarrow> i < length (ValidatorSet cv) \<Longrightarrow> NodeIDs (ValidatorSet cv ! i) \<noteq> []"
  by (simp add: cv_ok_def canonical_set_ok_def)

lemma queried_nodes: "cv_ok cv \<Longrightarrow> queried cv I \<subseteq> nodes_of cv I"
  by (auto simp: queried_def nodes_of_def canonical_NodeIDs)

lemma queried_unique:
  assumes "cv_ok cv" and "n \<in> queried cv I" and "i < length (ValidatorSet cv)" and "n \<in> set (NodeIDs (ValidatorSet cv ! i))"
  shows "i \<in> I \<and> n = hd (NodeIDs (ValidatorSet cv ! i))"
proof -
  obtain j where j: "j \<in> I" "j < length (ValidatorSet cv)" "n = hd (NodeIDs (ValidatorSet cv ! j))"
    using assms(2) by (auto simp: queried_def)
  then have "n \<in> set (NodeIDs (ValidatorSet cv ! j))"
    using canonical_NodeIDs [OF assms(1) j(2)] by simp
  from cv_ok_GetValidator [OF assms(1) j(2) this] cv_ok_GetValidator [OF assms(1,3,4)] have "j = i" by simp
  with j show ?thesis by simp
qed

lemma collect_responses_inv:
  assumes ctx: "agg_ctx env Ms Vs cv um" and sent: "sentTo \<subseteq> nodes_of cv I"
  shows "agg_inv env Ms Vs cv um (s, m, acc) \<Longrightarrow>
    collect_responses env sentTo requestID cv um quorum expected closed rs cnt (s, m, acc) = (r, s', m', acc') \<Longrightarrow>
    agg_inv env Ms Vs cv um (s', m', acc') \<and>
    (\<forall>msg. r = Done (Inr (Some msg)) \<longrightarrow> signed_from env cv um quorum m' acc' msg)"
proof (induction rs arbitrary: cnt s m acc)
  case Nil
  then show ?case by (auto split: if_splits)
next
  case (Cons p rs)
  obtain now resp where p: "p = (now, resp)" by (cases p)
  obtain r1 s1 m1 acc1 where h: "handleResponse env now resp sentTo requestID cv um quorum (s, m, acc) = (r1, s1, m1, acc1)"
    by (metis prod_cases4)
  note inv = handleResponse_inv [OF ctx sent Cons.prems(1) h]
  show ?case
    using Cons.prems(2) inv Cons.IH [of s1 m1 acc1] unfolding p
    by (auto simp: h Let_def split: sum.splits option.splits if_splits)
qed

lemma collect_responses_weight:
  assumes ok: "cv_ok cv" and sent: "sentTo \<subseteq> queried cv I"
  shows "acc = signer_weight cv m \<Longrightarrow> distinct (map (im_NodeID \<circ> snd) rs) \<Longrightarrow>
    (\<forall>p \<in> set rs. im_NodeID (snd p) \<in> sentTo \<longrightarrow> (\<forall>i < length (ValidatorSet cv).
       im_NodeID (snd p) \<in> set (NodeIDs (ValidatorSet cv ! i)) \<longrightarrow> i \<notin> fst ` set m)) \<Longrightarrow>
    collect_responses env sentTo requestID cv um quorum expected closed rs cnt (s, m, acc) = (Done (Inr x), s', m', acc') \<Longrightarrow>
    acc' = signer_weight cv m'"
proof (induction rs arbitrary: cnt s m acc)
  case Nil
  then show ?case by (auto split: if_splits)
next
  case (Cons p rs)
  obtain now resp where p: "p = (now, resp)" by (cases p)
  obtain r1 s1 m1 acc1 where h: "handleResponse env now resp sentTo requestID cv um quorum (s, m, acc) = (r1, s1, m1, acc1)"
    by (metis prod_cases4)
  show ?case
  proof (cases r1)
    case (Inl e)
    then show ?thesis using Cons.prems(4) unfolding p by (simp add: h)
  next
    case (Inr y)
    note w = handleResponse_weight [OF ok order_trans [OF sent queried_nodes [OF ok]] Cons.prems(1) _ h [unfolded Inr]]
    have new: "\<forall>i < length (ValidatorSet cv). im_NodeID resp \<in> set (NodeIDs (ValidatorSet cv ! i)) \<longrightarrow> i \<notin> fst ` set m"
      if "im_NodeID resp \<in> sentTo"
      using Cons.prems(3) that unfolding p by simp
    have rest: "\<forall>p \<in> set rs. im_NodeID (snd p) \<in> sentTo \<longrightarrow> (\<forall>i < length (ValidatorSet cv).
       im_NodeID (snd p) \<in> set (NodeIDs (ValidatorSet cv ! i)) \<longrightarrow> i \<notin> fst ` set m1)"
    proof (intro ballI impI allI notI)
      fix q i assume q: "q \<in> set rs" "im_NodeID (snd q) \<in> sentTo" "i < length (ValidatorSet cv)"
        "im_NodeID (snd q) \<in> set (NodeIDs (ValidatorSet cv ! i))" "i \<in> fst ` set m1"
      have "i \<notin> fst ` set m" using Cons.prems(3) q(1-4) by simp
      then have "im_NodeID resp \<in> sentTo" "im_NodeID resp \<in> set (NodeIDs (ValidatorSet cv ! i))"
        using w [OF new] q(5) by auto
      then have "im_NodeID resp = im_NodeID (snd q)"
        using queried_unique [OF ok _ q(3)] sent q(2,4) by (metis subsetD)
      with Cons.prems(2) q(1) show False unfolding p by (auto simp: image_iff)
    qed
    show ?thesis
      using Cons.prems(2,4) w [OF new] Cons.IH [OF _ _ rest] unfolding p
      by (auto simp: h Inr Let_def split: option.splits if_splits prod.splits)
  qed
qed

section \<open>Aggregation over a network\<close>

lemma collect_nodes_queried:
  assumes "collect_nodes nw m chainID requestID (drop i (ValidatorSet cv)) i V n = (Inr V', n')"
    and "i \<le> length (ValidatorSet cv)"
  shows "V' = V \<union> {hd (NodeIDs (ValidatorSet cv ! j)) | j. i \<le> j \<and> j < length (ValidatorSet cv) \<and> map_of m j = None}"
  using assms
proof (induction "length (ValidatorSet cv) - i" arbitrary: i V n)
  case 0
  then show ?case by auto
next
  case (Suc d)
  then have i: "i < length (ValidatorSet cv)" by simp
  let ?v = "ValidatorSet cv ! i"
  let ?Q = "\<lambda>i. {hd (NodeIDs (ValidatorSet cv ! j)) | j. i \<le> j \<and> j < length (ValidatorSet cv) \<and> map_of m j = None}"
  have dr: "drop i (ValidatorSet cv) = ?v # drop (Suc i) (ValidatorSet cv)"
    using i by (simp add: Cons_nth_drop_Suc)
  have Q: "?Q i = (if map_of m i = None then insert (hd (NodeIDs ?v)) (?Q (Suc i)) else ?Q (Suc i))"
    using i by (auto simp: Suc_le_eq le_less)
  show ?case
  proof (cases "map_of m i")
    case (Some b)
    then have "V' = V \<union> ?Q (Suc i)"
      using Suc.hyps Suc.prems i unfolding dr by (intro Suc.hyps(1)) auto
    with Some show ?thesis unfolding Q by simp
  next
    case None
    then obtain a as n1 where a: "NodeIDs ?v = a # as"
        "collect_nodes nw m chainID requestID (drop (Suc i) (ValidatorSet cv)) (Suc i) (insert a V) n1 = (Inr V', n')"
      using Suc.prems(1) unfolding dr by (auto split: list.splits)
    then have "V' = insert a V \<union> ?Q (Suc i)"
      using Suc.hyps(1) [OF _ a(2)] Suc.hyps(2) i by simp
    with None a(1) show ?thesis unfolding Q by simp
  qed
qed

lemma collect_nodes_all:
  assumes "collect_nodes nw m chainID requestID (ValidatorSet cv) 0 {} n = (Inr V, n')"
  shows "V = queried cv {i. map_of m i = None}"
  using collect_nodes_queried [of nw m chainID requestID 0 cv "{}" n V n'] assms
  by (auto simp: queried_def)

lemma query_attempt_cases:
  assumes "query_attempt env nw cv um quorum requestID outMsg sourceSubnet (s, m, acc) n = (r, st', n')"
  shows "(\<exists>e. collect_nodes nw m (um_SourceChainID um) requestID (ValidatorSet cv) 0 {} n = (Inl e, n') \<and>
      r = Done (Inl e) \<and> st' = (s, m, acc)) \<or>
    (\<exists>V n1 c n2 sentTo n3 s1.
       collect_nodes nw m (um_SourceChainID um) requestID (ValidatorSet cv) 0 {} n = (Inr V, n1) \<and>
       an_RegisterRequestID nw requestID (card V) n1 = (c, n2) \<and> an_Send nw outMsg V sourceSubnet n2 = (sentTo, n3) \<and>
       sa_cache s1 = sa_cache s \<and>
       (r = Done (Inr None) \<and> st' = (s1, m, acc) \<and> n' = n3 \<or>
        (\<exists>rs closed expected. an_Responses nw c n3 = ((rs, closed), n') \<and>
           collect_responses env sentTo requestID cv um quorum expected closed rs 0 (s1, m, acc) = (r, st'))))"
proof (cases "collect_nodes nw m (um_SourceChainID um) requestID (ValidatorSet cv) 0 {} n")
  case (Pair r1 n1)
  show ?thesis
  proof (cases r1)
    case (Inl e)
    with Pair assms show ?thesis by (simp add: query_attempt_def)
  next
    case (Inr V)
    obtain c n2 where reg: "an_RegisterRequestID nw requestID (card V) n1 = (c, n2)" by force
    obtain sentTo n3 where send: "an_Send nw outMsg V sourceSubnet n2 = (sentTo, n3)" by force
    let ?s1 = "s\<lparr>sa_metrics := (sa_metrics s)\<lparr>AppRequestCount := AppRequestCount (sa_metrics s) + 1,
      FailuresSendingToNode := FailuresSendingToNode (sa_metrics s) + card (V - sentTo)\<rparr>\<rparr>"
    have "r = Done (Inr None) \<and> st' = (?s1, m, acc) \<and> n' = n3 \<or>
        (\<exists>rs closed expected. an_Responses nw c n3 = ((rs, closed), n') \<and>
           collect_responses env sentTo requestID cv um quorum expected closed rs 0 (?s1, m, acc) = (r, st'))"
      using assms Pair Inr reg send
      by (auto simp: query_attempt_def Let_def split: if_splits prod.splits)
    moreover have "sa_cache ?s1 = sa_cache s" by simp
    ultimately show ?thesis
      using Pair Inr reg send by blast
  qed
qed

lemma queried_unsigned:
  "cv_ok cv \<Longrightarrow> n \<in> queried cv {i. map_of m i = None} \<Longrightarrow> i < length (ValidatorSet cv) \<Longrightarrow>
     n \<in> set (NodeIDs (ValidatorSet cv ! i)) \<Longrightarrow> i \<notin> fst ` set m"
  using queried_unique [of cv n "{i. map_of m i = None}" i] by (auto simp: map_of_eq_None_iff)

lemma cached_signatures_inv:
  assumes ctx: "agg_ctx env Ms Vs cv um" and c: "cache_verified env Ms Vs (sa_cache s)"
    and r: "cached_signatures um cv s = (r, s')"
  shows "cache_verified env Ms Vs (sa_cache s') \<and>
    (\<forall>m acc. r = Inr (m, acc) \<longrightarrow> sigs_ok env cv um m \<and> acc = signer_weight cv m)"
proof -
  obtain got c1 where g: "Cache_Get (sa_cache s) (um_ID um) = (got, c1)" by force
  have c1: "cache_verified env Ms Vs c1"
    using c sigc.invar_get [of "sa_cache s" "um_ID um"] sigc.all_cached_get [of "sa_cache s" _ "um_ID um"] g
    unfolding cache_verified_def by auto
  have none: "sigs_ok env cv um []" "signer_weight cv [] = 0" by (simp_all add: sigs_ok_def signer_weight_def)
  show ?thesis
  proof (cases got)
    case None
    then show ?thesis using g r c1 none by (auto simp: cached_signatures_def)
  next
    case (Some sigs)
    have ver: "verifies env (PublicKey (ValidatorSet cv ! j)) um b"
      if "j < length (ValidatorSet cv)" "sigs (take PublicKeyLen (PublicKeyBytes (ValidatorSet cv ! j))) = Some b" for j b
    proof -
      have "verified_entry env Ms Vs (um_ID um) (take PublicKeyLen (PublicKeyBytes (ValidatorSet cv ! j))) b"
        using sigc.all_cachedD [of _ "sa_cache s" "um_ID um" sigs] c g Some that(2) unfolding cache_verified_def by auto
      then show ?thesis
        using verified_entry_use [of Ms Vs env um "ValidatorSet cv ! j" b] ctx nth_mem [OF that(1)] by (auto simp: agg_ctx_def)
    qed
    have "sigs_ok env cv um m \<and> acc = signer_weight cv m"
      if "load_cached sigs (ValidatorSet cv) 0 ([], 0) = Inr (m, acc)" for m acc
      using load_cached_inv [of sigs 0 cv "[]" 0 m acc env um] ver none that by simp
    then show ?thesis
      using g r c1 Some by (auto simp: cached_signatures_def Let_def split: sum.splits)
  qed
qed

context app_request_network
begin

lemma collect_nodes_invar:
  "invar n \<Longrightarrow> invar (snd (collect_nodes nw m chainID requestID vs i V n))"
proof (induction vs arbitrary: i V n)
  case (Cons v vs)
  then show ?case by (auto split: list.split simp: invar_request)
qed simp

lemma query_attempt_inv:
  fixes s :: "'c aggregator"
  assumes ctx: "agg_ctx env Ms Vs cv um" and n: "invar n" and inv: "agg_inv env Ms Vs cv um (s, m, acc)"
    and q: "query_attempt env nw cv um quorum requestID outMsg sourceSubnet (s, m, acc) n = (r, (s', m', acc'), n')"
  shows "invar n' \<and> agg_inv env Ms Vs cv um (s', m', acc') \<and>
    (\<forall>msg. r = Done (Inr (Some msg)) \<longrightarrow> signed_from env cv um quorum m' acc' msg)"
  using query_attempt_cases [OF q]
proof (elim disjE exE conjE)
  fix e assume "collect_nodes nw m (um_SourceChainID um) requestID (ValidatorSet cv) 0 {} n = (Inl e, n')"
    "r = Done (Inl e)" "(s', m', acc') = (s, m, acc)"
  then show ?thesis using collect_nodes_invar [OF n] inv by (metis snd_conv Pair_inject go_outcome.inject sum.distinct(1))
next
  fix V n1 c n2 sentTo n3 and s1 :: "'c aggregator"
  assume c: "collect_nodes nw m (um_SourceChainID um) requestID (ValidatorSet cv) 0 {} n = (Inr V, n1)"
    and reg: "an_RegisterRequestID nw requestID (card V) n1 = (c, n2)"
    and send: "an_Send nw outMsg V sourceSubnet n2 = (sentTo, n3)" and s1: "sa_cache s1 = sa_cache s"
  have n1: "invar n1" using collect_nodes_invar [OF n] c by (metis snd_conv)
  have n2: "invar n2" using invar_requestID [OF n1] reg by (metis snd_conv)
  have n3: "invar n3" using invar_send [OF n2] send by (metis snd_conv)
  have inv1: "agg_inv env Ms Vs cv um (s1, m, acc)" using inv s1 by (simp add: agg_inv_def)
  { assume "r = Done (Inr None)" "(s', m', acc') = (s1, m, acc)" "n' = n3"
    then show ?thesis using n3 inv1 by simp }
  { fix rs closed expected
    assume rsp: "an_Responses nw c n3 = ((rs, closed), n')"
      and col: "collect_responses env sentTo requestID cv um quorum expected closed rs 0 (s1, m, acc) = (r, s', m', acc')"
    have "cv_ok cv" using ctx by (simp add: agg_ctx_def)
    then have "sentTo \<subseteq> nodes_of cv {i. map_of m i = None}"
      using send_subset [OF n2, of outMsg V sourceSubnet] send collect_nodes_all [OF c]
        queried_nodes [of cv "{i. map_of m i = None}"] by auto
    then show ?thesis
      using collect_responses_inv [OF ctx _ inv1 col] invar_responses [OF n3, of c] rsp by auto }
qed

lemma query_attempts_inv:
  assumes ctx: "agg_ctx env Ms Vs cv um"
  shows "invar n \<Longrightarrow> agg_inv env Ms Vs cv um (s, m, acc) \<Longrightarrow>
    query_attempts env nw cv um quorum requestID outMsg sourceSubnet k (s, m, acc) n = (r, (s', m', acc'), n') \<Longrightarrow>
    invar n' \<and> agg_inv env Ms Vs cv um (s', m', acc') \<and>
    (\<forall>msg. r = Done (Inr msg) \<longrightarrow> signed_from env cv um quorum m' acc' msg)"
proof (induction k arbitrary: s m acc n)
  case (Suc k)
  obtain r1 s1 m1 acc1 n1 where q:
    "query_attempt env nw cv um quorum requestID outMsg sourceSubnet (s, m, acc) n = (r1, (s1, m1, acc1), n1)"
    by (metis prod_cases3)
  note inv = query_attempt_inv [OF ctx Suc.prems(1,2) q]
  show ?case
    using Suc.prems(3) inv Suc.IH [of n1 s1 m1 acc1]
    by (auto simp: q split: go_outcome.splits sum.splits option.splits)
qed auto

lemma request_signatures_inv:
  assumes ctx: "agg_ctx env Ms Vs cv um" and n: "invar n" and inv: "agg_inv env Ms Vs cv um (s, m, acc)"
    and r: "request_signatures env nw now um justification sourceSubnet quorum cv (s, m, acc) n = (r, (s', m', acc'), n')"
  shows "invar n' \<and> agg_inv env Ms Vs cv um (s', m', acc') \<and>
    (\<forall>msg. r = Done (Inr msg) \<longrightarrow> signed_from env cv um quorum m' acc' msg)"
proof -
  have inv': "agg_inv env Ms Vs cv um (s\<lparr>currentRequestID := x\<rparr>, m, acc)" for x
    using inv by (simp add: agg_inv_def)
  show ?thesis
    using r n inv inv' query_attempts_inv [OF ctx n inv']
    by (auto simp: request_signatures_def Let_def split: sum.splits)
qed

lemma sign_inv:
  assumes ctx: "agg_ctx env Ms Vs cv um" and n: "invar n" and c: "cache_verified env Ms Vs (sa_cache s)"
    and r: "sign_with_validators env nw now um justification sourceSubnet quorum cv s n = (r, (s', m', acc'), n')"
  shows "invar n' \<and> cache_verified env Ms Vs (sa_cache s') \<and>
    (\<forall>msg. r = Done (Inr msg) \<longrightarrow> sigs_ok env cv um m' \<and> signed_from env cv um quorum m' acc' msg)"
proof -
  obtain c1 s1 where c1: "cached_signatures um cv s = (c1, s1)" by force
  note cinv = cached_signatures_inv [OF ctx c c1]
  have order: "map_order_ok env" using ctx by (simp add: agg_ctx_def)
  show ?thesis
  proof (cases "\<exists>m acc. c1 = Inr (m, acc) \<and> aggregateIfSufficientWeight env um m acc cv quorum = Inr None")
    case False
    then show ?thesis
      using r n cinv aggregate_signed [OF order]
      by (auto simp: sign_with_validators_def c1 split: sum.splits option.splits)
  next
    case True
    then obtain m acc where m: "c1 = Inr (m, acc)" "aggregateIfSufficientWeight env um m acc cv quorum = Inr None" by blast
    let ?s2 = "if length m > 0 then s1\<lparr>sa_metrics := (sa_metrics s1)\<lparr>SignatureCacheMisses :=
        SignatureCacheMisses (sa_metrics s1) + (int (length (ValidatorSet cv)) - int (length m))\<rparr>\<rparr> else s1"
    have "agg_inv env Ms Vs cv um (?s2, m, acc)" using cinv m(1) by (simp add: agg_inv_def)
    moreover have "request_signatures env nw now um justification sourceSubnet quorum cv (?s2, m, acc) n = (r, (s', m', acc'), n')"
      using r m by (simp add: sign_with_validators_def c1 Let_def)
    ultimately have "invar n' \<and> agg_inv env Ms Vs cv um (s', m', acc') \<and>
        (\<forall>msg. r = Done (Inr msg) \<longrightarrow> signed_from env cv um quorum m' acc' msg)"
      by (rule request_signatures_inv [OF ctx n])
    then show ?thesis by (simp add: agg_inv_def)
  qed
qed

lemma getSubnetID_inv:
  assumes "invar n" and "getSubnetID nw b s n = (r, s', n')"
  shows "invar n' \<and> sa_cache s' = sa_cache s"
  using assms invar_subnet [OF assms(1), of b]
  by (auto simp: getSubnetID_def setSubnetID_def split: option.splits prod.splits sum.splits)

text \<open>How \<^verbatim>\<open>CreateSignedMessage\<close> gets to the aggregation proper.\<close>

lemma CreateSignedMessage_cases:
  fixes s :: "'c aggregator"
  assumes n: "invar n" and r: "CreateSignedMessage env nw now um justification subnet quorum s n = (r, s', n')"
  shows "(\<exists>e. r = Done (Inl e)) \<and> sa_cache s' = sa_cache s \<and> invar n' \<or>
    (\<exists>cv s1 n1 sourceSubnet m acc. cv_ok cv \<and> set (ValidatorSet cv) \<subseteq> Vs \<and> signing_set nw um subnet s n cv \<and>
       invar n1 \<and> sa_cache s1 = sa_cache s \<and>
       sign_with_validators env nw now um justification sourceSubnet quorum cv s1 n1 = (r, (s', m, acc), n'))"
proof -
  obtain g s1 n1 where g: "getSubnetID nw (um_SourceChainID um) s n = (g, s1, n1)" by (metis prod_cases3)
  note ginv = getSubnetID_inv [OF n g]
  show ?thesis
  proof (cases g)
    case (Inl e)
    then show ?thesis using r ginv by (auto simp: CreateSignedMessage_def g)
  next
    case (Inr sourceSubnet)
    let ?sub = "if subnet = 0 then sourceSubnet else subnet"
    obtain c n2 where c: "an_ConnectToCanonicalValidators nw ?sub n1 = (c, n2)" by force
    have n2: "invar n2" using invar_connect [of n1 ?sub] ginv c by simp
    show ?thesis
    proof (cases "\<exists>cv. c = Inr cv \<and>
        CheckStakeWeightPercentageExceedsThreshold (Some (uint (ConnectedWeight cv))) (TotalValidatorWeight cv) quorum")
      case True
      then obtain cv where cv: "c = Inr cv"
        "CheckStakeWeightPercentageExceedsThreshold (Some (uint (ConnectedWeight cv))) (TotalValidatorWeight cv) quorum" by blast
      obtain m acc where "sign_with_validators env nw now um justification sourceSubnet quorum cv s1 n2 = (r, (s', m, acc), n')"
        using r cv c unfolding CreateSignedMessage_def g Inr Let_def by (auto split: prod.splits)
      moreover have "cv_ok cv" "set (ValidatorSet cv) \<subseteq> Vs"
        using connect_ok [of n1 ?sub] connect_known [of n1 ?sub] ginv c cv(1) by auto
      moreover have "signing_set nw um subnet s n cv"
        unfolding signing_set_def using g Inr c cv(1) by blast
      ultimately show ?thesis using n2 ginv by blast
    next
      case False
      then show ?thesis
        using r c n2 ginv unfolding CreateSignedMessage_def g Inr Let_def
        by (auto split: sum.splits if_splits)
    qed
  qed
qed

lemma create_sound:
  fixes s :: "'c aggregator"
  assumes n: "invar n" and env: "map_order_ok env" "distinguished Ms Vs" "um \<in> Ms"
    and c: "cache_verified env Ms Vs (sa_cache s)"
    and r: "CreateSignedMessage env nw now um justification subnet quorum s n = (r, s', n')"
  shows "invar n' \<and> cache_verified env Ms Vs (sa_cache s') \<and>
    (\<forall>msg. r = Done (Inr msg) \<longrightarrow>
       (\<exists>cv m acc. cv_ok cv \<and> signing_set nw um subnet s n cv \<and> sigs_ok env cv um m \<and> signed_from env cv um quorum m acc msg))"
  using CreateSignedMessage_cases [OF n r]
proof (elim disjE exE conjE)
  fix cv sourceSubnet m acc n1 and s1 :: "'c aggregator"
  assume cv: "cv_ok cv" "set (ValidatorSet cv) \<subseteq> Vs" "signing_set nw um subnet s n cv"
    and n1: "invar n1" and s1: "sa_cache s1 = sa_cache s"
    and sg: "sign_with_validators env nw now um justification sourceSubnet quorum cv s1 n1 = (r, (s', m, acc), n')"
  have ctx: "agg_ctx env Ms Vs cv um" using env cv by (simp add: agg_ctx_def)
  have c1: "cache_verified env Ms Vs (sa_cache s1)" using c s1 by simp
  from sign_inv [OF ctx n1 c1 sg] cv show ?thesis by blast
qed (use c in auto)

end

context single_responses
begin

lemma query_attempt_weight:
  fixes s :: "'c aggregator"
  assumes ctx: "agg_ctx env Ms Vs cv um" and n: "invar n" and acc: "acc = signer_weight cv m"
    and q: "query_attempt env nw cv um quorum requestID outMsg sourceSubnet (s, m, acc) n = (Done (Inr x), (s', m', acc'), n')"
  shows "acc' = signer_weight cv m'"
  using query_attempt_cases [OF q]
proof (elim disjE exE conjE)
  fix V n1 c n2 sentTo n3 rs closed expected and s1 :: "'c aggregator"
  assume c: "collect_nodes nw m (um_SourceChainID um) requestID (ValidatorSet cv) 0 {} n = (Inr V, n1)"
    and reg: "an_RegisterRequestID nw requestID (card V) n1 = (c, n2)"
    and send: "an_Send nw outMsg V sourceSubnet n2 = (sentTo, n3)"
    and rsp: "an_Responses nw c n3 = ((rs, closed), n')"
    and col: "collect_responses env sentTo requestID cv um quorum expected closed rs 0 (s1, m, acc) = (Done (Inr x), s', m', acc')"
  have ok: "cv_ok cv" using ctx by (simp add: agg_ctx_def)
  have n1: "invar n1" using collect_nodes_invar [OF n] c by (metis snd_conv)
  have n2: "invar n2" using invar_requestID [OF n1] reg by (metis snd_conv)
  have sent: "sentTo \<subseteq> queried cv {i. map_of m i = None}"
    using send_subset [OF n2, of outMsg V sourceSubnet] send collect_nodes_all [OF c] by auto
  have "\<forall>p \<in> set rs. im_NodeID (snd p) \<in> sentTo \<longrightarrow> (\<forall>i < length (ValidatorSet cv).
       im_NodeID (snd p) \<in> set (NodeIDs (ValidatorSet cv ! i)) \<longrightarrow> i \<notin> fst ` set m)"
    using queried_unsigned [OF ok] sent by blast
  from collect_responses_weight [OF ok sent acc responses_once [OF n1 reg send rsp] this col] show ?thesis .
qed (use acc in auto)

lemma query_attempts_weight:
  assumes ctx: "agg_ctx env Ms Vs cv um"
  shows "invar n \<Longrightarrow> agg_inv env Ms Vs cv um (s, m, acc) \<Longrightarrow> acc = signer_weight cv m \<Longrightarrow>
    query_attempts env nw cv um quorum requestID outMsg sourceSubnet k (s, m, acc) n = (Done (Inr msg), (s', m', acc'), n') \<Longrightarrow>
    acc' = signer_weight cv m'"
proof (induction k arbitrary: s m acc n)
  case (Suc k)
  obtain r1 s1 m1 acc1 n1 where q:
    "query_attempt env nw cv um quorum requestID outMsg sourceSubnet (s, m, acc) n = (r1, (s1, m1, acc1), n1)"
    by (metis prod_cases3)
  note inv = query_attempt_inv [OF ctx Suc.prems(1,2) q]
  have w: "acc1 = signer_weight cv m1" if "r1 = Done (Inr x)" for x
    using query_attempt_weight [OF ctx Suc.prems(1,3) q [unfolded that]] .
  show ?case
    using Suc.prems(4) inv w Suc.IH [of n1 s1 m1 acc1]
    by (auto simp: q split: go_outcome.splits sum.splits option.splits)
qed auto

lemma request_signatures_weight:
  assumes ctx: "agg_ctx env Ms Vs cv um" and n: "invar n" and inv: "agg_inv env Ms Vs cv um (s, m, acc)"
    and acc: "acc = signer_weight cv m"
    and r: "request_signatures env nw now um justification sourceSubnet quorum cv (s, m, acc) n = (Done (Inr msg), (s', m', acc'), n')"
  shows "acc' = signer_weight cv m'"
proof -
  have inv': "agg_inv env Ms Vs cv um (s\<lparr>currentRequestID := x\<rparr>, m, acc)" for x
    using inv by (simp add: agg_inv_def)
  show ?thesis
    using r query_attempts_weight [OF ctx n inv' acc]
    by (auto simp: request_signatures_def Let_def split: sum.splits)
qed

lemma sign_weight:
  assumes ctx: "agg_ctx env Ms Vs cv um" and n: "invar n" and c: "cache_verified env Ms Vs (sa_cache s)"
    and r: "sign_with_validators env nw now um justification sourceSubnet quorum cv s n = (Done (Inr msg), (s', m', acc'), n')"
  shows "acc' = signer_weight cv m'"
proof -
  obtain c1 s1 where c1: "cached_signatures um cv s = (c1, s1)" by force
  note cinv = cached_signatures_inv [OF ctx c c1]
  show ?thesis
  proof (cases "\<exists>m acc. c1 = Inr (m, acc) \<and> aggregateIfSufficientWeight env um m acc cv quorum = Inr None")
    case False
    then show ?thesis
      using r cinv by (auto simp: sign_with_validators_def c1 split: sum.splits option.splits)
  next
    case True
    then obtain m acc where m: "c1 = Inr (m, acc)" "aggregateIfSufficientWeight env um m acc cv quorum = Inr None" by blast
    let ?s2 = "if length m > 0 then s1\<lparr>sa_metrics := (sa_metrics s1)\<lparr>SignatureCacheMisses :=
        SignatureCacheMisses (sa_metrics s1) + (int (length (ValidatorSet cv)) - int (length m))\<rparr>\<rparr> else s1"
    have "agg_inv env Ms Vs cv um (?s2, m, acc)" "acc = signer_weight cv m" using cinv m(1) by (auto simp: agg_inv_def)
    moreover have "request_signatures env nw now um justification sourceSubnet quorum cv (?s2, m, acc) n
        = (Done (Inr msg), (s', m', acc'), n')"
      using r m by (simp add: sign_with_validators_def c1 Let_def)
    ultimately show ?thesis
      by (rule request_signatures_weight [OF ctx n])
  qed
qed

lemma create_quorum:
  fixes s :: "'c aggregator"
  assumes n: "invar n" and env: "map_order_ok env" "distinguished Ms Vs" "um \<in> Ms"
    and c: "cache_verified env Ms Vs (sa_cache s)"
    and r: "CreateSignedMessage env nw now um justification subnet quorum s n = (Done (Inr msg), s', n')"
  shows "\<exists>cv m. cv_ok cv \<and> signing_set nw um subnet s n cv \<and> sigs_ok env cv um m \<and>
    signed_from env cv um quorum m (signer_weight cv m) msg"
  using CreateSignedMessage_cases [OF n r]
proof (elim disjE exE conjE)
  fix cv sourceSubnet m acc n1 and s1 :: "'c aggregator"
  assume cv: "cv_ok cv" "set (ValidatorSet cv) \<subseteq> Vs" "signing_set nw um subnet s n cv"
    and n1: "invar n1" and s1: "sa_cache s1 = sa_cache s"
    and sg: "sign_with_validators env nw now um justification sourceSubnet quorum cv s1 n1 = (Done (Inr msg), (s', m, acc), n')"
  have ctx: "agg_ctx env Ms Vs cv um" using env cv by (simp add: agg_ctx_def)
  have c1: "cache_verified env Ms Vs (sa_cache s1)" using c s1 by simp
  from sign_inv [OF ctx n1 c1 sg] sign_weight [OF ctx n1 c1 sg] cv show ?thesis by blast
qed auto

end

text \<open>A new cache of the LRU package is empty.\<close>

definition lru_fresh :: "'c lru_ops \<Rightarrow> bool" where
  "lru_fresh ops \<longleftrightarrow> (\<forall>n c k. lru_New ops n = Inr c \<longrightarrow> fst (lru_Get ops k c) = None)"

lemma NewSignatureAggregator_verified:
  assumes "lru_ok lru" and "lru_fresh lru" and "NewSignatureAggregator lru n etna random = Inr s"
  shows "cache_verified env Ms Vs (sa_cache s)"
proof -
  obtain c where "sa_cache s = \<lparr>cache_ops = lru, cache_signatures = c\<rparr>" "\<forall>k. fst (lru_Get lru k c) = None"
    using assms(2,3) by (auto simp: NewSignatureAggregator_def NewCache_def lru_fresh_def split: sum.splits if_splits)
  with assms(1) show ?thesis by (simp add: cache_verified_def cache_ok_def sigc.all_cached_def cached_def)
qed

section \<open>A concrete aggregation\<close>

text \<open>
  Signatures that carry their key in the first byte, a cache that evicts nothing, and a network of
  two validators with the given arrivals.
\<close>

definition sample_agg_env :: "(nat, bytes) agg_env" where
  "sample_agg_env =
     \<lparr>bls_SignatureFromBytes = \<lambda>b. if length b = 96 then Inr b else Inl (Errorf ''length''),
      bls_Verify = \<lambda>pk sig msg. sig \<noteq> [] \<and> hd sig = of_nat pk,
      bls_AggregateSignatures = \<lambda>sigs. case sigs of [] \<Rightarrow> Inl (Errorf ''no signatures'') | sig # _ \<Rightarrow> Inr sig,
      bls_SignatureToBytes = \<lambda>sig. sig,
      bits_Bytes = \<lambda>S. map (\<lambda>i. if i \<in> S then 1 else 0) [0, 1, 2],
      warp_NewMessage = \<lambda>um signers sig. Inr \<lparr>wm_Unsigned = um, wm_Signers = signers, wm_Signature = sig\<rparr>,
      proto_SignatureRequest = \<lambda>m j. Inr (m @ j), p2p_PrefixMessage = \<lambda>m. 1 # m,
      coreth_RequestToBytes = \<lambda>_. Inr [2], evm_RequestToBytes = \<lambda>_. Inr [3],
      proto_SignatureResponse = \<lambda>b. Inr b, codec_SignatureResponse = \<lambda>b. Inr b,
      creator_AppRequest = \<lambda>_ _ b. Inr b, map_order = \<lambda>m. m\<rparr>"

definition sample_lru :: "(ids_ID \<Rightarrow> signature_map option) lru_ops" where
  "sample_lru = \<lparr>lru_New = \<lambda>n. if n > 0 then Inr Map.empty else Inl (Errorf ''must provide a positive size''),
     lru_Get = \<lambda>k c. (c k, c), lru_Add = \<lambda>k v c. c(k \<mapsto> v)\<rparr>"

definition sample_aggregator :: "(ids_ID \<Rightarrow> signature_map option) aggregator" where
  "sample_aggregator =
     (case NewSignatureAggregator sample_lru 10 None 0 of Inr s \<Rightarrow> s)"

definition sample_um :: unsigned_message where
  "sample_um = \<lparr>um_NetworkID = 1, um_SourceChainID = 5, um_Payload = [7], um_ID = 99, um_Bytes = [7]\<rparr>"

definition sample_response :: "nodeID \<Rightarrow> u8 \<Rightarrow> int \<times> inbound_message" where
  "sample_response n k = (0, \<lparr>im_Op = AppResponseOp, im_NodeID = n, im_ChainID = Some 5, im_RequestID = Some 1,
     im_AppBytes = Some (replicate 96 k)\<rparr>)"

definition sample_network ::
  "nat warp_validator list \<Rightarrow> (int \<times> inbound_message) list \<Rightarrow> (nat, unit) network" where
  "sample_network vs ms = \<lparr>nt_env = sample_net vs 100, nt_tracked = [], nt_ops = sample_ops, nt_handler = sample_handler,
     nt_reached = [{1, 2}], nt_arrivals = [ms]\<rparr>"

lemma sample_map_order: "map_order_ok sample_agg_env"
  by (simp add: map_order_ok_def sample_agg_env_def)

lemma sample_lru_ok: "lru_ok sample_lru" "lru_fresh sample_lru"
  by (auto simp: lru_ok_def lru_fresh_def sample_lru_def split: if_splits)

lemma sample_cache_verified: "cache_verified env Ms Vs (sa_cache sample_aggregator)"
proof (rule NewSignatureAggregator_verified [OF sample_lru_ok])
  show "NewSignatureAggregator sample_lru 10 None 0 = Inr sample_aggregator"
    by (simp add: sample_aggregator_def NewSignatureAggregator_def NewCache_def sample_lru_def)
qed

lemma sample_distinguished:
  "distinguished {sample_um} {sample_vdr 1 60 [1], sample_vdr 2 40 [2]}"
proof -
  have "(of_nat 1 :: u8) \<noteq> of_nat 2" by simp
  then show ?thesis by (simp add: distinguished_def sample_vdr_def PublicKeyLen_def)
qed

lemma sample_network_single:
  "network_single {sample_vdr 1 60 [1], sample_vdr 2 40 [2]}
     (sample_network [sample_vdr 1 60 [1], sample_vdr 2 40 [2]] [sample_response 1 1, sample_response 2 2])"
  using sample_net_ok(1)
  by (simp add: network_single_def network_ok_def sample_network_def sample_response_def known_validators_def)
    (auto simp: sample_net_def)

lemma sample_create:
  "fst (CreateSignedMessage sample_agg_env network_ops 0 sample_um [] 0 67 sample_aggregator
     (sample_network [sample_vdr 1 60 [1], sample_vdr 2 40 [2]] [sample_response 1 1, sample_response 2 2]))
   = Done (Inr \<lparr>wm_Unsigned = sample_um, wm_Signers = [1, 1, 0], wm_Signature = replicate 96 1\<rparr>)"
  by code_simp

text \<open>What a success of \<^verbatim>\<open>CreateSignedMessage\<close> says on a network without repeated answers.\<close>

lemma quorum_of_signed:
  assumes "network_single Vs n" and "map_order_ok env" and "distinguished Ms Vs" and "um \<in> Ms"
    and "cache_verified env Ms Vs (sa_cache s)"
    and "CreateSignedMessage env network_ops now um justification subnet quorum s n = (Done (Inr msg), s', n')"
  shows "\<exists>cv m agg sourceSubnet. fst (getSubnetID network_ops (um_SourceChainID um) s n) = Inr sourceSubnet \<and>
    GetCurrentCanonicalValidatorSet (nt_env n) (if subnet = 0 then sourceSubnet else subnet) =
      Inr (ValidatorSet cv, TotalValidatorWeight cv) \<and>
    sigs_ok env cv um m \<and>
    uint (TotalValidatorWeight cv) * uint quorum \<le> signer_weight cv m * 100 \<and>
    aggregateSignatures env m = Inr (agg, fst ` set m) \<and>
    warp_NewMessage env um (bits_Bytes env (fst ` set m)) (take SignatureLen (bls_SignatureToBytes env agg)) = Inr msg"
proof -
  obtain cv m where m: "signing_set network_ops um subnet s n cv" "sigs_ok env cv um m"
      "signed_from env cv um quorum m (signer_weight cv m) msg"
    using srn.create_quorum [OF assms] by blast
  have "uint (TotalValidatorWeight cv) * uint quorum \<le> signer_weight cv m * 100 \<and>
    (\<exists>agg. aggregateSignatures env m = Inr (agg, fst ` set m) \<and>
      warp_NewMessage env um (bits_Bytes env (fst ` set m)) (take SignatureLen (bls_SignatureToBytes env agg)) = Inr msg)"
    using m(3) unfolding signed_from_def CheckStakeWeightPercentageExceedsThreshold_def CheckStakeWeightExceedsThreshold_def
    by (auto simp: not_less)
  with m(2) signing_set_network [OF m(1)] show ?thesis by blast
qed

section \<open>Properties\<close>

text \<open>
  C14: Whatever messages arrive, a signed message carries a signature aggregated from signatures
  that verify, each under the key of its validator in the canonical set of the signing subnet and
  over the message, the bit set names exactly these validators, and the cache keeps holding
  verified signatures only.
\<close>

theorem signed_message_sound:
  assumes "network_ok Vs n" and "map_order_ok env" and "distinguished Ms Vs" and "um \<in> Ms"
    and "cache_verified env Ms Vs (sa_cache s)"
    and "CreateSignedMessage env network_ops now um justification subnet quorum s n = (Done (Inr msg), s', n')"
  shows "cache_verified env Ms Vs (sa_cache s') \<and>
    (\<exists>cv m agg sourceSubnet. fst (getSubnetID network_ops (um_SourceChainID um) s n) = Inr sourceSubnet \<and>
       GetCurrentCanonicalValidatorSet (nt_env n) (if subnet = 0 then sourceSubnet else subnet) =
         Inr (ValidatorSet cv, TotalValidatorWeight cv) \<and>
       sigs_ok env cv um m \<and> aggregateSignatures env m = Inr (agg, fst ` set m) \<and>
       warp_NewMessage env um (bits_Bytes env (fst ` set m)) (take SignatureLen (bls_SignatureToBytes env agg)) = Inr msg)"
proof -
  obtain cv m acc where m: "signing_set network_ops um subnet s n cv" "sigs_ok env cv um m" "signed_from env cv um quorum m acc msg"
    and c: "cache_verified env Ms Vs (sa_cache s')"
    using arn.create_sound [OF assms] by blast
  from m(3) obtain agg where "aggregateSignatures env m = Inr (agg, fst ` set m)"
      "warp_NewMessage env um (bits_Bytes env (fst ` set m)) (take SignatureLen (bls_SignatureToBytes env agg)) = Inr msg"
    by (auto simp: signed_from_def)
  with m(2) c signing_set_network [OF m(1)] show ?thesis by blast
qed

theorem signed_message_sound_witness:
  "\<exists>cv m. sigs_ok sample_agg_env cv sample_um m \<and> bits_Bytes sample_agg_env (fst ` set m) = [1, 1, 0]"
proof -
  let ?n = "sample_network [sample_vdr 1 60 [1], sample_vdr 2 40 [2]] [sample_response 1 1, sample_response 2 2]"
  let ?msg = "\<lparr>wm_Unsigned = sample_um, wm_Signers = [1, 1, 0], wm_Signature = replicate 96 1\<rparr>"
  obtain s' n' where r: "CreateSignedMessage sample_agg_env network_ops 0 sample_um [] 0 67 sample_aggregator ?n
      = (Done (Inr ?msg), s', n')"
    using sample_create by (metis prod.collapse)
  from signed_message_sound [OF network_single_ok [OF sample_network_single] sample_map_order sample_distinguished
      insertI1 sample_cache_verified r]
  obtain cv m agg where m: "sigs_ok sample_agg_env cv sample_um m"
      "warp_NewMessage sample_agg_env sample_um (bits_Bytes sample_agg_env (fst ` set m))
         (take SignatureLen (bls_SignatureToBytes sample_agg_env agg)) = Inr ?msg"
    by blast
  then have "bits_Bytes sample_agg_env (fst ` set m) = [1, 1, 0]"
    by (simp add: sample_agg_env_def)
  with m(1) show ?thesis by blast
qed

text \<open>
  C13: When no node answers a request twice, the stake of the validators in the bit set passes the
  quorum: it is at least the quorum percentage of the total weight of the canonical validator set
  of the signing subnet.
\<close>

theorem signed_message_quorum:
  assumes "network_single Vs n" and "map_order_ok env" and "distinguished Ms Vs" and "um \<in> Ms"
    and "cache_verified env Ms Vs (sa_cache s)"
    and "CreateSignedMessage env network_ops now um justification subnet quorum s n = (Done (Inr msg), s', n')"
  shows "\<exists>cv m agg sourceSubnet. fst (getSubnetID network_ops (um_SourceChainID um) s n) = Inr sourceSubnet \<and>
    GetCurrentCanonicalValidatorSet (nt_env n) (if subnet = 0 then sourceSubnet else subnet) =
      Inr (ValidatorSet cv, TotalValidatorWeight cv) \<and>
    sigs_ok env cv um m \<and>
    uint (TotalValidatorWeight cv) * uint quorum \<le> signer_weight cv m * 100 \<and>
    aggregateSignatures env m = Inr (agg, fst ` set m) \<and>
    warp_NewMessage env um (bits_Bytes env (fst ` set m)) (take SignatureLen (bls_SignatureToBytes env agg)) = Inr msg"
  by (rule quorum_of_signed [OF assms])

theorem signed_message_quorum_witness:
  "\<exists>cv m. sigs_ok sample_agg_env cv sample_um m \<and> uint (TotalValidatorWeight cv) * 67 \<le> signer_weight cv m * 100 \<and>
     bits_Bytes sample_agg_env (fst ` set m) = [1, 1, 0]"
proof -
  let ?n = "sample_network [sample_vdr 1 60 [1], sample_vdr 2 40 [2]] [sample_response 1 1, sample_response 2 2]"
  let ?msg = "\<lparr>wm_Unsigned = sample_um, wm_Signers = [1, 1, 0], wm_Signature = replicate 96 1\<rparr>"
  obtain s' n' where r: "CreateSignedMessage sample_agg_env network_ops 0 sample_um [] 0 67 sample_aggregator ?n
      = (Done (Inr ?msg), s', n')"
    using sample_create by (metis prod.collapse)
  from signed_message_quorum [OF sample_network_single sample_map_order sample_distinguished
      insertI1 sample_cache_verified r]
  obtain cv m agg where m: "sigs_ok sample_agg_env cv sample_um m"
      "uint (TotalValidatorWeight cv) * uint (67 :: u64) \<le> signer_weight cv m * 100"
      "warp_NewMessage sample_agg_env sample_um (bits_Bytes sample_agg_env (fst ` set m))
         (take SignatureLen (bls_SignatureToBytes sample_agg_env agg)) = Inr ?msg"
    by blast
  then have "bits_Bytes sample_agg_env (fst ` set m) = [1, 1, 0]"
    by (simp add: sample_agg_env_def)
  with m(1,2) show ?thesis by auto
qed

text \<open>
  A node that answers the same request twice is counted twice: a message is signed with a
  quorum of 67 percent although its only signer has 40 percent of the stake.
\<close>

theorem repeated_response_counted_twice:
  "\<exists>s' n'. CreateSignedMessage sample_agg_env network_ops 0 sample_um [] 0 67 sample_aggregator
     (sample_network [sample_vdr 1 40 [1], sample_vdr 2 60 [2]] [sample_response 1 1, sample_response 1 1])
   = (Done (Inr \<lparr>wm_Unsigned = sample_um, wm_Signers = bits_Bytes sample_agg_env {0}, wm_Signature = replicate 96 1\<rparr>), s', n')"
proof -
  have "fst (CreateSignedMessage sample_agg_env network_ops 0 sample_um [] 0 67 sample_aggregator
     (sample_network [sample_vdr 1 40 [1], sample_vdr 2 60 [2]] [sample_response 1 1, sample_response 1 1]))
   = Done (Inr \<lparr>wm_Unsigned = sample_um, wm_Signers = bits_Bytes sample_agg_env {0}, wm_Signature = replicate 96 1\<rparr>)"
    by code_simp
  then show ?thesis by (metis prod.collapse)
qed

text \<open>
  After Etna, a response whose signature field is shorter than a BLS signature makes the
  handling of responses panic: the check of the length comes after the conversion.
\<close>

theorem short_signature_panics:
  assumes "etnaActivated s now" and "im_Op response = AppResponseOp" and "im_AppBytes response = Some b"
    and "proto_SignatureResponse env b = Inr sig" and "length sig < SignatureLen"
    and "im_NodeID response \<in> sentTo" and "im_RequestID response = Some requestID"
    and "GetValidator cv (im_NodeID response) = Inr vi"
  shows "is_panic (fst (handleResponse env now response sentTo requestID cv um quorum (s, m, acc)))"
  using assms by (cases vi) (simp add: handleResponse_def isValidSignatureResponse_def unmarshalResponse_def to_array_def Let_def)

theorem short_signature_panics_witness:
  "is_panic (fst (handleResponse sample_agg_env 10
      \<lparr>im_Op = AppResponseOp, im_NodeID = 1, im_ChainID = Some 5, im_RequestID = Some 1, im_AppBytes = Some [1, 2, 3]\<rparr>
      {1} 1 \<lparr>ConnectedWeight = 60, TotalValidatorWeight = 60, ValidatorSet = [sample_vdr 1 60 [1]], NodeValidatorIndexMap = [1 \<mapsto> 0]\<rparr>
      sample_um 67 (sample_aggregator\<lparr>etnaTime := Some 5\<rparr>, [], 0)))"
  by (rule short_signature_panics [where b = "[1, 2, 3]" and sig = "[1, 2, 3]" and vi = "(sample_vdr 1 60 [1], 0)"])
    (simp_all add: etnaActivated_def sample_agg_env_def SignatureLen_def GetValidator_def index_of_def)

end
