(* ===== verification/Warp_Types.thy ===== *)
theory Warp_Types
  imports Signature_Aggregator
begin

text \<open>
  \<^verbatim>\<open>types/types.go\<close>: the Warp messages in the logs of a block. The bloom filter of the header
  decides whether the logs are fetched at all; each log is unpacked into the sender and the
  unsigned message.
\<close>

section \<open>Logs and blocks\<close>

record eth_log =
  log_Topics :: "hash list"
  log_Data :: bytes

record eth_header =
  hd_Number :: int
  hd_Bloom :: bytes

text \<open>An empty list of topics in a position matches every topic.\<close>

record filter_query =
  fq_Topics :: "hash list list"
  fq_Addresses :: "address list"
  fq_FromBlock :: int
  fq_ToBlock :: int

record warp_message_info =
  SourceAddress :: address
  UnsignedMessage :: unsigned_message

record warp_block_info =
  BlockNumber :: u64
  Messages :: "warp_message_info list"

text \<open>The Warp precompile of subnet-evm, the parser of avalanchego and the bloom filter.\<close>

record types_env =
  te_WarpPrecompileLogFilter :: hash
  te_ContractAddress :: address
  te_BloomTest :: "bytes \<Rightarrow> hash \<Rightarrow> bool"
  te_UnpackSendWarpEventDataToMessage :: "bytes \<Rightarrow> unsigned_message result"
  te_ParseUnsignedMessage :: "bytes \<Rightarrow> unsigned_message result"

text \<open>
  The context of a retried call: whether it is done after each attempt, and its error then. The
  client answers each attempt on its own.
\<close>

record retry_ctx =
  ctx_Done :: "nat \<Rightarrow> bool"
  ctx_Err :: error

definition ErrInvalidLog :: error where
  "ErrInvalidLog = Sentinel ''invalid warp message log''"

definition UnpackWarpMessage :: "types_env \<Rightarrow> bytes \<Rightarrow> unsigned_message result" where
  "UnpackWarpMessage env unsignedMsgBytes =
     (case te_UnpackSendWarpEventDataToMessage env unsignedMsgBytes of
        Inr unsignedMsg \<Rightarrow> Inr unsignedMsg
      | Inl e \<Rightarrow>
          (case te_ParseUnsignedMessage env unsignedMsgBytes of
             Inl standaloneErr \<Rightarrow> Inl (Join e standaloneErr)
           | Inr unsignedMsg \<Rightarrow> Inr unsignedMsg))"

text \<open>\<^verbatim>\<open>common.BytesToAddress\<close> keeps the last 20 bytes of the topic.\<close>

definition NewWarpMessageInfo :: "types_env \<Rightarrow> eth_log \<Rightarrow> warp_message_info result" where
  "NewWarpMessageInfo env log =
     (if length (log_Topics log) \<noteq> 3 then Inl ErrInvalidLog
      else if log_Topics log ! 0 \<noteq> te_WarpPrecompileLogFilter env then Inl ErrInvalidLog
      else case UnpackWarpMessage env (log_Data log) of
          Inl e \<Rightarrow> Inl e
        | Inr unsignedMsg \<Rightarrow> Inr \<lparr>SourceAddress = ucast (log_Topics log ! 1), UnsignedMessage = unsignedMsg\<rparr>)"

fun unpack_logs :: "types_env \<Rightarrow> eth_log list \<Rightarrow> warp_message_info list result" where
  "unpack_logs env [] = Inr []"
| "unpack_logs env (log # logs) =
     (case NewWarpMessageInfo env log of
        Inl e \<Rightarrow> Inl e
      | Inr warpLog \<Rightarrow> (case unpack_logs env logs of Inl e \<Rightarrow> Inl e | Inr ms \<Rightarrow> Inr (warpLog # ms)))"

definition warp_query :: "types_env \<Rightarrow> eth_header \<Rightarrow> filter_query" where
  "warp_query env header =
     \<lparr>fq_Topics = [[te_WarpPrecompileLogFilter env]], fq_Addresses = [te_ContractAddress env],
      fq_FromBlock = hd_Number header, fq_ToBlock = hd_Number header\<rparr>"

text \<open>
  The result is \<open>None\<close> when the retried call never returns. \<^verbatim>\<open>big.Int.Uint64\<close> keeps the low 64
  bits.
\<close>

definition NewWarpBlockInfo ::
  "types_env \<Rightarrow> retry_ctx \<Rightarrow> (nat \<Rightarrow> filter_query \<Rightarrow> eth_log list result) \<Rightarrow> eth_header \<Rightarrow> warp_block_info result option" where
  "NewWarpBlockInfo env ctx filterLogs header =
     (let logs =
        (if te_BloomTest env (hd_Bloom header) (te_WarpPrecompileLogFilter env)
         then CallWithRetry (ctx_Done ctx) (ctx_Err ctx) (\<lambda>i. filterLogs i (warp_query env header))
         else Some (Inr []))
      in case logs of
           None \<Rightarrow> None
         | Some (Inl e) \<Rightarrow> Some (Inl e)
         | Some (Inr ls) \<Rightarrow>
             Some (case unpack_logs env ls of
                Inl e \<Rightarrow> Inl e
              | Inr messages \<Rightarrow> Inr \<lparr>BlockNumber = word_of_int \<bar>hd_Number header\<bar>, Messages = messages\<rparr>))"

section \<open>Unpacking\<close>

lemma unpack_logs_Inr_iff:
  "unpack_logs env logs = Inr ms \<longleftrightarrow> list_all2 (\<lambda>l m. NewWarpMessageInfo env l = Inr m) logs ms"
proof (induction logs arbitrary: ms)
  case (Cons l ls)
  show ?case
  proof (cases "unpack_logs env ls")
    case (Inl e)
    with Cons.IH show ?thesis by (auto simp: list_all2_Cons1 split: sum.splits)
  next
    case (Inr ms')
    then have "list_all2 (\<lambda>l m. NewWarpMessageInfo env l = Inr m) ls zs \<longleftrightarrow> zs = ms'" for zs
      using Cons.IH [of zs] by auto
    with Inr show ?thesis by (auto simp: list_all2_Cons1 split: sum.splits)
  qed
qed auto

lemma unpack_logs_Inl_iff:
  "(\<exists>e. unpack_logs env logs = Inl e) \<longleftrightarrow> (\<exists>l \<in> set logs. \<exists>e. NewWarpMessageInfo env l = Inl e)"
  by (induction logs) (auto split: sum.splits)

lemma no_bloom_no_query:
  assumes "\<not> te_BloomTest env (hd_Bloom header) (te_WarpPrecompileLogFilter env)"
  shows "NewWarpBlockInfo env ctx filterLogs header =
    Some (Inr \<lparr>BlockNumber = word_of_int \<bar>hd_Number header\<bar>, Messages = []\<rparr>)"
  using assms by (simp add: NewWarpBlockInfo_def)

end
