(* ===== verification/Application_Relayer.thy ===== *)
theory Application_Relayer
  imports Checkpoint Relayer_ID Warp_Types
begin

text \<open>
  \<^verbatim>\<open>relayer/application_relayer.go\<close>: an application relayer takes the messages of one route in one
  block, has each signed and sent, and stages the height of the block when all of them are done.
  The handlers of a block run concurrently; a run of \<^verbatim>\<open>ProcessMessage\<close> is one step here, and the
  handlers are given in the order in which they run. The destination chains are a state \<open>'w\<close> that
  the message handlers act on.
\<close>

section \<open>The interface of message handlers\<close>

text \<open>\<^verbatim>\<open>messages/message_handler.go\<close>; the routing information is source, sender, destination, address.\<close>

record ('dc, 'w) message_handler =
  mh_ShouldSendMessage :: "'dc \<Rightarrow> 'w \<Rightarrow> bool result \<times> 'w"
  mh_SendMessage :: "warp_message \<Rightarrow> 'dc \<Rightarrow> 'w \<Rightarrow> hash result go_outcome \<times> 'w"
  mh_GetMessageRoutingInfo :: "(ids_ID \<times> address \<times> ids_ID \<times> address) result"
  mh_GetUnsignedMessage :: unsigned_message

section \<open>The relayer\<close>

record 'dc application_relayer =
  ar_sourceBlockchain :: source_blockchain
  ar_signingSubnetID :: ids_ID
  ar_destinationClient :: 'dc
  ar_relayerID :: relayer_id
  ar_warpQuorum :: warp_quorum
  ar_checkpointManager :: checkpoint_manager
  ar_sourceWarpSignatureClient :: "api_config option"

text \<open>
  The counters and the latency last measured, by destination chain, source chain and source
  subnet, failures also by reason.
\<close>

record relay_metrics =
  successfulRelayMessageCount :: "ids_ID \<times> ids_ID \<times> ids_ID \<Rightarrow> nat"
  failedRelayMessageCount :: "(ids_ID \<times> ids_ID \<times> ids_ID) \<times> string \<Rightarrow> nat"
  fetchSignatureRPCCount :: "ids_ID \<times> ids_ID \<times> ids_ID \<Rightarrow> nat"
  fetchSignatureAppRequestCount :: "ids_ID \<times> ids_ID \<times> ids_ID \<Rightarrow> nat"
  createSignedMessageLatencyMS :: "ids_ID \<times> ids_ID \<times> ids_ID \<Rightarrow> int"

text \<open>
  What a relayer acts on: the shared aggregator, the network, the destination chains and the
  metrics.
\<close>

record ('c, 'n, 'w) relay_state =
  rs_aggregator :: "'c aggregator"
  rs_network :: 'n
  rs_world :: 'w
  rs_metrics :: relay_metrics

text \<open>\<open>re_latency\<close> is the time, in milliseconds, that getting the signed message of a message took.\<close>

record ('pk, 'sig, 'n) relay_env =
  re_agg :: "('pk, 'sig) agg_env"
  re_network :: "('pk, 'n) app_network"
  re_CallContext :: "api_config \<Rightarrow> ids_ID \<Rightarrow> u64 \<Rightarrow> string \<Rightarrow> 'n \<Rightarrow> bytes result \<times> 'n"
  re_ParseMessage :: "bytes \<Rightarrow> warp_message result"
  re_ids :: ids_env
  re_latency :: "unsigned_message \<Rightarrow> int"

definition errFailedToGetAggSig :: error where
  "errFailedToGetAggSig = Sentinel ''failed to get aggregate signature from node endpoint''"

text \<open>Dialling the Warp API is the argument \<open>dial\<close>.\<close>

definition NewApplicationRelayer ::
  "cfg_env \<Rightarrow> (api_config \<Rightarrow> error option) \<Rightarrow> relayer_id \<Rightarrow> 'dc \<Rightarrow> source_blockchain \<Rightarrow> checkpoint_manager
     \<Rightarrow> relayer_config \<Rightarrow> 'dc application_relayer result" where
  "NewApplicationRelayer env dial relayerID destinationClient sourceBlockchain checkpointManager cfg =
     (case GetWarpQuorum env cfg (DestinationBlockchainID relayerID) of
        Inl e \<Rightarrow> Inl e
      | Inr quorum \<Rightarrow>
          (let signingSubnet =
                 (if sb_subnetID sourceBlockchain = PrimaryNetworkID
                  then Config_GetSubnetID cfg (DestinationBlockchainID relayerID)
                  else sb_subnetID sourceBlockchain);
               ar = \<lambda>warpClient. \<lparr>ar_sourceBlockchain = sourceBlockchain, ar_signingSubnetID = signingSubnet,
                 ar_destinationClient = destinationClient, ar_relayerID = relayerID, ar_warpQuorum = quorum,
                 ar_checkpointManager = checkpointManager, ar_sourceWarpSignatureClient = warpClient\<rparr>
           in if \<not> sb_useAppRequestNetwork sourceBlockchain then
                (case dial (sb_WarpAPIEndpoint sourceBlockchain) of
                   Some e \<Rightarrow> Inl e
                 | None \<Rightarrow> Inr (ar (Some (sb_WarpAPIEndpoint sourceBlockchain))))
              else Inr (ar None)))"

section \<open>Metrics\<close>

definition metric_labels :: "'dc application_relayer \<Rightarrow> ids_ID \<times> ids_ID \<times> ids_ID" where
  "metric_labels r = (DestinationBlockchainID (ar_relayerID r), sb_blockchainID (ar_sourceBlockchain r),
     sb_subnetID (ar_sourceBlockchain r))"

definition counter_Inc :: "('l \<Rightarrow> nat) \<Rightarrow> 'l \<Rightarrow> 'l \<Rightarrow> nat" where
  "counter_Inc c l = c(l := Suc (c l))"

definition incSuccessfulRelayMessageCount ::
  "'dc application_relayer \<Rightarrow> ('c, 'n, 'w) relay_state \<Rightarrow> ('c, 'n, 'w) relay_state" where
  "incSuccessfulRelayMessageCount r st = st\<lparr>rs_metrics := (rs_metrics st)\<lparr>successfulRelayMessageCount :=
     counter_Inc (successfulRelayMessageCount (rs_metrics st)) (metric_labels r)\<rparr>\<rparr>"

definition incFailedRelayMessageCount ::
  "'dc application_relayer \<Rightarrow> string \<Rightarrow> ('c, 'n, 'w) relay_state \<Rightarrow> ('c, 'n, 'w) relay_state" where
  "incFailedRelayMessageCount r failureReason st = st\<lparr>rs_metrics := (rs_metrics st)\<lparr>failedRelayMessageCount :=
     counter_Inc (failedRelayMessageCount (rs_metrics st)) (metric_labels r, failureReason)\<rparr>\<rparr>"

definition incFetchSignatureRPCCount ::
  "'dc application_relayer \<Rightarrow> ('c, 'n, 'w) relay_state \<Rightarrow> ('c, 'n, 'w) relay_state" where
  "incFetchSignatureRPCCount r st = st\<lparr>rs_metrics := (rs_metrics st)\<lparr>fetchSignatureRPCCount :=
     counter_Inc (fetchSignatureRPCCount (rs_metrics st)) (metric_labels r)\<rparr>\<rparr>"

definition incFetchSignatureAppRequestCount ::
  "'dc application_relayer \<Rightarrow> ('c, 'n, 'w) relay_state \<Rightarrow> ('c, 'n, 'w) relay_state" where
  "incFetchSignatureAppRequestCount r st = st\<lparr>rs_metrics := (rs_metrics st)\<lparr>fetchSignatureAppRequestCount :=
     counter_Inc (fetchSignatureAppRequestCount (rs_metrics st)) (metric_labels r)\<rparr>\<rparr>"

definition setCreateSignedMessageLatencyMS ::
  "'dc application_relayer \<Rightarrow> int \<Rightarrow> ('c, 'n, 'w) relay_state \<Rightarrow> ('c, 'n, 'w) relay_state" where
  "setCreateSignedMessageLatencyMS r latency st = st\<lparr>rs_metrics := (rs_metrics st)\<lparr>createSignedMessageLatencyMS :=
     (createSignedMessageLatencyMS (rs_metrics st))(metric_labels r := latency)\<rparr>\<rparr>"

lemmas [go_simps] = incSuccessfulRelayMessageCount_def incFailedRelayMessageCount_def
  incFetchSignatureRPCCount_def incFetchSignatureAppRequestCount_def setCreateSignedMessageLatencyMS_def

lemma rs_latency [simp]:
  "rs_aggregator (setCreateSignedMessageLatencyMS r latency st) = rs_aggregator st" "rs_network (setCreateSignedMessageLatencyMS r latency st) = rs_network st"
  "rs_world (setCreateSignedMessageLatencyMS r latency st) = rs_world st"
  by (simp_all add: setCreateSignedMessageLatencyMS_def)

section \<open>Relaying a message\<close>

text \<open>The Warp API is asked up to \<open>k\<close> more times.\<close>

fun query_api ::
  "('pk, 'sig, 'n) relay_env \<Rightarrow> 'dc application_relayer \<Rightarrow> api_config \<Rightarrow> unsigned_message \<Rightarrow> nat \<Rightarrow> 'n
     \<Rightarrow> warp_message result \<times> 'n" where
  "query_api env r client um 0 n = (Inl errFailedToGetAggSig, n)"
| "query_api env r client um (Suc k) n =
     (case re_CallContext env client (um_ID um) (QuorumNumerator (ar_warpQuorum r))
             (ids_String (re_ids env) (ar_signingSubnetID r)) n of
        (Inr signedWarpMessageBytes, n') \<Rightarrow> (re_ParseMessage env signedWarpMessageBytes, n')
      | (Inl e, n') \<Rightarrow> query_api env r client um k n')"

text \<open>\<^verbatim>\<open>maxRelayerQueryAttempts\<close> is 5 in this package too.\<close>

definition createSignedMessage ::
  "('pk, 'sig, 'n) relay_env \<Rightarrow> 'dc application_relayer \<Rightarrow> api_config \<Rightarrow> unsigned_message \<Rightarrow> 'n \<Rightarrow> warp_message result \<times> 'n" where
  "createSignedMessage env r client um n = query_api env r client um 5 n"

text \<open>The signed message: from the Warp API when the relayer has its client, else from the aggregator.\<close>

definition fetch_signed_message ::
  "('pk, 'sig, 'n) relay_env \<Rightarrow> int \<Rightarrow> 'dc application_relayer \<Rightarrow> unsigned_message \<Rightarrow> ('c, 'n, 'w) relay_state
     \<Rightarrow> warp_message result go_outcome \<times> ('c, 'n, 'w) relay_state" where
  "fetch_signed_message env now r um st =
     (case ar_sourceWarpSignatureClient r of
        None \<Rightarrow>
          (case CreateSignedMessage (re_agg env) (re_network env) now um [] (ar_signingSubnetID r)
                  (QuorumNumerator (ar_warpQuorum r)) (rs_aggregator st) (rs_network st) of
             (Done res, s, n) \<Rightarrow>
               (let st' = incFetchSignatureAppRequestCount r (st\<lparr>rs_aggregator := s, rs_network := n\<rparr>)
                in (Done res,
                    case res of
                      Inl e \<Rightarrow> incFailedRelayMessageCount r ''failed to create signed warp message via AppRequest network'' st'
                    | Inr _ \<Rightarrow> st'))
           | (Blocked, s, n) \<Rightarrow> (Blocked, st\<lparr>rs_aggregator := s, rs_network := n\<rparr>)
           | (Panicked, s, n) \<Rightarrow> (Panicked, st\<lparr>rs_aggregator := s, rs_network := n\<rparr>))
      | Some client \<Rightarrow>
          (case createSignedMessage env r client um (rs_network st) of
             (res, n) \<Rightarrow>
               (let st' = (incFetchSignatureRPCCount r st)\<lparr>rs_network := n\<rparr>
                in (Done res,
                    case res of
                      Inl e \<Rightarrow> incFailedRelayMessageCount r ''failed to create signed warp message via RPC'' st'
                    | Inr _ \<Rightarrow> st'))))"

definition ProcessMessage ::
  "('pk, 'sig, 'n) relay_env \<Rightarrow> int \<Rightarrow> 'dc application_relayer \<Rightarrow> ('dc, 'w) message_handler \<Rightarrow> ('c, 'n, 'w) relay_state
     \<Rightarrow> hash result go_outcome \<times> ('c, 'n, 'w) relay_state" where
  "ProcessMessage env now r handler st =
     (case mh_ShouldSendMessage handler (ar_destinationClient r) (rs_world st) of
        (Inl e, w) \<Rightarrow>
          (Done (Inl e), incFailedRelayMessageCount r ''failed to check if message should be sent'' (st\<lparr>rs_world := w\<rparr>))
      | (Inr shouldSend, w) \<Rightarrow>
          if \<not> shouldSend then (Done (Inr 0), st\<lparr>rs_world := w\<rparr>)
          else (case fetch_signed_message env now r (mh_GetUnsignedMessage handler) (st\<lparr>rs_world := w\<rparr>) of
              (Blocked, st1) \<Rightarrow> (Blocked, st1)
            | (Panicked, st1) \<Rightarrow> (Panicked, st1)
            | (Done (Inl e), st1) \<Rightarrow> (Done (Inl e), st1)
            | (Done (Inr signedMessage), st1) \<Rightarrow>
                (let st2 = setCreateSignedMessageLatencyMS r (re_latency env (mh_GetUnsignedMessage handler)) st1
                 in case mh_SendMessage handler signedMessage (ar_destinationClient r) (rs_world st2) of
                      (Blocked, w2) \<Rightarrow> (Blocked, st2\<lparr>rs_world := w2\<rparr>)
                    | (Panicked, w2) \<Rightarrow> (Panicked, st2\<lparr>rs_world := w2\<rparr>)
                    | (Done (Inl e), w2) \<Rightarrow>
                        (Done (Inl e), incFailedRelayMessageCount r ''failed to send warp message'' (st2\<lparr>rs_world := w2\<rparr>))
                    | (Done (Inr txHash), w2) \<Rightarrow>
                        (Done (Inr txHash), incSuccessfulRelayMessageCount r (st2\<lparr>rs_world := w2\<rparr>)))))"

definition RelayerID :: "'dc application_relayer \<Rightarrow> relayer_id" where
  "RelayerID r = ar_relayerID r"

section \<open>Relaying a block\<close>

text \<open>
  The handlers of the group, each at a time of its own. \<^verbatim>\<open>errgroup\<close> runs all of them, waits for
  all, and keeps the first error. A handler that never returns keeps the group waiting, a panic
  ends the process.
\<close>

fun process_all ::
  "('pk, 'sig, 'n) relay_env \<Rightarrow> 'dc application_relayer \<Rightarrow> (int \<times> ('dc, 'w) message_handler) list \<Rightarrow> ('c, 'n, 'w) relay_state
     \<Rightarrow> hash result go_outcome list \<times> ('c, 'n, 'w) relay_state" where
  "process_all env r [] st = ([], st)"
| "process_all env r ((now, handler) # handlers) st =
     (case ProcessMessage env now r handler st of
        (res, st1) \<Rightarrow> (case process_all env r handlers st1 of (rest, st2) \<Rightarrow> (res # rest, st2)))"

fun outcome_panics :: "'a result go_outcome \<Rightarrow> bool" where
  "outcome_panics Blocked = False"
| "outcome_panics Panicked = True"
| "outcome_panics (Done res) = is_panic res"

fun outcome_error :: "'a result go_outcome \<Rightarrow> error option" where
  "outcome_error (Done (Inl e)) = Some e"
| "outcome_error res = None"

fun outcome_ok :: "'a result go_outcome \<Rightarrow> bool" where
  "outcome_ok (Done (Inr _)) = True"
| "outcome_ok res = False"

definition eg_Wait :: "'a result go_outcome list \<Rightarrow> error option go_outcome" where
  "eg_Wait results =
     (if list_ex outcome_panics results then Panicked
      else if Blocked \<in> set results then Blocked
      else Done (first_some (map outcome_error results)))"

text \<open>
  The outcome is the error sent to the error channel, if any; the relayer is returned with its
  checkpoint manager.
\<close>

definition ProcessHeight ::
  "('pk, 'sig, 'n) relay_env \<Rightarrow> u64 \<Rightarrow> (int \<times> ('dc, 'w) message_handler) list \<Rightarrow> 'dc application_relayer \<Rightarrow> ('c, 'n, 'w) relay_state
     \<Rightarrow> error option go_outcome \<times> 'dc application_relayer \<times> ('c, 'n, 'w) relay_state" where
  "ProcessHeight env height handlers r st =
     (case process_all env r handlers st of
        (results, st') \<Rightarrow>
          (case eg_Wait results of
             Panicked \<Rightarrow> (Panicked, r, st')
           | Blocked \<Rightarrow> (Blocked, r, st')
           | Done (Some e) \<Rightarrow> (Done (Some e), r, st')
           | Done None \<Rightarrow>
               (case StageCommittedHeight height (ar_checkpointManager r) of
                  Inl e \<Rightarrow> (Panicked, r, st')
                | Inr cm \<Rightarrow> (Done None, r\<lparr>ar_checkpointManager := cm\<rparr>, st'))))"

text \<open>
  Blocks processed one after the other, each height with its handlers; the outcome of each. A
  block whose handlers never return leaves the others going, a panic ends the process.
\<close>

fun process_heights ::
  "('pk, 'sig, 'n) relay_env \<Rightarrow> (u64 \<times> (int \<times> ('dc, 'w) message_handler) list) list \<Rightarrow> 'dc application_relayer
     \<Rightarrow> ('c, 'n, 'w) relay_state
     \<Rightarrow> (u64 \<times> error option go_outcome) list \<times> 'dc application_relayer \<times> ('c, 'n, 'w) relay_state" where
  "process_heights env [] r st = ([], r, st)"
| "process_heights env ((height, handlers) # blocks) r st =
     (case ProcessHeight env height handlers r st of
        (Panicked, r1, st1) \<Rightarrow> ([(height, Panicked)], r1, st1)
      | (res, r1, st1) \<Rightarrow>
          (case process_heights env blocks r1 st1 of (outs, r2, st2) \<Rightarrow> ((height, res) # outs, r2, st2)))"

section \<open>Outcomes of a message\<close>

lemma ProcessMessage_success:
  assumes "ProcessMessage env now r handler st = (Done (Inr txHash), st')"
  shows "(\<exists>w. mh_ShouldSendMessage handler (ar_destinationClient r) (rs_world st) = (Inr False, w) \<and>
      txHash = 0 \<and> st' = st\<lparr>rs_world := w\<rparr>) \<or>
    (\<exists>w msg st1 w2. mh_ShouldSendMessage handler (ar_destinationClient r) (rs_world st) = (Inr True, w) \<and>
      fetch_signed_message env now r (mh_GetUnsignedMessage handler) (st\<lparr>rs_world := w\<rparr>) = (Done (Inr msg), st1) \<and>
      mh_SendMessage handler msg (ar_destinationClient r) (rs_world st1) = (Done (Inr txHash), w2) \<and>
      st' = incSuccessfulRelayMessageCount r
        ((setCreateSignedMessageLatencyMS r (re_latency env (mh_GetUnsignedMessage handler)) st1)\<lparr>rs_world := w2\<rparr>))"
  using assms
  by (auto simp: ProcessMessage_def Let_def split: prod.splits sum.splits if_splits go_outcome.splits)

text \<open>How the counters change: the number of successes and that of failures per reason.\<close>

lemma fetch_counts:
  assumes "fetch_signed_message env now r um st = (res, st')"
  shows "successfulRelayMessageCount (rs_metrics st') = successfulRelayMessageCount (rs_metrics st) \<and>
    failedRelayMessageCount (rs_metrics st') =
      (case res of Done (Inl e) \<Rightarrow> counter_Inc (failedRelayMessageCount (rs_metrics st))
          (metric_labels r, if ar_sourceWarpSignatureClient r = None then ''failed to create signed warp message via AppRequest network''
             else ''failed to create signed warp message via RPC'')
       | _ \<Rightarrow> failedRelayMessageCount (rs_metrics st)) \<and>
    rs_world st' = rs_world st"
  using assms
  by (auto simp: fetch_signed_message_def Let_def go_simps split: option.splits prod.splits sum.splits go_outcome.splits)

lemma ProcessMessage_counts:
  assumes "ProcessMessage env now r handler st = (Done res, st')"
  shows "case res of
      Inl e \<Rightarrow> successfulRelayMessageCount (rs_metrics st') = successfulRelayMessageCount (rs_metrics st) \<and>
        (\<exists>reason. failedRelayMessageCount (rs_metrics st') =
           counter_Inc (failedRelayMessageCount (rs_metrics st)) (metric_labels r, reason))
    | Inr txHash \<Rightarrow> failedRelayMessageCount (rs_metrics st') = failedRelayMessageCount (rs_metrics st) \<and>
        successfulRelayMessageCount (rs_metrics st') =
          (if fst (mh_ShouldSendMessage handler (ar_destinationClient r) (rs_world st)) = Inr True
           then counter_Inc (successfulRelayMessageCount (rs_metrics st)) (metric_labels r)
           else successfulRelayMessageCount (rs_metrics st))"
proof -
  obtain should w where sh: "mh_ShouldSendMessage handler (ar_destinationClient r) (rs_world st) = (should, w)" by force
  obtain f st1 where f: "fetch_signed_message env now r (mh_GetUnsignedMessage handler) (st\<lparr>rs_world := w\<rparr>) = (f, st1)" by force
  note counts = fetch_counts [OF f]
  show ?thesis
    using assms counts
    by (auto simp: ProcessMessage_def Let_def sh f go_simps split: sum.splits if_splits go_outcome.splits prod.splits)
qed

section \<open>Outcomes of a block\<close>

lemma eg_Wait_ok: "eg_Wait results = Done None \<longleftrightarrow> list_all outcome_ok results"
proof -
  have err: "outcome_ok res \<longleftrightarrow> \<not> outcome_panics res \<and> res \<noteq> Blocked \<and> outcome_error res = None" for res :: "'a result go_outcome"
    by (cases res rule: outcome_error.cases) auto
  show ?thesis
    by (auto simp: eg_Wait_def list_all_iff list_ex_iff err first_some_None)
qed

lemma eg_Wait_Done:
  assumes "\<forall>res \<in> set results. \<not> outcome_panics res \<and> res \<noteq> Blocked"
  shows "\<exists>e. eg_Wait results = Done e \<and> (\<forall>x. e = Some x \<longrightarrow> Done (Inl x) \<in> set results)"
proof -
  have "Done (Inl x) \<in> set results" if first: "first_some (map outcome_error results) = Some x" for x
  proof -
    have "Some x \<in> outcome_error ` set results" using first_some_Some [OF first] by simp
    then obtain res where "Some x = outcome_error res" "res \<in> set results" by (rule imageE)
    then show ?thesis by (cases res rule: outcome_error.cases) auto
  qed
  moreover have "\<not> list_ex outcome_panics results" "Blocked \<notin> set results"
    using assms by (auto simp: list_ex_iff)
  ultimately show ?thesis by (simp add: eg_Wait_def)
qed

lemma metric_labels_checkpoint [simp]: "metric_labels (r\<lparr>ar_checkpointManager := cm\<rparr>) = metric_labels r"
  by (simp add: metric_labels_def)

lemma query_api_checkpoint [simp]:
  "query_api env (r\<lparr>ar_checkpointManager := cm\<rparr>) client um k n = query_api env r client um k n"
  by (induction k arbitrary: n) (auto split: prod.splits sum.splits)

lemma fetch_checkpoint [simp]:
  "fetch_signed_message env now (r\<lparr>ar_checkpointManager := cm\<rparr>) um st = fetch_signed_message env now r um st"
  by (simp add: fetch_signed_message_def createSignedMessage_def Let_def go_simps
      split: option.split prod.split go_outcome.split sum.split)

lemma ProcessMessage_checkpoint [simp]:
  "ProcessMessage env now (r\<lparr>ar_checkpointManager := cm\<rparr>) handler st = ProcessMessage env now r handler st"
  by (simp add: ProcessMessage_def Let_def go_simps split: prod.split go_outcome.split sum.split)

lemma process_all_checkpoint [simp]:
  "process_all env (r\<lparr>ar_checkpointManager := cm\<rparr>) handlers st = process_all env r handlers st"
  by (induction handlers arbitrary: st) (auto split: prod.splits)

text \<open>A height is staged when all handlers succeeded, and only then.\<close>

lemma ProcessHeight_staged:
  assumes "ProcessHeight env height handlers r st = (res, r', st')"
  shows "(res = Done None \<longrightarrow> list_all outcome_ok (fst (process_all env r handlers st)) \<and>
      (\<exists>cm. StageCommittedHeight height (ar_checkpointManager r) = Inr cm \<and> r' = r\<lparr>ar_checkpointManager := cm\<rparr>)) \<and>
    (res \<noteq> Done None \<longrightarrow> r' = r)"
proof -
  obtain results st1 where p: "process_all env r handlers st = (results, st1)" by force
  show ?thesis
    using assms eg_Wait_ok [of results]
    by (auto simp: ProcessHeight_def p split: go_outcome.splits option.splits sum.splits)
qed

section \<open>The interface of checkpoint managers\<close>

text \<open>Heights with a flag, staged in order when the flag is set.\<close>

fun stage_flagged :: "(u64 \<Rightarrow> 'm \<Rightarrow> 'm result) \<Rightarrow> (u64 \<times> bool) list \<Rightarrow> 'm \<Rightarrow> 'm result" where
  "stage_flagged stage [] m = Inr m"
| "stage_flagged stage ((h, ok) # xs) m =
     (if ok then (case stage h m of Inl e \<Rightarrow> Inl e | Inr m' \<Rightarrow> stage_flagged stage xs m') else stage_flagged stage xs m)"

text \<open>
  What the relayer relies on: staging returns, and of the heights above the starting one the
  manager commits only what was staged.
\<close>

locale checkpointing =
  fixes stage :: "u64 \<Rightarrow> 'm \<Rightarrow> 'm result"
    and committed :: "'m \<Rightarrow> u64"
    and safe :: "u64 \<Rightarrow> u64 set \<Rightarrow> 'm \<Rightarrow> bool"
  assumes stage_safe: "safe s S m \<Longrightarrow> \<exists>m'. stage h m = Inr m' \<and> safe s (insert h S) m'"
    and safe_committed: "safe s S m \<Longrightarrow> s < h \<Longrightarrow> h \<le> committed m \<Longrightarrow> h \<in> S"
begin

lemma stage_flagged_safe:
  "safe s S m \<Longrightarrow> \<exists>m'. stage_flagged stage xs m = Inr m' \<and> safe s (S \<union> {h. (h, True) \<in> set xs}) m'"
proof (induction xs arbitrary: S m)
  case (Cons x xs)
  obtain h ok where x: "x = (h, ok)" by force
  show ?case
  proof (cases ok)
    case True
    obtain m1 where m1: "stage h m = Inr m1" "safe s (insert h S) m1" using stage_safe [OF Cons.prems] by blast
    have eq: "insert h S \<union> {h. (h, True) \<in> set xs} = S \<union> {h'. (h', True) \<in> set (x # xs)}" using True x by auto
    have "stage_flagged stage (x # xs) m = stage_flagged stage xs m1" using True x m1(1) by simp
    with Cons.IH [OF m1(2)] show ?thesis unfolding eq by metis
  next
    case False
    then have eq: "{h. (h, True) \<in> set xs} = {h'. (h', True) \<in> set (x # xs)}" using x by auto
    have "stage_flagged stage (x # xs) m = stage_flagged stage xs m" using False x by simp
    with Cons.IH [OF Cons.prems] show ?thesis unfolding eq by metis
  qed
qed simp

lemma committed_flagged:
  assumes "safe s {} m" and "stage_flagged stage xs m = Inr m'" and "s < h" and "h \<le> committed m'"
  shows "(h, True) \<in> set xs"
  using stage_flagged_safe [OF assms(1), of xs] assms(2) safe_committed [OF _ assms(3,4)] by auto

end

interpretation ck: checkpointing StageCommittedHeight committedHeight cm_safe
proof
  show "\<exists>m'. StageCommittedHeight h m = Inr m' \<and> cm_safe s (insert h S) m'" if "cm_safe s S m" for s S m h
    using Stage_safe [OF that] by blast
  show "h \<in> S" if "cm_safe s S m" "s < h" "h \<le> committedHeight m" for s S m h
    using that by (simp add: cm_safe_def)
qed

section \<open>Sequences of blocks\<close>

lemma process_heights_checkpoint:
  "process_heights env blocks r st = (outs, r', st') \<Longrightarrow>
     stage_flagged StageCommittedHeight (map (\<lambda>(h, res). (h, res = Done None)) outs) (ar_checkpointManager r) =
       Inr (ar_checkpointManager r')"
proof (induction blocks arbitrary: r st outs r' st')
  case (Cons b blocks)
  obtain h handlers where b: "b = (h, handlers)" by force
  obtain res r1 st1 where p: "ProcessHeight env h handlers r st = (res, r1, st1)" by (metis prod_cases3)
  note staged = ProcessHeight_staged [OF p]
  show ?case
  proof (cases "res = Panicked")
    case True
    then show ?thesis using Cons.prems staged by (auto simp: b p)
  next
    case False
    obtain outs1 r2 st2 where q: "process_heights env blocks r1 st1 = (outs1, r2, st2)" by (metis prod_cases3)
    have outs: "outs = (h, res) # outs1" "r' = r2" using Cons.prems False by (auto simp: b p q split: go_outcome.splits)
    show ?thesis using Cons.IH [OF q] staged by (cases "res = Done None") (auto simp: outs)
  qed
qed simp

lemma process_heights_member:
  "process_heights env blocks r st = (outs, r', st') \<Longrightarrow> (h, Done None) \<in> set outs \<Longrightarrow>
     \<exists>pre handlers post outs1 r1 st1. blocks = pre @ (h, handlers) # post \<and>
       process_heights env pre r st = (outs1, r1, st1) \<and> list_all outcome_ok (fst (process_all env r1 handlers st1))"
proof (induction blocks arbitrary: r st outs r' st')
  case (Cons b blocks)
  obtain h1 handlers where b: "b = (h1, handlers)" by force
  obtain res r1 st1 where p: "ProcessHeight env h1 handlers r st = (res, r1, st1)" by (metis prod_cases3)
  show ?case
  proof (cases "(h, Done None) = (h1, res)")
    case True
    then have "list_all outcome_ok (fst (process_all env r handlers st))" using ProcessHeight_staged [OF p] by auto
    moreover have "b # blocks = [] @ (h, handlers) # blocks" using True b by simp
    moreover have "process_heights env [] r st = ([], r, st)" by simp
    ultimately show ?thesis by blast
  next
    case False
    with Cons.prems have np: "res \<noteq> Panicked" by (auto simp: b p)
    obtain outs1 r2 st2 where q: "process_heights env blocks r1 st1 = (outs1, r2, st2)" by (metis prod_cases3)
    have "outs = (h1, res) # outs1" "r' = r2" "st' = st2"
      using Cons.prems(1) np by (auto simp: b p q split: go_outcome.splits)
    then have "(h, Done None) \<in> set outs1" using False Cons.prems(2) by auto
    from Cons.IH [OF q this] obtain pre hs post outs2 r3 st3 where IH: "blocks = pre @ (h, hs) # post"
        "process_heights env pre r1 st1 = (outs2, r3, st3)" "list_all outcome_ok (fst (process_all env r3 hs st3))"
      by blast
    have "process_heights env (b # pre) r st = ((h1, res) # outs2, r3, st3)"
      using np IH(2) by (cases res) (auto simp: b p)
    with IH show ?thesis by (metis append_Cons)
  qed
qed simp

section \<open>A concrete relayer\<close>

text \<open>A handler that sends its message and records it, or fails.\<close>

definition sample_mh :: "bool \<Rightarrow> (unit, warp_message list) message_handler" where
  "sample_mh ok = \<lparr>mh_ShouldSendMessage = \<lambda>_ w. (Inr True, w),
     mh_SendMessage = \<lambda>msg _ w. if ok then (Done (Inr 7), msg # w) else (Done (Inl (Errorf ''reverted'')), w),
     mh_GetMessageRoutingInfo = Inr (5, 1, 7, 2), mh_GetUnsignedMessage = sample_um\<rparr>"

definition sample_metrics :: relay_metrics where
  "sample_metrics = \<lparr>successfulRelayMessageCount = \<lambda>_. 0, failedRelayMessageCount = \<lambda>_. 0,
     fetchSignatureRPCCount = \<lambda>_. 0, fetchSignatureAppRequestCount = \<lambda>_. 0, createSignedMessageLatencyMS = \<lambda>_. 0\<rparr>"

definition sample_ar :: "unit application_relayer" where
  "sample_ar = \<lparr>ar_sourceBlockchain = sample_source, ar_signingSubnetID = 4, ar_destinationClient = (),
     ar_relayerID = sample_relayer, ar_warpQuorum = \<lparr>QuorumNumerator = 67, QuorumDenominator = 100\<rparr>,
     ar_checkpointManager = NewCheckpointManager sample_relayer 10, ar_sourceWarpSignatureClient = None\<rparr>"

definition sample_relay_env :: "(nat, bytes, (nat, unit) network) relay_env" where
  "sample_relay_env = \<lparr>re_agg = sample_agg_env, re_network = network_ops,
     re_CallContext = \<lambda>_ _ _ _ n. (Inl (Errorf ''not found''), n), re_ParseMessage = \<lambda>_. Inl (Errorf ''parse''),
     re_ids = sample_ids_env, re_latency = \<lambda>_. 12\<rparr>"

definition sample_relay_state ::
  "(ids_ID \<Rightarrow> signature_map option, (nat, unit) network, warp_message list) relay_state" where
  "sample_relay_state = \<lparr>rs_aggregator = sample_aggregator,
     rs_network = sample_network [sample_vdr 1 60 [1], sample_vdr 2 40 [2]] [sample_response 1 1, sample_response 2 2],
     rs_world = [], rs_metrics = sample_metrics\<rparr>"

lemma sample_process_heights:
  "map fst (fst (process_heights sample_relay_env [(12, []), (11, [(0, sample_mh True)])] sample_ar sample_relay_state)) = [12, 11] \<and>
   committedHeight (ar_checkpointManager (fst (snd (process_heights sample_relay_env
     [(12, []), (11, [(0, sample_mh True)])] sample_ar sample_relay_state)))) = 12"
  by code_simp

section \<open>Properties\<close>

text \<open>
  C4: A height above the starting one is committed only when a block of that height was processed
  with every one of its messages relayed, or found not to need relaying, whatever order the blocks
  finish in and whatever other blocks fail or hang.
\<close>

theorem committed_heights_relayed:
  assumes "ar_checkpointManager r = NewCheckpointManager rid s"
    and "process_heights env blocks r st = (outs, r', st')"
    and "s < h" and "h \<le> committedHeight (ar_checkpointManager r')"
  shows "\<exists>pre handlers post outs1 r1 st1. blocks = pre @ (h, handlers) # post \<and>
    process_heights env pre r st = (outs1, r1, st1) \<and> list_all outcome_ok (fst (process_all env r1 handlers st1))"
proof -
  let ?flags = "map (\<lambda>(h, res). (h, res = Done None)) outs"
  have "(h, True) \<in> set ?flags"
    using ck.committed_flagged [OF cm_safe_New _ assms(3,4)] process_heights_checkpoint [OF assms(2)] assms(1)
    by metis
  then have "(h, Done None) \<in> set outs" by auto
  from process_heights_member [OF assms(2) this] show ?thesis .
qed

theorem committed_heights_relayed_witness:
  "\<exists>pre handlers post outs1 r1 st1. [(12, []), (11, [(0, sample_mh True)])] = pre @ (11, handlers) # post \<and>
    process_heights sample_relay_env pre sample_ar sample_relay_state = (outs1, r1, st1) \<and>
    list_all outcome_ok (fst (process_all sample_relay_env r1 handlers st1))"
proof -
  obtain outs r' st' where p: "process_heights sample_relay_env [(12, []), (11, [(0, sample_mh True)])] sample_ar sample_relay_state
      = (outs, r', st')" by (metis prod_cases3)
  have "ar_checkpointManager sample_ar = NewCheckpointManager sample_relayer 10" by (simp add: sample_ar_def)
  moreover have "(11 :: u64) \<le> committedHeight (ar_checkpointManager r')" using sample_process_heights p by simp
  ultimately show ?thesis
    using committed_heights_relayed [OF _ p, of sample_relayer 10 11] by simp
qed

text \<open>
  C6: When the handlers of a block return, so does its processing: the height is staged exactly
  when all of them succeeded, otherwise an error of one of them is reported and the checkpoint
  stays as it is.
\<close>

theorem ProcessHeight_outcome:
  assumes "cm_safe s S (ar_checkpointManager r)"
    and "\<forall>res \<in> set (fst (process_all env r handlers st)). \<not> outcome_panics res \<and> res \<noteq> Blocked"
  shows "\<exists>e r' st'. ProcessHeight env height handlers r st = (Done e, r', st') \<and>
    (e = None \<longleftrightarrow> list_all outcome_ok (fst (process_all env r handlers st))) \<and>
    (case e of
       None \<Rightarrow> StageCommittedHeight height (ar_checkpointManager r) = Inr (ar_checkpointManager r')
     | Some x \<Rightarrow> Done (Inl x) \<in> set (fst (process_all env r handlers st)) \<and> r' = r)"
proof -
  obtain results st1 where p: "process_all env r handlers st = (results, st1)" by force
  obtain e where e: "eg_Wait results = Done e" "\<forall>x. e = Some x \<longrightarrow> Done (Inl x) \<in> set results"
    using eg_Wait_Done [of results] assms(2) p by auto
  obtain cm where "StageCommittedHeight height (ar_checkpointManager r) = Inr cm"
    using Stage_safe [OF assms(1)] by blast
  then show ?thesis
    using e eg_Wait_ok [of results] by (cases e) (auto simp: ProcessHeight_def p)
qed

theorem ProcessHeight_outcome_witness:
  "\<exists>e r' st'. ProcessHeight sample_relay_env 11 [(0, sample_mh False)] sample_ar sample_relay_state = (Done (Some e), r', st') \<and>
     r' = sample_ar"
proof -
  have "cm_safe 10 {} (ar_checkpointManager sample_ar)" by (simp add: sample_ar_def cm_safe_New)
  moreover have "list_all (\<lambda>res. \<not> outcome_panics res \<and> (case res of Blocked \<Rightarrow> False | _ \<Rightarrow> True))
      (fst (process_all sample_relay_env sample_ar [(0, sample_mh False)] sample_relay_state))"
    by code_simp
  then have "\<forall>res \<in> set (fst (process_all sample_relay_env sample_ar [(0, sample_mh False)] sample_relay_state)).
      \<not> outcome_panics res \<and> res \<noteq> Blocked"
    unfolding list_all_iff by (metis go_outcome.simps(9))
  moreover have "\<not> list_all outcome_ok (fst (process_all sample_relay_env sample_ar [(0, sample_mh False)] sample_relay_state))"
    by code_simp
  ultimately show ?thesis
    using ProcessHeight_outcome [of 10 "{}" sample_ar sample_relay_env "[(0, sample_mh False)]" sample_relay_state 11]
    by (auto split: option.splits)
qed

text \<open>
  C7: Every message is counted once: a message that was sent as one success of its route, a failed
  one as one failure of its route, and a message that need not be sent not at all.
\<close>

theorem relay_counted_once:
  assumes "ProcessMessage env now r handler st = (Done res, st')"
  shows "case res of
      Inl e \<Rightarrow> successfulRelayMessageCount (rs_metrics st') = successfulRelayMessageCount (rs_metrics st) \<and>
        (\<exists>reason. failedRelayMessageCount (rs_metrics st') =
           counter_Inc (failedRelayMessageCount (rs_metrics st)) (metric_labels r, reason))
    | Inr txHash \<Rightarrow> failedRelayMessageCount (rs_metrics st') = failedRelayMessageCount (rs_metrics st) \<and>
        successfulRelayMessageCount (rs_metrics st') =
          (if fst (mh_ShouldSendMessage handler (ar_destinationClient r) (rs_world st)) = Inr True
           then counter_Inc (successfulRelayMessageCount (rs_metrics st)) (metric_labels r)
           else successfulRelayMessageCount (rs_metrics st))"
  by (rule ProcessMessage_counts [OF assms])

theorem relay_counted_once_witness:
  "\<exists>txHash st'. ProcessMessage sample_relay_env 0 sample_ar (sample_mh True) sample_relay_state = (Done (Inr txHash), st') \<and>
     successfulRelayMessageCount (rs_metrics st') (metric_labels sample_ar) = 1"
proof -
  have "case fst (ProcessMessage sample_relay_env 0 sample_ar (sample_mh True) sample_relay_state) of
      Done (Inr txHash) \<Rightarrow> txHash = 7 | _ \<Rightarrow> False"
    by code_simp
  then obtain txHash st' where p: "ProcessMessage sample_relay_env 0 sample_ar (sample_mh True) sample_relay_state
      = (Done (Inr txHash), st')"
    by (auto split: go_outcome.splits sum.splits) (metis prod.collapse)
  from relay_counted_once [OF p] p show ?thesis
    by (simp add: sample_mh_def counter_Inc_def sample_relay_state_def sample_metrics_def)
qed

end
