(* ===== verification/Message_Coordinator.thy ===== *)
theory Message_Coordinator
  imports Application_Relayer
begin

text \<open>
  \<^verbatim>\<open>relayer/message_coordinator.go\<close>: the coordinator takes Warp messages from blocks or from the API,
  finds the handler of the message's protocol and the application relayer of its route, and hands
  each relayer of a chain the messages of each of its blocks. The theory shows that the lookup of
  relayers implements the routing rule of the configuration and that a block's messages are
  handed out completely, each to the relayer of its route.
\<close>

section \<open>The coordinator\<close>

text \<open>
  A Go map that is iterated over is an association list, in the order of the iteration. A client
  of a source chain answers queries for logs, each attempt on its own.
\<close>

type_synonym ('dc, 'w) handler_factory = "unsigned_message \<Rightarrow> ('dc, 'w) message_handler result"
type_synonym eth_client = "nat \<Rightarrow> filter_query \<Rightarrow> eth_log list result"

record ('dc, 'w) message_coordinator =
  mc_messageHandlerFactories :: "ids_ID \<Rightarrow> (address \<Rightarrow> ('dc, 'w) handler_factory option) option"
  mc_applicationRelayers :: "(hash \<times> 'dc application_relayer) list"
  mc_sourceClients :: "ids_ID \<Rightarrow> eth_client option"

definition NewMessageCoordinator ::
  "(ids_ID \<Rightarrow> (address \<Rightarrow> ('dc, 'w) handler_factory option) option) \<Rightarrow> (hash \<times> 'dc application_relayer) list
     \<Rightarrow> (ids_ID \<Rightarrow> eth_client option) \<Rightarrow> ('dc, 'w) message_coordinator" where
  "NewMessageCoordinator messageHandlerFactories applicationRelayers sourceClients =
     \<lparr>mc_messageHandlerFactories = messageHandlerFactories, mc_applicationRelayers = applicationRelayers,
      mc_sourceClients = sourceClients\<rparr>"

section \<open>Routing\<close>

definition getApplicationRelayer ::
  "rid_env \<Rightarrow> ('dc, 'w) message_coordinator \<Rightarrow> ids_ID \<Rightarrow> address \<Rightarrow> ids_ID \<Rightarrow> address \<Rightarrow> 'dc application_relayer option" where
  "getApplicationRelayer env mc sourceBlockchainID originSenderAddress destinationBlockchainID destinationAddress =
     (let relayers = map_of (mc_applicationRelayers mc);
          rid = CalculateRelayerID env sourceBlockchainID destinationBlockchainID
      in case relayers (rid originSenderAddress destinationAddress) of
           Some r \<Rightarrow> Some r
         | None \<Rightarrow>
             (case relayers (rid originSenderAddress AllAllowedAddress) of
                Some r \<Rightarrow> Some r
              | None \<Rightarrow>
                  (case relayers (rid AllAllowedAddress destinationAddress) of
                     Some r \<Rightarrow> Some r
                   | None \<Rightarrow> relayers (rid AllAllowedAddress AllAllowedAddress))))"

text \<open>A lookup in a missing inner map finds nothing. \<open>Inr None\<close> stands for the three nil results.\<close>

definition getAppRelayerMessageHandler ::
  "rid_env \<Rightarrow> ('dc, 'w) message_coordinator \<Rightarrow> warp_message_info
     \<Rightarrow> ('dc application_relayer \<times> ('dc, 'w) message_handler) option result" where
  "getAppRelayerMessageHandler env mc warpMessageInfo =
     (case Option.bind (mc_messageHandlerFactories mc (um_SourceChainID (UnsignedMessage warpMessageInfo)))
             (\<lambda>m. m (SourceAddress warpMessageInfo)) of
        None \<Rightarrow> Inr None
      | Some messageHandlerFactory \<Rightarrow>
          (case messageHandlerFactory (UnsignedMessage warpMessageInfo) of
             Inl e \<Rightarrow> Inl e
           | Inr messageHandler \<Rightarrow>
               (case mh_GetMessageRoutingInfo messageHandler of
                  Inl e \<Rightarrow> Inl e
                | Inr (sourceBlockchainID, originSenderAddress, destinationBlockchainID, destinationAddress) \<Rightarrow>
                    (case getApplicationRelayer env mc sourceBlockchainID originSenderAddress destinationBlockchainID destinationAddress of
                       None \<Rightarrow> Inr None
                     | Some appRelayer \<Rightarrow> Inr (Some (appRelayer, messageHandler))))))"

section \<open>Single messages\<close>

definition ProcessWarpMessage ::
  "('pk, 'sig, 'n) relay_env \<Rightarrow> rid_env \<Rightarrow> int \<Rightarrow> ('dc, 'w) message_coordinator \<Rightarrow> warp_message_info \<Rightarrow> ('c, 'n, 'w) relay_state
     \<Rightarrow> hash result go_outcome \<times> ('c, 'n, 'w) relay_state" where
  "ProcessWarpMessage env renv now mc warpMessage st =
     (case getAppRelayerMessageHandler renv mc warpMessage of
        Inl e \<Rightarrow> (Done (Inl e), st)
      | Inr None \<Rightarrow> (Done (Inl (Errorf ''application relayer not found'')), st)
      | Inr (Some (appRelayer, handler)) \<Rightarrow> ProcessMessage env now appRelayer handler st)"

definition FetchWarpMessage :: "types_env \<Rightarrow> eth_client \<Rightarrow> ids_ID \<Rightarrow> int \<Rightarrow> warp_message_info result" where
  "FetchWarpMessage tenv ethClient warpID blockNum =
     (case ethClient 0 \<lparr>fq_Topics = [[te_WarpPrecompileLogFilter tenv], [], [warpID]],
             fq_Addresses = [te_ContractAddress tenv], fq_FromBlock = blockNum, fq_ToBlock = blockNum\<rparr> of
        Inl e \<Rightarrow> Inl (err_wrap ''could not fetch logs'' e)
      | Inr logs \<Rightarrow>
          if length logs \<noteq> 1 then Inl (Errorf ''found more than 1 log'') else NewWarpMessageInfo tenv (logs ! 0))"

definition ProcessMessageID ::
  "('pk, 'sig, 'n) relay_env \<Rightarrow> rid_env \<Rightarrow> types_env \<Rightarrow> int \<Rightarrow> ('dc, 'w) message_coordinator \<Rightarrow> ids_ID \<Rightarrow> ids_ID \<Rightarrow> int
     \<Rightarrow> ('c, 'n, 'w) relay_state \<Rightarrow> hash result go_outcome \<times> ('c, 'n, 'w) relay_state" where
  "ProcessMessageID env renv tenv now mc blockchainID messageID blockNum st =
     (case mc_sourceClients mc blockchainID of
        None \<Rightarrow> (Done (Inl (Errorf ''source client not set for blockchain'')), st)
      | Some ethClient \<Rightarrow>
          (case FetchWarpMessage tenv ethClient messageID blockNum of
             Inl e \<Rightarrow> (Done (Inl (err_wrap ''could not fetch warp message from ID'' e)), st)
           | Inr warpMessage \<Rightarrow> ProcessWarpMessage env renv now mc warpMessage st))"

section \<open>Blocks\<close>

text \<open>The handlers of the messages, grouped by the ID of their relayer.\<close>

fun group_messages ::
  "rid_env \<Rightarrow> ('dc, 'w) message_coordinator \<Rightarrow> warp_message_info list \<Rightarrow> (hash \<Rightarrow> ('dc, 'w) message_handler list)
     \<Rightarrow> hash \<Rightarrow> ('dc, 'w) message_handler list" where
  "group_messages env mc [] messageHandlers = messageHandlers"
| "group_messages env mc (m # ms) messageHandlers =
     (case getAppRelayerMessageHandler env mc m of
        Inl e \<Rightarrow> group_messages env mc ms messageHandlers
      | Inr None \<Rightarrow> group_messages env mc ms messageHandlers
      | Inr (Some (appRelayer, handler)) \<Rightarrow>
          (let k = rid_ID (ar_relayerID appRelayer)
           in group_messages env mc ms (messageHandlers(k := messageHandlers k @ [handler]))))"

text \<open>
  What \<^verbatim>\<open>ProcessBlock\<close> starts: for each relayer of the chain, by its key, the height and the
  handlers of its \<^verbatim>\<open>ProcessHeight\<close>; or the error it sends to the error channel.
\<close>

definition ProcessBlock ::
  "rid_env \<Rightarrow> types_env \<Rightarrow> retry_ctx \<Rightarrow> ('dc, 'w) message_coordinator \<Rightarrow> eth_header \<Rightarrow> ids_ID \<Rightarrow> eth_client
     \<Rightarrow> (hash \<times> u64 \<times> ('dc, 'w) message_handler list) list result option" where
  "ProcessBlock env tenv ctx mc blockHeader blockchainID ethClient =
     (case NewWarpBlockInfo tenv ctx ethClient blockHeader of
        None \<Rightarrow> None
      | Some (Inl e) \<Rightarrow> Some (Inl e)
      | Some (Inr block) \<Rightarrow>
          (let messageHandlers = group_messages env mc (Messages block) (\<lambda>_. [])
           in Some (Inr
                (map (\<lambda>(k, r). (k, BlockNumber block, messageHandlers (rid_ID (ar_relayerID r))))
                  (filter (\<lambda>(k, r). sb_blockchainID (ar_sourceBlockchain r) = blockchainID) (mc_applicationRelayers mc))))))"

section \<open>The lookup and the routing rule\<close>

text \<open>The relayers that the configuration asks for, each under its ID and with its source chain.\<close>

definition registered :: "rid_env \<Rightarrow> relayer_config \<Rightarrow> (hash \<times> 'dc application_relayer) list \<Rightarrow> bool" where
  "registered env cfg relayers \<longleftrightarrow> distinct (map fst relayers) \<and>
     (\<forall>(k, r) \<in> set relayers. rid_ID (ar_relayerID r) = k \<and> ar_sourceBlockchain r \<in> set (cfg_SourceBlockchains cfg) \<and>
        ar_relayerID r \<in> set (GetSourceBlockchainRelayerIDs env (ar_sourceBlockchain r))) \<and>
     (\<forall>rid \<in> set (GetConfigRelayerIDs env cfg). rid_ID rid \<in> fst ` set relayers)"

lemma config_ids_iff:
  "r \<in> set (GetConfigRelayerIDs env cfg) \<longleftrightarrow>
     (\<exists>s \<in> set (cfg_SourceBlockchains cfg). r \<in> set (GetSourceBlockchainRelayerIDs env s))"
  by (auto simp: GetConfigRelayerIDs_def)

lemma config_id_calculated:
  "r \<in> set (GetConfigRelayerIDs env cfg) \<Longrightarrow>
     rid_ID r = CalculateRelayerID env (SourceBlockchainID r) (DestinationBlockchainID r) (OriginSenderAddress r) (DestinationAddress r)"
  by (auto simp: config_ids_iff source_ids_iff NewRelayerID_def)

text \<open>The first of the four lookups that finds a relayer.\<close>

lemma getApplicationRelayer_first:
  "getApplicationRelayer env mc src origin dst addr =
     first_some (map (\<lambda>(a, b, c, d). map_of (mc_applicationRelayers mc) (CalculateRelayerID env a b c d))
       (lookups (src, dst, origin, addr)))"
  by (simp add: getApplicationRelayer_def lookups_def AllAllowedAddress_def Let_def split: option.split)

lemma lookup_Some:
  assumes "getApplicationRelayer env mc src origin dst addr = Some r"
  shows "\<exists>a b c d. (a, b, c, d) \<in> set (lookups (src, dst, origin, addr)) \<and>
    map_of (mc_applicationRelayers mc) (CalculateRelayerID env a b c d) = Some r"
proof -
  let ?f = "\<lambda>(a, b, c, d). map_of (mc_applicationRelayers mc) (CalculateRelayerID env a b c d)"
  have "Some r \<in> ?f ` set (lookups (src, dst, origin, addr))"
    using first_some_Some [OF assms [unfolded getApplicationRelayer_first]] by (simp only: set_map)
  then obtain q where q: "Some r = ?f q" "q \<in> set (lookups (src, dst, origin, addr))" by (rule imageE)
  obtain a b c d where "q = (a, b, c, d)" by (metis prod_cases4)
  with q show ?thesis by (metis case_prod_conv)
qed

lemma lookup_None:
  assumes "getApplicationRelayer env mc src origin dst addr = None" and "(a, b, c, d) \<in> set (lookups (src, dst, origin, addr))"
  shows "map_of (mc_applicationRelayers mc) (CalculateRelayerID env a b c d) = None"
  using assms unfolding getApplicationRelayer_first first_some_None by fastforce

lemma routed_as_allowed:
  assumes env: "rid_env_ok env" "collision_free env (rid_route ` set (GetConfigRelayerIDs env cfg) \<union> set (lookups p))"
    and reg: "registered env cfg (mc_applicationRelayers mc)"
    and zero: "\<forall>s \<in> set (cfg_SourceBlockchains cfg). no_zero_address s"
    and p: "p = (src, dst, origin, addr)"
  shows "case getApplicationRelayer env mc src origin dst addr of
      None \<Rightarrow> \<forall>s \<in> set (cfg_SourceBlockchains cfg). \<not> allows s p
    | Some r \<Rightarrow> rid_route (ar_relayerID r) \<in> set (lookups p) \<and>
        (\<exists>s \<in> set (cfg_SourceBlockchains cfg). allows s p \<and> ar_relayerID r \<in> set (GetSourceBlockchainRelayerIDs env s))"
proof (cases "getApplicationRelayer env mc src origin dst addr")
  case (Some r)
  obtain a b c d where l: "(a, b, c, d) \<in> set (lookups p)"
      "map_of (mc_applicationRelayers mc) (CalculateRelayerID env a b c d) = Some r"
    using lookup_Some [OF Some] p by auto
  let ?rid = "ar_relayerID r"
  have rid: "rid_ID ?rid = CalculateRelayerID env a b c d" "?rid \<in> set (GetConfigRelayerIDs env cfg)"
    using reg map_of_SomeD [OF l(2)] unfolding registered_def config_ids_iff by auto
  have "rid_route ?rid = (a, b, c, d)"
    using CalculateRelayerID_inj [OF env, of "SourceBlockchainID ?rid" "DestinationBlockchainID ?rid"
        "OriginSenderAddress ?rid" "DestinationAddress ?rid" a b c d] rid config_id_calculated [OF rid(2)] l(1)
    by force
  then have "rid_route ?rid \<in> set (lookups p)" using l(1) by simp
  moreover obtain s where "s \<in> set (cfg_SourceBlockchains cfg)" "?rid \<in> set (GetSourceBlockchainRelayerIDs env s)"
    using rid(2) unfolding config_ids_iff by blast
  ultimately show ?thesis using Some lookup_route_allowed zero by fastforce
next
  case None
  have "\<not> allows s p" if s: "s \<in> set (cfg_SourceBlockchains cfg)" for s
  proof
    assume "allows s p"
    then obtain r where r: "r \<in> set (GetSourceBlockchainRelayerIDs env s)" "rid_route r \<in> set (lookups p)"
      using allowed_has_lookup by blast
    have c: "r \<in> set (GetConfigRelayerIDs env cfg)" using r(1) s unfolding config_ids_iff by blast
    then have "map_of (mc_applicationRelayers mc) (rid_ID r) \<noteq> None"
      using reg unfolding registered_def by (simp add: map_of_eq_None_iff)
    moreover have "map_of (mc_applicationRelayers mc) (rid_ID r) = None"
      using lookup_None [OF None] r(2) p config_id_calculated [OF c] by simp
    ultimately show False by blast
  qed
  with None show ?thesis by simp
qed

lemma validated_no_zero:
  assumes "Config_Validate cenv c = Inr cfg"
    and "\<forall>s \<in> set (cfg_SourceBlockchains c). \<forall>d \<in> set (sb_SupportedDestinations s). sd_addresses d = []"
  shows "\<forall>s \<in> set (cfg_SourceBlockchains cfg). no_zero_address s"
  using Config_Validate_routes [OF assms] by (simp add: no_zero_address_def)

section \<open>What a block hands out\<close>

text \<open>The handler of a message, when its relayer has the given ID.\<close>

definition routed_to :: "rid_env \<Rightarrow> ('dc, 'w) message_coordinator \<Rightarrow> hash \<Rightarrow> warp_message_info \<Rightarrow> ('dc, 'w) message_handler list" where
  "routed_to env mc k m =
     (case getAppRelayerMessageHandler env mc m of
        Inr (Some (r, handler)) \<Rightarrow> if rid_ID (ar_relayerID r) = k then [handler] else []
      | _ \<Rightarrow> [])"

lemma group_messages_eq:
  "group_messages env mc ms f k = f k @ concat (map (routed_to env mc k) ms)"
  by (induction ms arbitrary: f) (auto simp: routed_to_def Let_def split: sum.split option.split)

lemma routed_to_iff:
  "handler \<in> set (routed_to env mc k m) \<longleftrightarrow>
     (\<exists>r. getAppRelayerMessageHandler env mc m = Inr (Some (r, handler)) \<and> rid_ID (ar_relayerID r) = k)"
  by (cases "getAppRelayerMessageHandler env mc m") (auto simp: routed_to_def split: option.split)

lemma ProcessBlock_handed:
  assumes "NewWarpBlockInfo tenv ctx ethClient header = Some (Inr block)"
    and "\<forall>(k, r) \<in> set (mc_applicationRelayers mc). rid_ID (ar_relayerID r) = k"
  shows "\<exists>ds. ProcessBlock env tenv ctx mc header b ethClient = Some (Inr ds) \<and>
    map fst ds = map fst (filter (\<lambda>(k, r). sb_blockchainID (ar_sourceBlockchain r) = b) (mc_applicationRelayers mc)) \<and>
    (\<forall>(k, h, hs) \<in> set ds. h = BlockNumber block \<and> hs = concat (map (routed_to env mc k) (Messages block)))"
  using assms by (force simp: ProcessBlock_def Let_def group_messages_eq comp_def case_prod_unfold)

lemma getAppRelayer_cases:
  assumes "getAppRelayerMessageHandler env mc m = Inr (Some (r, handler))"
  shows "\<exists>src origin dst addr. mh_GetMessageRoutingInfo handler = Inr (src, origin, dst, addr) \<and>
    getApplicationRelayer env mc src origin dst addr = Some r"
  using assms by (auto simp: getAppRelayerMessageHandler_def split: option.splits sum.splits)

text \<open>The relayer found for a route belongs to the source chain of the route.\<close>

lemma relayer_source:
  assumes "registered env cfg (mc_applicationRelayers mc)" and "(k, r) \<in> set (mc_applicationRelayers mc)"
  shows "SourceBlockchainID (ar_relayerID r) = sb_blockchainID (ar_sourceBlockchain r) \<and> rid_ID (ar_relayerID r) = k"
proof -
  have "rid_ID (ar_relayerID r) = k" "ar_relayerID r \<in> set (GetSourceBlockchainRelayerIDs env (ar_sourceBlockchain r))"
    using assms unfolding registered_def by auto
  then show ?thesis by (auto simp: source_ids_iff NewRelayerID_def)
qed

lemma lookups_source: "(a, b, c, d) \<in> set (lookups (src, dst, origin, addr)) \<Longrightarrow> a = src \<and> b = dst"
  by (auto simp: lookups_def)

text \<open>Two relayers of one source chain never match the same message, when its destinations are distinct.\<close>

lemma relayer_unique:
  assumes "no_zero_address s" and "distinct (map sd_blockchainID (sb_SupportedDestinations s))"
    and "r1 \<in> set (GetSourceBlockchainRelayerIDs env s)" and "r2 \<in> set (GetSourceBlockchainRelayerIDs env s)"
    and "rid_route r1 \<in> set (lookups p)" and "rid_route r2 \<in> set (lookups p)"
  shows "r1 = r2"
proof -
  obtain src dst origin addr where p: "p = (src, dst, origin, addr)" by (metis prod_cases4)
  have r: "\<exists>o1 d a. r = NewRelayerID env (sb_blockchainID s) dst o1 a \<and> d \<in> set (sb_SupportedDestinations s) \<and>
      sd_blockchainID d = dst \<and> o1 = (if sb_allowedOriginSenderAddresses s = [] then 0 else origin) \<and>
      a = (if sd_addresses d = [] then 0 else addr)"
    if mem: "r \<in> set (GetSourceBlockchainRelayerIDs env s)" "rid_route r \<in> set (lookups p)" for r
  proof -
    obtain o1 d a where x: "o1 \<in> set (or_all (sb_allowedOriginSenderAddresses s))" "d \<in> set (sb_SupportedDestinations s)"
        "a \<in> set (or_all (sd_addresses d))" "r = NewRelayerID env (sb_blockchainID s) (sd_blockchainID d) o1 a"
      using mem(1) unfolding source_ids_iff by blast
    have "sd_blockchainID d = dst" "o1 = origin \<or> o1 = 0" "a = addr \<or> a = 0"
      using mem(2) unfolding x(4) rid_route_New by (auto simp: lookups_def p)
    then show ?thesis
      using x assms(1) by (intro exI [of _ o1] exI [of _ d] exI [of _ a]) (auto simp: set_or_all no_zero_address_def split: if_splits)
  qed
  obtain d1 where d1: "d1 \<in> set (sb_SupportedDestinations s)" "sd_blockchainID d1 = dst"
      "r1 = NewRelayerID env (sb_blockchainID s) dst (if sb_allowedOriginSenderAddresses s = [] then 0 else origin)
        (if sd_addresses d1 = [] then 0 else addr)"
    using r [OF assms(3,5)] by blast
  obtain d2 where d2: "d2 \<in> set (sb_SupportedDestinations s)" "sd_blockchainID d2 = dst"
      "r2 = NewRelayerID env (sb_blockchainID s) dst (if sb_allowedOriginSenderAddresses s = [] then 0 else origin)
        (if sd_addresses d2 = [] then 0 else addr)"
    using r [OF assms(4,6)] by blast
  have "d1 = d2" using assms(2) d1(1,2) d2(1,2) by (metis distinct_map inj_onD)
  with d1(3) d2(3) show ?thesis by simp
qed

lemma dispatched_iff_routed:
  assumes reg: "registered env cfg (mc_applicationRelayers mc)"
    and block: "NewWarpBlockInfo tenv ctx ethClient header = Some (Inr block)"
    and ds: "ProcessBlock env tenv ctx mc header b ethClient = Some (Inr ds)"
  shows "(\<exists>k hs. (k, BlockNumber block, hs) \<in> set ds \<and> handler \<in> set hs) \<longleftrightarrow>
    (\<exists>m \<in> set (Messages block). \<exists>k r. (k, r) \<in> set (mc_applicationRelayers mc) \<and> sb_blockchainID (ar_sourceBlockchain r) = b \<and>
       handler \<in> set (routed_to env mc k m))"
proof -
  let ?R = "filter (\<lambda>(k, r). sb_blockchainID (ar_sourceBlockchain r) = b) (mc_applicationRelayers mc)"
  have "\<forall>(k, r) \<in> set (mc_applicationRelayers mc). rid_ID (ar_relayerID r) = k"
    using reg unfolding registered_def by auto
  from ProcessBlock_handed [OF block this, of env b] ds
  have keys: "map fst ds = map fst ?R"
    and hs: "\<And>k h hs. (k, h, hs) \<in> set ds \<Longrightarrow> h = BlockNumber block \<and> hs = concat (map (routed_to env mc k) (Messages block))"
    by auto
  show ?thesis
  proof
    assume "\<exists>k hs. (k, BlockNumber block, hs) \<in> set ds \<and> handler \<in> set hs"
    then obtain k hs' where k: "(k, BlockNumber block, hs') \<in> set ds" "handler \<in> set hs'" by blast
    then obtain m where m: "m \<in> set (Messages block)" "handler \<in> set (routed_to env mc k m)" using hs [OF k(1)] by auto
    have "k \<in> set (map fst ?R)" using k(1) unfolding keys [symmetric] by force
    then obtain r where "(k, r) \<in> set (mc_applicationRelayers mc)" "sb_blockchainID (ar_sourceBlockchain r) = b" by auto
    with m show "\<exists>m \<in> set (Messages block). \<exists>k r. (k, r) \<in> set (mc_applicationRelayers mc) \<and>
        sb_blockchainID (ar_sourceBlockchain r) = b \<and> handler \<in> set (routed_to env mc k m)" by blast
  next
    assume "\<exists>m \<in> set (Messages block). \<exists>k r. (k, r) \<in> set (mc_applicationRelayers mc) \<and>
        sb_blockchainID (ar_sourceBlockchain r) = b \<and> handler \<in> set (routed_to env mc k m)"
    then obtain m k r where m: "m \<in> set (Messages block)" "(k, r) \<in> set ?R" "handler \<in> set (routed_to env mc k m)" by auto
    have "k \<in> set (map fst ds)" unfolding keys using m(2) by force
    then obtain h hs' where d: "(k, h, hs') \<in> set ds" by auto
    moreover have "handler \<in> set hs'" using hs [OF d] m(1,3) by auto
    ultimately show "\<exists>k hs. (k, BlockNumber block, hs) \<in> set ds \<and> handler \<in> set hs" using hs [OF d] by blast
  qed
qed

section \<open>A concrete coordinator\<close>

definition sample_cfg :: relayer_config where
  "sample_cfg = (case Config_Validate sample_cfg_env (sample_config ''C7'') of Inr c \<Rightarrow> c)"

definition sample_types_env :: types_env where
  "sample_types_env = \<lparr>te_WarpPrecompileLogFilter = 17, te_ContractAddress = 18, te_BloomTest = \<lambda>b _. b \<noteq> [],
     te_UnpackSendWarpEventDataToMessage = \<lambda>_. Inr sample_um, te_ParseUnsignedMessage = \<lambda>_. Inl (Errorf ''parse'')\<rparr>"

definition sample_info :: warp_message_info where
  "sample_info = \<lparr>SourceAddress = 9, UnsignedMessage = sample_um\<rparr>"

definition sample_routed_mh :: "address \<Rightarrow> (unit, warp_message list) message_handler" where
  "sample_routed_mh origin = (sample_mh True)\<lparr>mh_GetMessageRoutingInfo := Inr (5, origin, 7, 2)\<rparr>"

definition sample_mc :: "address \<Rightarrow> (unit, warp_message list) message_coordinator" where
  "sample_mc origin = NewMessageCoordinator [5 \<mapsto> [9 \<mapsto> (\<lambda>_. Inr (sample_routed_mh origin))]]
     (map (\<lambda>rid. (rid_ID rid, sample_ar\<lparr>ar_relayerID := rid, ar_sourceBlockchain := hd (cfg_SourceBlockchains sample_cfg)\<rparr>))
       (GetConfigRelayerIDs sample_rid_env sample_cfg))
     [5 \<mapsto> (\<lambda>_ _. Inr [\<lparr>log_Topics = [17, 9, 99], log_Data = [7]\<rparr>])]"

definition sample_header :: eth_header where
  "sample_header = \<lparr>hd_Number = 11, hd_Bloom = [1]\<rparr>"

definition sample_ctx :: retry_ctx where
  "sample_ctx = \<lparr>ctx_Done = \<lambda>i. 5 < i, ctx_Err = Errorf ''deadline exceeded''\<rparr>"

lemma sample_validated:
  "Config_Validate sample_cfg_env (sample_config ''C7'') = Inr sample_cfg"
  "map rid_route (GetConfigRelayerIDs sample_rid_env sample_cfg) = [(5, 7, 6, 0)]"
  "length (cfg_SourceBlockchains sample_cfg) = 1"
proof -
  have "case Config_Validate sample_cfg_env (sample_config ''C7'') of Inl _ \<Rightarrow> False | Inr _ \<Rightarrow> True" by code_simp
  then obtain c where c: "Config_Validate sample_cfg_env (sample_config ''C7'') = Inr c"
    by (cases "Config_Validate sample_cfg_env (sample_config ''C7'')") (simp_all only: sum.case)
  then show "Config_Validate sample_cfg_env (sample_config ''C7'') = Inr sample_cfg"
    unfolding sample_cfg_def c by (simp only: sum.case)
  show "map rid_route (GetConfigRelayerIDs sample_rid_env sample_cfg) = [(5, 7, 6, 0)]" by code_simp
  show "length (cfg_SourceBlockchains sample_cfg) = 1" by code_simp
qed

lemma sample_fresh:
  "\<forall>s \<in> set (cfg_SourceBlockchains (sample_config b)). \<forall>d \<in> set (sb_SupportedDestinations s). sd_addresses d = []"
  by (simp add: sample_config_def sample_source_def)

lemma sample_registered: "registered sample_rid_env sample_cfg (mc_applicationRelayers (sample_mc origin))"
proof -
  obtain s where s: "cfg_SourceBlockchains sample_cfg = [s]"
    using sample_validated(3) by (auto simp: length_Suc_conv)
  have "length (GetConfigRelayerIDs sample_rid_env sample_cfg) = 1"
    using arg_cong [OF sample_validated(2), of length] by simp
  then obtain rid where "GetConfigRelayerIDs sample_rid_env sample_cfg = [rid]" by (auto simp: length_Suc_conv)
  then show ?thesis
    by (simp add: registered_def sample_mc_def NewMessageCoordinator_def s GetConfigRelayerIDs_def)
qed

lemma collision_free_list:
  assumes "distinct (map (\<lambda>p. rk_Keccak256Hash env (route_text env p)) ps)"
  shows "collision_free env (set ps)"
  using assms unfolding collision_free_def distinct_map inj_on_def by blast

lemma sample_collision_free:
  "collision_free sample_rid_env (rid_route ` set (GetConfigRelayerIDs sample_rid_env sample_cfg) \<union> set (lookups (5, 7, 6, 2)))"
proof -
  have "distinct (map (\<lambda>p. rk_Keccak256Hash sample_rid_env (route_text sample_rid_env p)) (lookups (5, 7, 6, 2)))"
    by code_simp
  moreover have "rid_route ` set (GetConfigRelayerIDs sample_rid_env sample_cfg) = {(5, 7, 6, 0)}"
    using arg_cong [OF sample_validated(2), of set] by simp
  then have "rid_route ` set (GetConfigRelayerIDs sample_rid_env sample_cfg) \<union> set (lookups (5, 7, 6, 2)) = set (lookups (5, 7, 6, 2))"
    by (auto simp: lookups_def)
  ultimately show ?thesis using collision_free_list by metis
qed

section \<open>Properties\<close>

text \<open>
  C5: The lookup of application relayers implements the routing rule of a validated configuration:
  a message finds a relayer exactly when a configured source allows its sender and its destination
  address, and the relayer found is one of that source and matches the message, each of its
  addresses equal to the message's or the wildcard.
\<close>

theorem routing_matches_config:
  assumes "Config_Validate cenv c = Inr cfg"
    and "\<forall>s \<in> set (cfg_SourceBlockchains c). \<forall>d \<in> set (sb_SupportedDestinations s). sd_addresses d = []"
    and "rid_env_ok env" and "registered env cfg (mc_applicationRelayers mc)"
    and "collision_free env (rid_route ` set (GetConfigRelayerIDs env cfg) \<union> set (lookups (src, dst, origin, addr)))"
  shows "case getApplicationRelayer env mc src origin dst addr of
      None \<Rightarrow> \<forall>s \<in> set (cfg_SourceBlockchains cfg). \<not> allows s (src, dst, origin, addr)
    | Some r \<Rightarrow> rid_route (ar_relayerID r) \<in> set (lookups (src, dst, origin, addr)) \<and>
        (\<exists>s \<in> set (cfg_SourceBlockchains cfg). allows s (src, dst, origin, addr) \<and>
           ar_relayerID r \<in> set (GetSourceBlockchainRelayerIDs env s))"
  by (rule routed_as_allowed [OF assms(3,5,4) validated_no_zero [OF assms(1,2)] refl])

theorem routing_matches_config_witness:
  "\<exists>r. getApplicationRelayer sample_rid_env (sample_mc 6) 5 6 7 2 = Some r \<and>
     rid_route (ar_relayerID r) \<in> set (lookups (5, 7, 6, 2))"
proof -
  have "case getApplicationRelayer sample_rid_env (sample_mc 6) 5 6 7 2 of None \<Rightarrow> False | Some _ \<Rightarrow> True"
    by code_simp
  then obtain r where "getApplicationRelayer sample_rid_env (sample_mc 6) 5 6 7 2 = Some r"
    by (cases "getApplicationRelayer sample_rid_env (sample_mc 6) 5 6 7 2") (simp_all only: option.case)
  with routing_matches_config [OF sample_validated(1) sample_fresh sample_rid_env_ok sample_registered sample_collision_free, of 6]
  show ?thesis by (simp only: option.case) blast
qed

text \<open>
  C3: A block hands out its messages as the configuration says: a message of a supported protocol
  is handed, with the height of its block, to a relayer of its chain exactly when some configured
  source allows its route.
\<close>

theorem allowed_messages_dispatched:
  assumes "Config_Validate cenv c = Inr cfg"
    and "\<forall>s \<in> set (cfg_SourceBlockchains c). \<forall>d \<in> set (sb_SupportedDestinations s). sd_addresses d = []"
    and "rid_env_ok env" and "registered env cfg (mc_applicationRelayers mc)"
    and "collision_free env (rid_route ` set (GetConfigRelayerIDs env cfg) \<union> set (lookups (b, dst, origin, addr)))"
    and "NewWarpBlockInfo tenv ctx ethClient header = Some (Inr block)" and "m \<in> set (Messages block)"
    and "mc_messageHandlerFactories mc (um_SourceChainID (UnsignedMessage m)) = Some factories"
    and "factories (SourceAddress m) = Some factory" and "factory (UnsignedMessage m) = Inr handler"
    and "mh_GetMessageRoutingInfo handler = Inr (b, origin, dst, addr)"
  shows "\<exists>ds. ProcessBlock env tenv ctx mc header b ethClient = Some (Inr ds) \<and>
    ((\<exists>k hs. (k, BlockNumber block, hs) \<in> set ds \<and> handler \<in> set hs) \<longleftrightarrow>
     (\<exists>s \<in> set (cfg_SourceBlockchains cfg). allows s (b, dst, origin, addr)))"
proof -
  obtain ds where ds: "ProcessBlock env tenv ctx mc header b ethClient = Some (Inr ds)"
    using assms(6) by (simp add: ProcessBlock_def Let_def)
  note route = routed_as_allowed [OF assms(3,5,4) validated_no_zero [OF assms(1,2)] refl]
  have m: "getAppRelayerMessageHandler env mc m =
      (case getApplicationRelayer env mc b origin dst addr of None \<Rightarrow> Inr None | Some r \<Rightarrow> Inr (Some (r, handler)))"
    using assms(8-11) by (simp add: getAppRelayerMessageHandler_def)
  have "(\<exists>m \<in> set (Messages block). \<exists>k r. (k, r) \<in> set (mc_applicationRelayers mc) \<and> sb_blockchainID (ar_sourceBlockchain r) = b \<and>
      handler \<in> set (routed_to env mc k m)) \<longleftrightarrow> getApplicationRelayer env mc b origin dst addr \<noteq> None" (is "?L \<longleftrightarrow> ?R")
  proof
    assume ?L
    then obtain m' r where "getAppRelayerMessageHandler env mc m' = Inr (Some (r, handler))"
      unfolding routed_to_iff by blast
    from getAppRelayer_cases [OF this] assms(11) show ?R by auto
  next
    assume ?R
    then obtain r where r: "getApplicationRelayer env mc b origin dst addr = Some r" by blast
    obtain k where k: "(k, r) \<in> set (mc_applicationRelayers mc)" using lookup_Some [OF r] by (blast dest: map_of_SomeD)
    have "SourceBlockchainID (ar_relayerID r) = b" using route r lookups_source by fastforce
    with relayer_source [OF assms(4) k] have src: "sb_blockchainID (ar_sourceBlockchain r) = b" "rid_ID (ar_relayerID r) = k" by auto
    have "handler \<in> set (routed_to env mc k m)" unfolding routed_to_iff using m r src(2) by auto
    with assms(7) k src(1) show ?L by blast
  qed
  moreover have "getApplicationRelayer env mc b origin dst addr \<noteq> None \<longleftrightarrow>
      (\<exists>s \<in> set (cfg_SourceBlockchains cfg). allows s (b, dst, origin, addr))"
    using route by (cases "getApplicationRelayer env mc b origin dst addr") auto
  ultimately show ?thesis using ds dispatched_iff_routed [OF assms(4,6) ds] by blast
qed

theorem allowed_messages_dispatched_witness:
  "\<exists>ds k hs. ProcessBlock sample_rid_env sample_types_env sample_ctx (sample_mc 6) sample_header 5
       (\<lambda>_ _. Inr [\<lparr>log_Topics = [17, 9, 99], log_Data = [7]\<rparr>]) = Some (Inr ds) \<and>
     (k, 11, hs) \<in> set ds \<and> sample_routed_mh 6 \<in> set hs"
proof -
  let ?client = "\<lambda>_ _. Inr [\<lparr>log_Topics = [17, 9, 99], log_Data = [7]\<rparr>]"
  have block: "NewWarpBlockInfo sample_types_env sample_ctx ?client sample_header =
      Some (Inr \<lparr>BlockNumber = 11, Messages = [sample_info]\<rparr>)"
    by (simp add: NewWarpBlockInfo_def sample_types_env_def sample_header_def CallWithRetry_def CallWithRetry_from.simps
        NewWarpMessageInfo_def UnpackWarpMessage_def sample_info_def sample_ctx_def)
  have "\<exists>s \<in> set (cfg_SourceBlockchains sample_cfg). allows s (5, 7, 6, 2)"
    by code_simp
  moreover have "mc_messageHandlerFactories (sample_mc 6) (um_SourceChainID (UnsignedMessage sample_info)) =
      Some [9 \<mapsto> (\<lambda>_. Inr (sample_routed_mh 6))]" "SourceAddress sample_info = 9"
    by (simp_all add: sample_mc_def NewMessageCoordinator_def sample_info_def sample_um_def)
  moreover have "mh_GetMessageRoutingInfo (sample_routed_mh 6) = Inr (5, 6, 7, 2)" by (simp add: sample_routed_mh_def)
  moreover note allowed_messages_dispatched [OF sample_validated(1) sample_fresh sample_rid_env_ok sample_registered [of 6]
      sample_collision_free block, where m = sample_info and factories = "[9 \<mapsto> (\<lambda>_. Inr (sample_routed_mh 6))]"
      and factory = "\<lambda>_. Inr (sample_routed_mh 6)" and handler = "sample_routed_mh 6"]
  ultimately show ?thesis by auto
qed

end
