(* ===== verification/Aggregator_Config.thy ===== *)
theory Aggregator_Config
  imports Relayer_Config
begin

text \<open>
  \<^verbatim>\<open>signature-aggregator/config\<close> and \<^verbatim>\<open>peers/utils\<close>: the configuration of the signature aggregator
  service, its defaults and validation, and the RPC options that an API configuration stands for.
\<close>

section \<open>The configuration\<close>

record aggregator_config =
  ac_LogLevel :: string
  ac_PChainAPI :: "api_config option"
  ac_InfoAPI :: "api_config option"
  ac_APIPort :: "16 word"
  ac_MetricsPort :: "16 word"
  ac_SignatureCacheSize :: u64
  ac_EtnaTime :: "int option"

text \<open>What the configuration file gives; a missing option takes its default.\<close>

record aggregator_options =
  ao_LogLevel :: "string option"
  ao_PChainAPI :: "api_config option"
  ao_InfoAPI :: "api_config option"
  ao_APIPort :: "16 word option"
  ao_MetricsPort :: "16 word option"
  ao_SignatureCacheSize :: "u64 option"
  ao_EtnaTime :: "int option"

definition defaultAPIPort :: "16 word" where
  "defaultAPIPort = 8080"

definition defaultMetricsPort :: "16 word" where
  "defaultMetricsPort = 8081"

definition DefaultSignatureCacheSize :: u64 where
  "DefaultSignatureCacheSize = 1024 * 1024"

text \<open>The default log level is avalanchego's text of a level.\<close>

definition SetDefaultConfigValues :: "string \<Rightarrow> aggregator_options \<Rightarrow> aggregator_options" where
  "SetDefaultConfigValues defaultLogLevel v =
     v\<lparr>ao_LogLevel := Some (case ao_LogLevel v of None \<Rightarrow> defaultLogLevel | Some l \<Rightarrow> l),
       ao_APIPort := Some (case ao_APIPort v of None \<Rightarrow> defaultAPIPort | Some p \<Rightarrow> p),
       ao_MetricsPort := Some (case ao_MetricsPort v of None \<Rightarrow> defaultMetricsPort | Some p \<Rightarrow> p),
       ao_SignatureCacheSize := Some (case ao_SignatureCacheSize v of None \<Rightarrow> DefaultSignatureCacheSize | Some n \<Rightarrow> n)\<rparr>"

text \<open>\<open>unmarshal\<close> is viper's; its error is wrapped. An option that is not set is left at zero.\<close>

definition aggregator_BuildConfig ::
  "string \<Rightarrow> (aggregator_options \<Rightarrow> error option) \<Rightarrow> aggregator_options \<Rightarrow> aggregator_config result" where
  "aggregator_BuildConfig defaultLogLevel unmarshal v0 =
     (let v = SetDefaultConfigValues defaultLogLevel v0
      in case unmarshal v of
           Some e \<Rightarrow> Inl (Wrap ''failed to unmarshal viper config'' e)
         | None \<Rightarrow> Inr \<lparr>ac_LogLevel = case_option [] id (ao_LogLevel v), ac_PChainAPI = ao_PChainAPI v, ac_InfoAPI = ao_InfoAPI v,
             ac_APIPort = case_option 0 id (ao_APIPort v), ac_MetricsPort = case_option 0 id (ao_MetricsPort v),
             ac_SignatureCacheSize = case_option 0 id (ao_SignatureCacheSize v), ac_EtnaTime = ao_EtnaTime v\<rparr>)"

text \<open>A method call on a missing API configuration dereferences a nil pointer.\<close>

definition aggregator_Config_Validate :: "cfg_env \<Rightarrow> aggregator_config \<Rightarrow> error option" where
  "aggregator_Config_Validate env c =
     (case validate_api env (ac_PChainAPI c) of
        Some e \<Rightarrow> Some e
      | None \<Rightarrow> validate_api env (ac_InfoAPI c))"

definition aggregator_NewConfig ::
  "cfg_env \<Rightarrow> string \<Rightarrow> (aggregator_options \<Rightarrow> error option) \<Rightarrow> aggregator_options \<Rightarrow> aggregator_config result" where
  "aggregator_NewConfig env defaultLogLevel unmarshal v =
     (case aggregator_BuildConfig defaultLogLevel unmarshal v of
        Inl e \<Rightarrow> Inl e
      | Inr cfg \<Rightarrow>
          (case aggregator_Config_Validate env cfg of
             Some e \<Rightarrow> Inl (err_wrap ''failed to validate configuration'' e)
           | None \<Rightarrow> Inr cfg))"

section \<open>RPC options\<close>

datatype rpc_option = WithQueryParam string string | WithHeader string string

definition InitializeOptions :: "api_config \<Rightarrow> rpc_option list" where
  "InitializeOptions apiConfig =
     map (\<lambda>(key, v). WithQueryParam key v) (QueryParams apiConfig) @ map (\<lambda>(key, v). WithHeader key v) (HTTPHeaders apiConfig)"

section \<open>What a configuration has\<close>

text \<open>
  A configuration that is accepted names both APIs with base URLs that parse, and the options that
  are not given have their defaults; a signature cache of size 0 is accepted here when it is given.
\<close>

lemma aggregator_NewConfig_ok:
  assumes "aggregator_NewConfig env defaultLogLevel unmarshal v = Inr cfg"
  shows "(\<exists>p i. ac_PChainAPI cfg = Some p \<and> ac_InfoAPI cfg = Some i \<and>
      ce_ParseRequestURI env (BaseURL p) = None \<and> ce_ParseRequestURI env (BaseURL i) = None) \<and>
    ac_SignatureCacheSize cfg = (case ao_SignatureCacheSize v of None \<Rightarrow> 1048576 | Some n \<Rightarrow> n) \<and>
    ac_APIPort cfg = (case ao_APIPort v of None \<Rightarrow> 8080 | Some p \<Rightarrow> p)"
  using assms
  by (auto simp: aggregator_NewConfig_def aggregator_BuildConfig_def aggregator_Config_Validate_def validate_api_def APIConfig_Validate_def
      SetDefaultConfigValues_def DefaultSignatureCacheSize_def defaultAPIPort_def Let_def split: sum.splits option.splits)

lemma InitializeOptions_complete:
  "(WithQueryParam k v \<in> set (InitializeOptions c) \<longleftrightarrow> (k, v) \<in> set (QueryParams c)) \<and>
   (WithHeader k v \<in> set (InitializeOptions c) \<longleftrightarrow> (k, v) \<in> set (HTTPHeaders c))"
  by (force simp: InitializeOptions_def)

end
