(* ===== verification/Relayer_API.thy ===== *)
theory Relayer_API
  imports Message_Coordinator Aggregator_Config
begin

text \<open>
  \<^verbatim>\<open>relayer/api\<close> and \<^verbatim>\<open>signature-aggregator/api\<close>: the HTTP handlers of the relayer and of the
  signature aggregator. The body of a request arrives as decoded, or with the error of the JSON
  decoder. Marshalling a record of strings does not fail. The theory shows what a successful answer
  of each handler means and that a rejected request has no effect.
\<close>

section \<open>Answers\<close>

datatype response_body = ErrorBody error | TransactionHash string | SignedMessage string

record http_response =
  resp_Status :: nat
  resp_Body :: response_body

definition StatusOK :: nat where
  "StatusOK = 200"

definition StatusBadRequest :: nat where
  "StatusBadRequest = 400"

definition StatusInternalServerError :: nat where
  "StatusInternalServerError = 500"

lemmas [go_simps] = StatusOK_def StatusBadRequest_def StatusInternalServerError_def

definition http_Error :: "error \<Rightarrow> nat \<Rightarrow> http_response" where
  "http_Error e code = \<lparr>resp_Status = code, resp_Body = ErrorBody e\<rparr>"

section \<open>The health of the relayer\<close>

text \<open>The health of each source chain, in the order of the iteration; the answer of the check.\<close>

definition unhealthyRelayers :: "ids_env \<Rightarrow> (ids_ID \<times> bool) list \<Rightarrow> string list" where
  "unhealthyRelayers env relayerHealth = map (\<lambda>(i, h). ids_String env i) (filter (\<lambda>(i, h). \<not> h) relayerHealth)"

definition healthCheck :: "ids_env \<Rightarrow> (ids_ID \<times> bool) list \<Rightarrow> error option" where
  "healthCheck env relayerHealth =
     (if length (unhealthyRelayers env relayerHealth) > 0
      then Some (Errorf ''relayers are unhealthy for blockchains'') else None)"

section \<open>Relaying through the API\<close>

record relay_message_request =
  rq_BlockchainID :: string
  rq_MessageID :: string
  rq_BlockNum :: u64

record manual_warp_message_request =
  rq_UnsignedMessageBytes :: bytes
  rq_SourceAddress :: string

text \<open>The functions of go-ethereum and avalanchego that the handlers call.\<close>

record api_env =
  ap_HexToAddress :: "string \<Rightarrow> address"
  ap_HashHex :: "hash \<Rightarrow> string"
  ap_MessageBytes :: "warp_message \<Rightarrow> bytes"
  ap_ids :: ids_env
  ap_types :: types_env

definition relay_answer :: "api_env \<Rightarrow> hash result go_outcome \<times> 's \<Rightarrow> http_response go_outcome \<times> 's" where
  "relay_answer aenv r =
     (case r of
        (Done (Inl e), st) \<Rightarrow> (Done (http_Error (err_wrap ''error processing message'' e) StatusInternalServerError), st)
      | (Done (Inr txHash), st) \<Rightarrow> (Done \<lparr>resp_Status = StatusOK, resp_Body = TransactionHash (ap_HashHex aenv txHash)\<rparr>, st)
      | (Blocked, st) \<Rightarrow> (Blocked, st)
      | (Panicked, st) \<Rightarrow> (Panicked, st))"

definition relayMessageAPIHandler ::
  "api_env \<Rightarrow> ('pk, 'sig, 'n) relay_env \<Rightarrow> rid_env \<Rightarrow> int \<Rightarrow> ('dc, 'w) message_coordinator \<Rightarrow> manual_warp_message_request result
     \<Rightarrow> ('c, 'n, 'w) relay_state \<Rightarrow> http_response go_outcome \<times> ('c, 'n, 'w) relay_state" where
  "relayMessageAPIHandler aenv env renv now mc body st =
     (case body of
        Inl e \<Rightarrow> (Done (http_Error e StatusBadRequest), st)
      | Inr req \<Rightarrow>
          (case UnpackWarpMessage (ap_types aenv) (rq_UnsignedMessageBytes req) of
             Inl e \<Rightarrow> (Done (http_Error e StatusBadRequest), st)
           | Inr unsignedMessage \<Rightarrow>
               relay_answer aenv (ProcessWarpMessage env renv now mc
                 \<lparr>SourceAddress = ap_HexToAddress aenv (rq_SourceAddress req), UnsignedMessage = unsignedMessage\<rparr> st)))"

definition relayAPIHandler ::
  "api_env \<Rightarrow> ('pk, 'sig, 'n) relay_env \<Rightarrow> rid_env \<Rightarrow> int \<Rightarrow> ('dc, 'w) message_coordinator \<Rightarrow> relay_message_request result
     \<Rightarrow> ('c, 'n, 'w) relay_state \<Rightarrow> http_response go_outcome \<times> ('c, 'n, 'w) relay_state" where
  "relayAPIHandler aenv env renv now mc body st =
     (case body of
        Inl e \<Rightarrow> (Done (http_Error e StatusBadRequest), st)
      | Inr req \<Rightarrow>
          (case HexOrCB58ToID (ap_ids aenv) (rq_BlockchainID req) of
             Inl e \<Rightarrow> (Done (http_Error (err_wrap ''invalid blockchainID'' e) StatusBadRequest), st)
           | Inr blockchainID \<Rightarrow>
               (case HexOrCB58ToID (ap_ids aenv) (rq_MessageID req) of
                  Inl e \<Rightarrow> (Done (http_Error (err_wrap ''invalid messageID'' e) StatusBadRequest), st)
                | Inr messageID \<Rightarrow>
                    relay_answer aenv (ProcessMessageID env renv (ap_types aenv) now mc blockchainID messageID (uint (rq_BlockNum req)) st))))"

section \<open>The signature aggregator's API\<close>

record aggregate_signature_request =
  as_Message :: string
  as_Justification :: string
  as_SigningSubnetID :: string
  as_QuorumPercentage :: u64

definition DefaultQuorumPercentage :: u64 where
  "DefaultQuorumPercentage = 67"

definition writeJSONError :: "nat \<Rightarrow> string \<Rightarrow> http_response" where
  "writeJSONError httpStatusCode errorMsg = \<lparr>resp_Status = httpStatusCode, resp_Body = ErrorBody (Errorf errorMsg)\<rparr>"

text \<open>The arguments of the aggregator: message, justification, quorum and signing subnet.\<close>

definition parse_request ::
  "api_env \<Rightarrow> aggregate_signature_request \<Rightarrow> http_response + (unsigned_message \<times> bytes \<times> ids_ID \<times> u64)" where
  "parse_request aenv req =
     (case hex_DecodeString (TrimPrefix (as_Message req) ''0x'') of
        Inl e \<Rightarrow> Inl (writeJSONError StatusBadRequest ''Could not decode message'')
      | Inr decodedMessage \<Rightarrow>
          (case UnpackWarpMessage (ap_types aenv) decodedMessage of
             Inl e \<Rightarrow> Inl (writeJSONError StatusBadRequest ''Error unpacking warp message'')
           | Inr message \<Rightarrow>
               (case hex_DecodeString (SanitizeHexString (as_Justification req)) of
                  Inl e \<Rightarrow> Inl (writeJSONError StatusBadRequest ''Could not decode justification'')
                | Inr justification \<Rightarrow>
                    if IsEmptyOrZeroes (um_Bytes message) \<and> IsEmptyOrZeroes justification
                    then Inl (writeJSONError StatusBadRequest ''Must provide either message or justification'')
                    else if as_QuorumPercentage req \<noteq> 0 \<and> as_QuorumPercentage req > 100
                    then Inl (writeJSONError StatusBadRequest ''Invalid quorum number'')
                    else (let quorumPercentage = (if as_QuorumPercentage req = 0 then DefaultQuorumPercentage else as_QuorumPercentage req)
                          in if as_SigningSubnetID req \<noteq> [] then
                               (case HexOrCB58ToID (ap_ids aenv) (as_SigningSubnetID req) of
                                  Inl e \<Rightarrow> Inl (writeJSONError StatusBadRequest ''Error parsing signing subnet ID'')
                                | Inr signingSubnetID \<Rightarrow> Inr (message, justification, signingSubnetID, quorumPercentage))
                             else Inr (message, justification, 0, quorumPercentage)))))"

text \<open>The state: the count of requests, the aggregator and the network.\<close>

definition signatureAggregationAPIHandler ::
  "api_env \<Rightarrow> ('pk, 'sig) agg_env \<Rightarrow> ('pk, 'n) app_network \<Rightarrow> int \<Rightarrow> aggregate_signature_request result
     \<Rightarrow> nat \<times> 'c aggregator \<times> 'n \<Rightarrow> http_response go_outcome \<times> nat \<times> 'c aggregator \<times> 'n" where
  "signatureAggregationAPIHandler aenv env nw now body st =
     (case st of (requests, s, n) \<Rightarrow>
        (case body of
           Inl e \<Rightarrow> (Done (writeJSONError StatusBadRequest ''Could not decode request body''), requests + 1, s, n)
         | Inr req \<Rightarrow>
             (case parse_request aenv req of
                Inl resp \<Rightarrow> (Done resp, requests + 1, s, n)
              | Inr (message, justification, signingSubnetID, quorumPercentage) \<Rightarrow>
                  (case CreateSignedMessage env nw now message justification signingSubnetID quorumPercentage s n of
                     (Done (Inl e), s', n') \<Rightarrow>
                       (Done (writeJSONError StatusInternalServerError ''Failed to aggregate signatures''), requests + 1, s', n')
                   | (Done (Inr signedMessage), s', n') \<Rightarrow>
                       (Done \<lparr>resp_Status = StatusOK, resp_Body = SignedMessage (hex_EncodeToString (ap_MessageBytes aenv signedMessage))\<rparr>,
                        requests + 1, s', n')
                   | (Blocked, s', n') \<Rightarrow> (Blocked, requests + 1, s', n')
                   | (Panicked, s', n') \<Rightarrow> (Panicked, requests + 1, s', n')))))"

section \<open>Requests\<close>

lemma parse_request_quorum:
  assumes "parse_request aenv req = Inr (um, justification, subnet, quorum)"
  shows "quorum = (if as_QuorumPercentage req = 0 then 67 else as_QuorumPercentage req) \<and> 1 \<le> quorum \<and> quorum \<le> 100"
proof -
  have q: "quorum = (if as_QuorumPercentage req = 0 then 67 else as_QuorumPercentage req)" "as_QuorumPercentage req \<le> 100"
    using assms by (auto simp: parse_request_def Let_def DefaultQuorumPercentage_def not_less split: sum.splits if_splits)
  then have "quorum \<noteq> 0" by simp
  then have "1 \<le> quorum" by (metis linorder_not_le word_less_1)
  with q show ?thesis by auto
qed

lemma parse_request_status: "parse_request aenv req = Inl resp \<Longrightarrow> resp_Status resp = 400"
  by (auto simp: parse_request_def writeJSONError_def Let_def go_simps split: sum.splits if_splits)

lemma aggregation_success:
  assumes "signatureAggregationAPIHandler aenv env nw now (Inr req) (k, s, n) = (Done resp, k', s', n')" and "resp_Status resp = 200"
  shows "\<exists>um justification subnet quorum msg. parse_request aenv req = Inr (um, justification, subnet, quorum) \<and>
    CreateSignedMessage env nw now um justification subnet quorum s n = (Done (Inr msg), s', n') \<and>
    resp_Body resp = SignedMessage (hex_EncodeToString (ap_MessageBytes aenv msg))"
proof (cases "parse_request aenv req")
  case (Inl r)
  then have "resp = r" using assms(1) by (simp add: signatureAggregationAPIHandler_def)
  with parse_request_status [OF Inl] assms(2) show ?thesis by simp
next
  case (Inr p)
  obtain um justification subnet quorum where p: "p = (um, justification, subnet, quorum)" by (metis prod_cases4)
  show ?thesis
    using assms Inr p
    by (auto simp: signatureAggregationAPIHandler_def writeJSONError_def go_simps split: prod.splits go_outcome.splits sum.splits)
qed

lemma relay_answer_cases:
  assumes "relay_answer aenv (r, st) = (Done resp, st')"
  shows "st' = st \<and> ((\<exists>e. r = Done (Inl e) \<and> resp_Status resp = 500) \<or>
    (\<exists>txHash. r = Done (Inr txHash) \<and> resp = \<lparr>resp_Status = 200, resp_Body = TransactionHash (ap_HashHex aenv txHash)\<rparr>))"
  using assms by (auto simp: relay_answer_def http_Error_def go_simps split: go_outcome.splits sum.splits)

text \<open>
  A request for signatures with a justification but no message is refused although the request
  type asks for either of them: the empty message does not parse.
\<close>

lemma justification_only_refused:
  assumes "UnpackWarpMessage (ap_types aenv) [] = Inl e" and "as_Message req \<in> {[], ''0x''}"
  shows "signatureAggregationAPIHandler aenv env nw now (Inr req) (k, s, n) =
    (Done (writeJSONError StatusBadRequest ''Error unpacking warp message''), k + 1, s, n)"
  using assms by (auto simp: signatureAggregationAPIHandler_def parse_request_def TrimPrefix_def HasPrefix_def)

section \<open>A concrete server\<close>

definition sample_api_env :: api_env where
  "sample_api_env = \<lparr>ap_HexToAddress = \<lambda>_. 9, ap_HashHex = \<lambda>h. if h = 7 then ''0x07'' else ''0x00'', ap_MessageBytes = wm_Signers,
     ap_ids = sample_ids_env, ap_types = sample_types_env\<rparr>"

definition sample_aggregate_request :: aggregate_signature_request where
  "sample_aggregate_request = \<lparr>as_Message = ''0x07'', as_Justification = [], as_SigningSubnetID = [], as_QuorumPercentage = 0\<rparr>"

definition sample_relay_request :: relay_message_request where
  "sample_relay_request = \<lparr>rq_BlockchainID = ''C5'', rq_MessageID = ''C99'', rq_BlockNum = 11\<rparr>"

section \<open>Properties\<close>

text \<open>
  The signature aggregator's API answers a request with success only with the text of a
  message whose signers, when no node answers twice, hold at least the percentage asked for of the
  stake of the signing subnet; the percentage is the one of the request, between 1 and 100, or 67
  when the request gives none.
\<close>

theorem aggregate_api_quorum:
  assumes "network_single Vs n" and "map_order_ok env" and "distinguished Ms Vs"
    and "parse_request aenv req = Inr (um, justification, subnet, quorum)" and "um \<in> Ms"
    and "cache_verified env Ms Vs (sa_cache s)"
    and "signatureAggregationAPIHandler aenv env network_ops now (Inr req) (k, s, n) = (Done resp, k', s', n')"
    and "resp_Status resp = 200"
  shows "quorum = (if as_QuorumPercentage req = 0 then 67 else as_QuorumPercentage req) \<and> 1 \<le> quorum \<and> quorum \<le> 100 \<and>
    (\<exists>msg text cv m agg sourceSubnet. resp_Body resp = SignedMessage text \<and> hex_DecodeString text = Inr (ap_MessageBytes aenv msg) \<and>
       fst (getSubnetID network_ops (um_SourceChainID um) s n) = Inr sourceSubnet \<and>
       GetCurrentCanonicalValidatorSet (nt_env n) (if subnet = 0 then sourceSubnet else subnet) =
         Inr (ValidatorSet cv, TotalValidatorWeight cv) \<and>
       sigs_ok env cv um m \<and> uint (TotalValidatorWeight cv) * uint quorum \<le> signer_weight cv m * 100 \<and>
       aggregateSignatures env m = Inr (agg, fst ` set m) \<and>
       warp_NewMessage env um (bits_Bytes env (fst ` set m)) (take SignatureLen (bls_SignatureToBytes env agg)) = Inr msg)"
proof -
  obtain msg where "CreateSignedMessage env network_ops now um justification subnet quorum s n = (Done (Inr msg), s', n')"
      and body: "resp_Body resp = SignedMessage (hex_EncodeToString (ap_MessageBytes aenv msg))"
    using aggregation_success [OF assms(7,8)] assms(4) by auto
  from quorum_of_signed [OF assms(1,2,3,5,6) this(1)] body parse_request_quorum [OF assms(4)] hex_DecodeString_EncodeToString
  show ?thesis by blast
qed

theorem aggregate_api_quorum_witness:
  "\<exists>cv m. sigs_ok sample_agg_env cv sample_um m \<and> uint (TotalValidatorWeight cv) * 67 \<le> signer_weight cv m * 100 \<and>
     resp_Body \<lparr>resp_Status = 200, resp_Body = SignedMessage ''010100''\<rparr> = SignedMessage (hex_EncodeToString [1, 1, 0])"
proof -
  let ?n = "sample_network [sample_vdr 1 60 [1], sample_vdr 2 40 [2]] [sample_response 1 1, sample_response 2 2]"
  let ?resp = "\<lparr>resp_Status = 200, resp_Body = SignedMessage ''010100''\<rparr>"
  have parse: "parse_request sample_api_env sample_aggregate_request = Inr (sample_um, [], 0, 67)"
    by code_simp
  obtain s' n' where "CreateSignedMessage sample_agg_env network_ops 0 sample_um [] 0 67 sample_aggregator ?n =
      (Done (Inr \<lparr>wm_Unsigned = sample_um, wm_Signers = [1, 1, 0], wm_Signature = replicate 96 1\<rparr>), s', n')"
    using sample_create by (metis prod.collapse)
  moreover have hex: "hex_EncodeToString [1, 1, 0] = ''010100''" by code_simp
  ultimately have h: "signatureAggregationAPIHandler sample_api_env sample_agg_env network_ops 0 (Inr sample_aggregate_request)
      (0, sample_aggregator, ?n) = (Done ?resp, 1, s', n')"
    using parse by (simp add: signatureAggregationAPIHandler_def sample_api_env_def go_simps)
  from aggregate_api_quorum [OF sample_network_single sample_map_order sample_distinguished parse insertI1 sample_cache_verified h]
  obtain cv m where "sigs_ok sample_agg_env cv sample_um m"
      "uint (TotalValidatorWeight cv) * uint (67 :: u64) \<le> signer_weight cv m * 100"
    by auto
  with hex show ?thesis by auto
qed



end
