(* ===== verification/Destination_Client.thy ===== *)
theory Destination_Client
  imports Evm_Signer Warp_Types
begin

text \<open>
  \<^verbatim>\<open>utils/client_utils.go\<close>, \<^verbatim>\<open>vms/evm/destination_client.go\<close> and \<^verbatim>\<open>vms/destination_client.go\<close>: the clients
  that send transactions to the destination chains. A client keeps the nonce of the relayer's
  account and uses it under a lock, so that a call of \<^verbatim>\<open>SendTx\<close> from the lock on is one step. The
  theory shows that the transactions a client gets accepted have consecutive nonces.
\<close>

section \<open>RPC clients\<close>

text \<open>The parts of a URL and the functions of \<^verbatim>\<open>net/url\<close> used on them; dialling is the RPC package's.\<close>

record url_parts =
  up_Rest :: string
  up_RawQuery :: string

record url_env =
  ue_ParseRequestURI :: "string \<Rightarrow> url_parts result"
  ue_Query :: "string \<Rightarrow> string \<Rightarrow> string list"
  ue_Encode :: "(string \<Rightarrow> string list) \<Rightarrow> string"
  ue_String :: "url_parts \<Rightarrow> string"
  ue_DialOptions :: "string \<Rightarrow> (string \<times> string) list \<Rightarrow> error option"

record rpc_client =
  rc_url :: string
  rc_headers :: "(string \<times> string) list"

definition ErrInvalidEndpoint :: error where
  "ErrInvalidEndpoint = Sentinel ''invalid rpc endpoint''"

definition values_Add :: "string \<times> string \<Rightarrow> (string \<Rightarrow> string list) \<Rightarrow> string \<Rightarrow> string list" where
  "values_Add kv vs = (case kv of (key, v) \<Rightarrow> vs(key := vs key @ [v]))"

definition addQueryParams :: "url_env \<Rightarrow> string \<Rightarrow> (string \<times> string) list \<Rightarrow> string result" where
  "addQueryParams env endpoint queryParams =
     (case ue_ParseRequestURI env endpoint of
        Inl e \<Rightarrow> Inl (Wrap ''invalid rpc endpoint'' ErrInvalidEndpoint)
      | Inr uri \<Rightarrow>
          Inr (ue_String env (uri\<lparr>up_RawQuery := ue_Encode env (fold values_Add queryParams (ue_Query env (up_RawQuery uri)))\<rparr>)))"

definition newClientHeaderOptions :: "(string \<times> string) list \<Rightarrow> (string \<times> string) list" where
  "newClientHeaderOptions httpHeaders = map (\<lambda>(key, v). (key, v)) httpHeaders"

definition DialWithConfig ::
  "url_env \<Rightarrow> string \<Rightarrow> (string \<times> string) list \<Rightarrow> (string \<times> string) list \<Rightarrow> rpc_client result" where
  "DialWithConfig env baseURL httpHeaders queryParams =
     (case addQueryParams env baseURL queryParams of
        Inl e \<Rightarrow> Inl e
      | Inr url \<Rightarrow>
          (case ue_DialOptions env url (newClientHeaderOptions httpHeaders) of
             Some e \<Rightarrow> Inl e
           | None \<Rightarrow> Inr \<lparr>rc_url = url, rc_headers = newClientHeaderOptions httpHeaders\<rparr>))"

definition NewEthClientWithConfig ::
  "url_env \<Rightarrow> string \<Rightarrow> (string \<times> string) list \<Rightarrow> (string \<times> string) list \<Rightarrow> rpc_client result" where
  "NewEthClientWithConfig env baseURL httpHeaders queryParams = DialWithConfig env baseURL httpHeaders queryParams"

section \<open>The client of a chain\<close>

text \<open>
  What the node behind an RPC client does; \<open>'x\<close> is the state of the destination chains. A receipt
  is looked up repeatedly, each attempt with a result of its own; its value is the status.
\<close>

record 'x eth_ops =
  eo_EstimateBaseFee :: "rpc_client \<Rightarrow> 'x \<Rightarrow> int result \<times> 'x"
  eo_SuggestGasTipCap :: "rpc_client \<Rightarrow> 'x \<Rightarrow> int result \<times> 'x"
  eo_SendTransaction :: "rpc_client \<Rightarrow> signed_tx \<Rightarrow> 'x \<Rightarrow> error option \<times> 'x"
  eo_NonceAt :: "rpc_client \<Rightarrow> address \<Rightarrow> 'x \<Rightarrow> u64 result"
  eo_ChainID :: "rpc_client \<Rightarrow> 'x \<Rightarrow> int result"
  eo_TransactionReceipt :: "rpc_client \<Rightarrow> hash \<Rightarrow> 'x \<Rightarrow> nat \<Rightarrow> u64 result"
  eo_MessageReceived :: "rpc_client \<Rightarrow> address \<Rightarrow> ids_ID \<Rightarrow> 'x \<Rightarrow> bool result"
  eo_GetAddressFromVersion :: "rpc_client \<Rightarrow> address \<Rightarrow> int \<Rightarrow> 'x \<Rightarrow> address result"

record 'k destination_client =
  dc_client :: rpc_client
  dc_destinationBlockchainID :: ids_ID
  dc_signer :: "'k signer"
  dc_evmChainID :: int
  dc_currentNonce :: u64

record ('k, 'x) dest_env =
  de_url :: url_env
  de_ids :: ids_env
  de_signer :: "'k signer_env"
  de_ops :: "'x eth_ops"
  de_HexToAddress :: "string \<Rightarrow> address"
  de_WarpContractAddress :: address
  de_MessageBytes :: "warp_message \<Rightarrow> bytes"
  de_TxHash :: "signed_tx \<Rightarrow> hash"

definition evm_NewDestinationClient :: "('k, 'x) dest_env \<Rightarrow> destination_blockchain \<Rightarrow> 'x \<Rightarrow> 'k destination_client result" where
  "evm_NewDestinationClient env d x =
     (case NewEthClientWithConfig (de_url env) (BaseURL (db_RPCEndpoint d)) (HTTPHeaders (db_RPCEndpoint d)) (QueryParams (db_RPCEndpoint d)) of
        Inl e \<Rightarrow> Inl e
      | Inr client \<Rightarrow>
          (case ids_FromString (de_ids env) (db_BlockchainID d) of
             Inl e \<Rightarrow> Inl e
           | Inr destinationID \<Rightarrow>
               (case NewSigner (de_signer env) d of
                  Inl e \<Rightarrow> Inl e
                | Inr sgnr \<Rightarrow>
                    (case eo_NonceAt (de_ops env) client (signer_Address sgnr) x of
                       Inl e \<Rightarrow> Inl e
                     | Inr nonce \<Rightarrow>
                         (case eo_ChainID (de_ops env) client x of
                            Inl e \<Rightarrow> Inl e
                          | Inr evmChainID \<Rightarrow>
                              Inr \<lparr>dc_client = client, dc_destinationBlockchainID = destinationID, dc_signer = sgnr,
                                   dc_evmChainID = evmChainID, dc_currentNonce = nonce\<rparr>)))))"

definition BaseFeeFactor :: int where
  "BaseFeeFactor = 2"

definition MaxPriorityFeePerGas :: int where
  "MaxPriorityFeePerGas = 2500000000"

text \<open>The transaction for the current nonce.\<close>

definition new_tx ::
  "('k, 'x) dest_env \<Rightarrow> 'k destination_client \<Rightarrow> warp_message \<Rightarrow> string \<Rightarrow> u64 \<Rightarrow> bytes \<Rightarrow> int \<Rightarrow> int \<Rightarrow> predicate_tx" where
  "new_tx env c signedMessage toAddress gasLimit callData baseFee gasTipCap =
     \<lparr>tx_ChainID = dc_evmChainID c, tx_Nonce = dc_currentNonce c, tx_To = de_HexToAddress env toAddress, tx_Gas = gasLimit,
      tx_GasFeeCap = baseFee * BaseFeeFactor + MaxPriorityFeePerGas, tx_GasTipCap = gasTipCap, tx_Value = 0, tx_Data = callData,
      tx_PredicateAddress = de_WarpContractAddress env, tx_PredicateBytes = de_MessageBytes env signedMessage\<rparr>"

text \<open>\<^verbatim>\<open>SendTx\<close> up to the signed transaction; its hash is what \<^verbatim>\<open>SendTx\<close> returns.\<close>

definition send_signed ::
  "('k, 'x) dest_env \<Rightarrow> warp_message \<Rightarrow> string \<Rightarrow> u64 \<Rightarrow> bytes \<Rightarrow> 'k destination_client \<Rightarrow> 'x
     \<Rightarrow> signed_tx result \<times> 'k destination_client \<times> 'x" where
  "send_signed env signedMessage toAddress gasLimit callData c x =
     (case eo_EstimateBaseFee (de_ops env) (dc_client c) x of
        (Inl e, x1) \<Rightarrow> (Inl e, c, x1)
      | (Inr baseFee, x1) \<Rightarrow>
          (case eo_SuggestGasTipCap (de_ops env) (dc_client c) x1 of
             (Inl e, x2) \<Rightarrow> (Inl e, c, x2)
           | (Inr gasTipCap, x2) \<Rightarrow>
               (case SignTx (de_signer env) (dc_signer c)
                       (new_tx env c signedMessage toAddress gasLimit callData baseFee gasTipCap) (dc_evmChainID c) of
                  Inl e \<Rightarrow> (Inl e, c, x2)
                | Inr signedTx \<Rightarrow>
                    (case eo_SendTransaction (de_ops env) (dc_client c) signedTx x2 of
                       (Some e, x3) \<Rightarrow> (Inl e, c, x3)
                     | (None, x3) \<Rightarrow> (Inr signedTx, c\<lparr>dc_currentNonce := dc_currentNonce c + 1\<rparr>, x3)))))"

definition SendTx ::
  "('k, 'x) dest_env \<Rightarrow> warp_message \<Rightarrow> string \<Rightarrow> u64 \<Rightarrow> bytes \<Rightarrow> 'k destination_client \<Rightarrow> 'x
     \<Rightarrow> hash result \<times> 'k destination_client \<times> 'x" where
  "SendTx env signedMessage toAddress gasLimit callData c x =
     (case send_signed env signedMessage toAddress gasLimit callData c x of
        (Inl e, c', x') \<Rightarrow> (Inl e, c', x')
      | (Inr signedTx, c', x') \<Rightarrow> (Inr (de_TxHash env signedTx), c', x'))"

section \<open>The clients of a configuration\<close>

definition NewDestinationClient :: "('k, 'x) dest_env \<Rightarrow> destination_blockchain \<Rightarrow> 'x \<Rightarrow> 'k destination_client result" where
  "NewDestinationClient env d x =
     (case ParseVM (db_VM d) of
        EVM \<Rightarrow> evm_NewDestinationClient env d x
      | _ \<Rightarrow> Inl (Errorf ''invalid vm''))"

fun create_clients ::
  "('k, 'x) dest_env \<Rightarrow> destination_blockchain list \<Rightarrow> 'x \<Rightarrow> (ids_ID \<Rightarrow> 'k destination_client option)
     \<Rightarrow> (ids_ID \<Rightarrow> 'k destination_client option) result" where
  "create_clients env [] x clients = Inr clients"
| "create_clients env (d # ds) x clients =
     (case ids_FromString (de_ids env) (db_BlockchainID d) of
        Inl e \<Rightarrow> Inl e
      | Inr blockchainID \<Rightarrow>
          if clients blockchainID \<noteq> None then create_clients env ds x clients
          else case NewDestinationClient env d x of
              Inl e \<Rightarrow> Inl e
            | Inr c \<Rightarrow> create_clients env ds x (clients(blockchainID \<mapsto> c)))"

definition CreateDestinationClients ::
  "('k, 'x) dest_env \<Rightarrow> relayer_config \<Rightarrow> 'x \<Rightarrow> (ids_ID \<Rightarrow> 'k destination_client option) result" where
  "CreateDestinationClients env cfg x = create_clients env (cfg_DestinationBlockchains cfg) x Map.empty"

section \<open>Sequences of transactions\<close>

text \<open>
  Calls of \<^verbatim>\<open>SendTx\<close> in the order in which they take the lock, each with its message, address, gas
  limit and data; the accepted transactions.
\<close>

fun send_all ::
  "('k, 'x) dest_env \<Rightarrow> (warp_message \<times> string \<times> u64 \<times> bytes) list \<Rightarrow> 'k destination_client \<Rightarrow> 'x
     \<Rightarrow> signed_tx list \<times> 'k destination_client \<times> 'x" where
  "send_all env [] c x = ([], c, x)"
| "send_all env ((msg, to, gas, callData) # calls) c x =
     (case send_signed env msg to gas callData c x of
        (res, c1, x1) \<Rightarrow>
          (case send_all env calls c1 x1 of
             (txs, c2, x2) \<Rightarrow> ((case res of Inr signedTx \<Rightarrow> [signedTx] | Inl _ \<Rightarrow> []) @ txs, c2, x2)))"

text \<open>A signer signs the transaction it is given.\<close>

definition signer_env_ok :: "'k signer_env \<Rightarrow> bool" where
  "signer_env_ok env \<longleftrightarrow>
     (\<forall>tx chain k t. sv_SignTx env tx chain k = Inr t \<longrightarrow> st_tx t = tx) \<and>
     (\<forall>tx chain b t. sv_WithSignature env tx chain b = Inr t \<longrightarrow> st_tx t = tx)"

lemma SignTx_tx: "signer_env_ok env \<Longrightarrow> SignTx env s tx chain = Inr t \<Longrightarrow> st_tx t = tx"
  by (cases s) (auto simp: signer_env_ok_def Let_def split: sum.splits)

lemma send_signed_cases:
  assumes "send_signed env msg to gas callData c x = (res, c', x')"
  shows "(\<exists>e. res = Inl e) \<and> c' = c \<or>
    (\<exists>signedTx baseFee tip. res = Inr signedTx \<and> c' = c\<lparr>dc_currentNonce := dc_currentNonce c + 1\<rparr> \<and>
       SignTx (de_signer env) (dc_signer c) (new_tx env c msg to gas callData baseFee tip) (dc_evmChainID c) = Inr signedTx)"
proof -
  obtain b x1 where b: "eo_EstimateBaseFee (de_ops env) (dc_client c) x = (b, x1)" by force
  obtain tip x2 where t: "eo_SuggestGasTipCap (de_ops env) (dc_client c) x1 = (tip, x2)" by force
  show ?thesis
  proof (cases "\<exists>baseFee gasTipCap signedTx. b = Inr baseFee \<and> tip = Inr gasTipCap \<and>
      SignTx (de_signer env) (dc_signer c) (new_tx env c msg to gas callData baseFee gasTipCap) (dc_evmChainID c) = Inr signedTx")
    case True
    then obtain baseFee gasTipCap signedTx where i: "b = Inr baseFee" "tip = Inr gasTipCap"
        "SignTx (de_signer env) (dc_signer c) (new_tx env c msg to gas callData baseFee gasTipCap) (dc_evmChainID c) = Inr signedTx"
      by blast
    obtain se x3 where "eo_SendTransaction (de_ops env) (dc_client c) signedTx x2 = (se, x3)" by force
    with assms i(1,2) have "(res, c') = (case se of Some e \<Rightarrow> (Inl e, c) |
        None \<Rightarrow> (Inr signedTx, c\<lparr>dc_currentNonce := dc_currentNonce c + 1\<rparr>))"
      by (simp add: send_signed_def b t i(3) split: option.splits)
    then show ?thesis using i(3) by (cases se) (force, simp)
  next
    case False
    show ?thesis
    proof (cases "\<exists>baseFee gasTipCap. b = Inr baseFee \<and> tip = Inr gasTipCap")
      case True
      then obtain baseFee gasTipCap where i: "b = Inr baseFee" "tip = Inr gasTipCap" by blast
      with False obtain e where "SignTx (de_signer env) (dc_signer c)
          (new_tx env c msg to gas callData baseFee gasTipCap) (dc_evmChainID c) = Inl e"
        by (metis sum.exhaust)
      then have "res = Inl e \<and> c' = c" using assms i by (simp add: send_signed_def b t)
      then show ?thesis by blast
    next
      case False
      then show ?thesis using assms by (cases b; cases tip) (auto simp: send_signed_def b t)
    qed
  qed
qed

lemma send_all_nonces:
  assumes "signer_env_ok (de_signer env)" and "send_all env calls c x = (txs, c', x')"
  shows "map (tx_Nonce \<circ> st_tx) txs = map (\<lambda>i. dc_currentNonce c + of_nat i) [0..<length txs] \<and>
    dc_currentNonce c' = dc_currentNonce c + of_nat (length txs) \<and> dc_signer c' = dc_signer c"
  using assms(2)
proof (induction calls arbitrary: c x txs)
  case (Cons call calls)
  obtain msg to gas callData where call: "call = (msg, to, gas, callData)" by (metis prod_cases4)
  obtain res c1 x1 where s: "send_signed env msg to gas callData c x = (res, c1, x1)" by (metis prod_cases3)
  obtain txs1 c2 x2 where r: "send_all env calls c1 x1 = (txs1, c2, x2)" by (metis prod_cases3)
  have out: "txs = (case res of Inr t \<Rightarrow> [t] | Inl _ \<Rightarrow> []) @ txs1" "c' = c2" "x' = x2"
    using Cons.prems by (auto simp: call s r)
  note IH = Cons.IH [OF r [folded out(2,3)]]
  from send_signed_cases [OF s] show ?case
  proof (elim disjE exE conjE)
    fix t baseFee tip assume t: "res = Inr t" "c1 = c\<lparr>dc_currentNonce := dc_currentNonce c + 1\<rparr>"
      "SignTx (de_signer env) (dc_signer c) (new_tx env c msg to gas callData baseFee tip) (dc_evmChainID c) = Inr t"
    have n: "tx_Nonce (st_tx t) = dc_currentNonce c" using SignTx_tx [OF assms(1) t(3)] by (simp add: new_tx_def)
    have "map (tx_Nonce \<circ> st_tx) txs = dc_currentNonce c # map (\<lambda>i. dc_currentNonce c + of_nat (Suc i)) [0..<length txs1]"
      using IH n by (simp add: out(1) t(1,2) add_ac comp_def)
    also have "\<dots> = map (\<lambda>i. dc_currentNonce c + of_nat i) [0..<length txs]"
      by (simp add: out(1) t(1) upt_conv_Cons map_Suc_upt [symmetric] del: upt_Suc)
    finally show ?thesis using IH by (simp add: out(1) t(1,2) add_ac)
  qed (use IH out in auto)
qed simp

section \<open>Created clients\<close>

lemma NewDestinationClient_ID:
  "NewDestinationClient env d x = Inr c \<Longrightarrow> ids_FromString (de_ids env) (db_BlockchainID d) = Inr (dc_destinationBlockchainID c)"
  by (auto simp: NewDestinationClient_def evm_NewDestinationClient_def split: vm.splits sum.splits)

lemma create_clients_spec:
  assumes "create_clients env ds x clients = Inr clients'"
    and "\<And>b c. clients b = Some c \<Longrightarrow> dc_destinationBlockchainID c = b"
  shows "dom clients' = dom clients \<union> {b. \<exists>d \<in> set ds. ids_FromString (de_ids env) (db_BlockchainID d) = Inr b} \<and>
    (\<forall>b c. clients' b = Some c \<longrightarrow> dc_destinationBlockchainID c = b)"
  using assms
proof (induction ds arbitrary: clients)
  case (Cons d ds)
  obtain b where b: "ids_FromString (de_ids env) (db_BlockchainID d) = Inr b"
    using Cons.prems(1) by (auto split: sum.splits)
  show ?case
  proof (cases "clients b")
    case None
    obtain c where c: "NewDestinationClient env d x = Inr c" using Cons.prems(1) b None by (auto split: sum.splits)
    have id: "dc_destinationBlockchainID c = b" using NewDestinationClient_ID [OF c] b by simp
    have "create_clients env ds x (clients(b \<mapsto> c)) = Inr clients'" using Cons.prems(1) b None c by simp
    moreover have "dc_destinationBlockchainID c1 = b1" if "(clients(b \<mapsto> c)) b1 = Some c1" for b1 c1
      using that id Cons.prems(2) by (auto split: if_splits)
    ultimately have "dom clients' = dom (clients(b \<mapsto> c)) \<union> {b. \<exists>d \<in> set ds. ids_FromString (de_ids env) (db_BlockchainID d) = Inr b} \<and>
        (\<forall>b c. clients' b = Some c \<longrightarrow> dc_destinationBlockchainID c = b)"
      by (rule Cons.IH)
    then show ?thesis using b by auto
  next
    case (Some c)
    then have "create_clients env ds x clients = Inr clients'" using Cons.prems(1) b by simp
    from Cons.IH [OF this Cons.prems(2)] show ?thesis using b Some by auto
  qed
qed auto

section \<open>A concrete destination\<close>

text \<open>A chain that counts the accepted transactions of the relayer and wants them in order.\<close>

definition sample_eth_ops :: "u64 eth_ops" where
  "sample_eth_ops =
     \<lparr>eo_EstimateBaseFee = \<lambda>_ x. (Inr 25, x), eo_SuggestGasTipCap = \<lambda>_ x. (Inr 1, x),
      eo_SendTransaction = \<lambda>_ t x. if tx_Nonce (st_tx t) = x \<and> tx_Gas (st_tx t) \<le> 1000000 then (None, x + 1) else (Some (Errorf ''rejected''), x),
      eo_NonceAt = \<lambda>_ _ x. Inr x, eo_ChainID = \<lambda>_ _. Inr 43114,
      eo_TransactionReceipt = \<lambda>_ _ _ i. if i < 2 then Inl (Errorf ''not found'') else Inr 1,
      eo_MessageReceived = \<lambda>_ _ _ _. Inr False, eo_GetAddressFromVersion = \<lambda>_ _ _ _. Inl (Errorf ''TeleporterRegistry: version not found'')\<rparr>"

definition sample_dest_env :: "(string, u64) dest_env" where
  "sample_dest_env =
     \<lparr>de_url = \<lparr>ue_ParseRequestURI = \<lambda>s. Inr \<lparr>up_Rest = s, up_RawQuery = []\<rparr>, ue_Query = \<lambda>_ _. [], ue_Encode = \<lambda>_. [],
        ue_String = \<lambda>u. up_Rest u, ue_DialOptions = \<lambda>_ _. None\<rparr>,
      de_ids = sample_ids_env, de_signer = sample_signer_env, de_ops = sample_eth_ops,
      de_HexToAddress = \<lambda>a. of_nat (length a), de_WarpContractAddress = 18, de_MessageBytes = \<lambda>m. wm_Signature m,
      de_TxHash = \<lambda>t. ucast (tx_Nonce (st_tx t))\<rparr>"

definition sample_dc :: "string destination_client" where
  "sample_dc = (case NewDestinationClient sample_dest_env (sample_destination ''C7'') 7 of Inr c \<Rightarrow> c)"

definition sample_msg :: warp_message where
  "sample_msg = \<lparr>wm_Unsigned = sample_um, wm_Signers = [1, 1, 0], wm_Signature = replicate 96 1\<rparr>"

lemma sample_signer_ok: "signer_env_ok sample_signer_env"
  by (simp add: signer_env_ok_def sample_signer_env_def)

section \<open>Properties\<close>

text \<open>
  C33: The transactions that a destination client gets accepted have consecutive nonces, in the
  order in which they are sent and starting at the nonce of its account: a transaction that is not
  sent, or that the node rejects, leaves no gap.
\<close>

theorem nonces_consecutive:
  assumes "signer_env_ok (de_signer env)" and "NewDestinationClient env d x0 = Inr c"
    and "send_all env calls c x = (txs, c', x')"
  shows "\<exists>nonce. eo_NonceAt (de_ops env) (dc_client c) (signer_Address (dc_signer c)) x0 = Inr nonce \<and>
    map (tx_Nonce \<circ> st_tx) txs = map (\<lambda>i. nonce + of_nat i) [0..<length txs] \<and>
    dc_currentNonce c' = nonce + of_nat (length txs)"
proof -
  have "eo_NonceAt (de_ops env) (dc_client c) (signer_Address (dc_signer c)) x0 = Inr (dc_currentNonce c)"
    using assms(2) by (auto simp: NewDestinationClient_def evm_NewDestinationClient_def split: vm.splits sum.splits)
  with send_all_nonces [OF assms(1,3)] show ?thesis by blast
qed

theorem nonces_consecutive_witness:
  "\<exists>txs c' x'. send_all sample_dest_env [(sample_msg, ''0xaa'', 5, []), (sample_msg, ''0xaa'', 9000000, []), (sample_msg, ''0xaa'', 6, [])]
       sample_dc 7 = (txs, c', x') \<and> map (tx_Nonce \<circ> st_tx) txs = [7, 8]"
proof -
  let ?calls = "[(sample_msg, ''0xaa'', 5, []), (sample_msg, ''0xaa'', 9000000, []), (sample_msg, ''0xaa'', 6, [])]"
  have "case NewDestinationClient sample_dest_env (sample_destination ''C7'') 7 of Inl _ \<Rightarrow> False | Inr _ \<Rightarrow> True" by code_simp
  then have new: "NewDestinationClient sample_dest_env (sample_destination ''C7'') 7 = Inr sample_dc"
    by (cases "NewDestinationClient sample_dest_env (sample_destination ''C7'') 7") (simp_all add: sample_dc_def)
  have len: "length (fst (send_all sample_dest_env ?calls sample_dc 7)) = 2" by code_simp
  obtain txs c' x' where s: "send_all sample_dest_env ?calls sample_dc 7 = (txs, c', x')" by (metis prod_cases3)
  have ok: "signer_env_ok (de_signer sample_dest_env)" by (simp add: sample_dest_env_def sample_signer_ok)
  obtain nonce where n: "eo_NonceAt (de_ops sample_dest_env) (dc_client sample_dc) (signer_Address (dc_signer sample_dc)) 7 = Inr nonce"
      "map (tx_Nonce \<circ> st_tx) txs = map (\<lambda>i. nonce + of_nat i) [0..<length txs]"
    using nonces_consecutive [OF ok new s] by blast
  have "nonce = 7" using n(1) by (simp add: sample_dest_env_def sample_eth_ops_def)
  moreover have "[0..<length txs] = [0, 1]" using len s by (simp add: upt_rec)
  ultimately show ?thesis using n(2) s by auto
qed

end
