(* ===== verification/Teleporter_Handler.thy ===== *)
theory Teleporter_Handler
  imports Application_Relayer Destination_Client
begin

text \<open>
  \<^verbatim>\<open>messages/teleporter\<close> and \<^verbatim>\<open>messages/off-chain-registry\<close>: the two message protocols. A handler decides
  whether its message should be sent and packs it into a transaction of the destination client.
  The bindings of the contracts and the decider service are parameters. The theory shows when a
  message is sent, that a delivered one is not sent again, and what a reported success means.
\<close>

section \<open>The destination chains\<close>

text \<open>The destination clients by blockchain ID, and the state of the chains; a handler gets the ID.\<close>

record ('k, 'x) world =
  w_clients :: "ids_ID \<Rightarrow> 'k destination_client option"
  w_chain :: 'x

type_synonym ('k, 'x) handler = "(ids_ID, ('k, 'x) world) message_handler"

record teleporter_message =
  tm_MessageNonce :: int
  tm_OriginSenderAddress :: address
  tm_DestinationBlockchainID :: ids_ID
  tm_DestinationAddress :: address
  tm_RequiredGasLimit :: int
  tm_AllowedRelayerAddresses :: "address list"
  tm_Receipts :: "(int \<times> address) list"

record ('k, 'x) protocol_env =
  pe_dest :: "('k, 'x) dest_env"
  pe_ParseAddressedCall :: "bytes \<Rightarrow> (bytes \<times> bytes) result"
  pe_UnpackTeleporter :: "bytes \<Rightarrow> teleporter_message result"
  pe_CalculateMessageID :: "address \<Rightarrow> ids_ID \<Rightarrow> ids_ID \<Rightarrow> int \<Rightarrow> ids_ID result"
  pe_NumSigners :: "warp_message \<Rightarrow> nat result"
  pe_GasLimit :: "nat \<Rightarrow> int \<Rightarrow> nat \<Rightarrow> nat \<Rightarrow> nat \<Rightarrow> u64 result"
  pe_PackReceive :: "nat \<Rightarrow> address \<Rightarrow> bytes result"
  pe_NewTeleporterMessenger :: "address \<Rightarrow> rpc_client \<Rightarrow> error option"
  pe_Decider :: "unsigned_message \<Rightarrow> 'x \<Rightarrow> bool result"
  pe_UnpackRegistry :: "bytes \<Rightarrow> (int \<times> address) result"
  pe_NewRegistryCaller :: "address \<Rightarrow> rpc_client \<Rightarrow> error option"
  pe_PackAddProtocolVersion :: "nat \<Rightarrow> bytes result"
  pe_IsHexAddress :: "string \<Rightarrow> bool"
  pe_AddressHex :: "address \<Rightarrow> string"
  pe_error_text :: "error \<Rightarrow> string"
  pe_RewardAddress :: "(string \<times> string) list \<Rightarrow> string result"
  pe_RegistryAddress :: "(string \<times> string) list \<Rightarrow> string result"
  pe_receipt_ctx :: retry_ctx

section \<open>Teleporter\<close>

datatype decider_client = EmptyDecider | DeciderService

record teleporter_factory =
  tf_RewardAddress :: string
  tf_protocolAddress :: address
  tf_deciderClient :: decider_client

record teleporter_handler =
  th_teleporterMessage :: teleporter_message
  th_unsignedMessage :: unsigned_message
  th_factory :: teleporter_factory

definition maxTeleporterGasLimit :: u64 where
  "maxTeleporterGasLimit = 12000000"

definition teleporter_Config_Validate :: "('k, 'x) protocol_env \<Rightarrow> string \<Rightarrow> error option" where
  "teleporter_Config_Validate env rewardAddress =
     (if \<not> pe_IsHexAddress env rewardAddress then Some (Errorf ''invalid reward address for EVM source subnet'') else None)"

definition teleporter_NewMessageHandlerFactory ::
  "('k, 'x) protocol_env \<Rightarrow> address \<Rightarrow> message_protocol_config \<Rightarrow> bool \<Rightarrow> teleporter_factory result" where
  "teleporter_NewMessageHandlerFactory env messageProtocolAddress cfg deciderClientConn =
     (case pe_RewardAddress env (Settings cfg) of
        Inl e \<Rightarrow> Inl e
      | Inr rewardAddress \<Rightarrow>
          (case teleporter_Config_Validate env rewardAddress of
             Some e \<Rightarrow> Inl e
           | None \<Rightarrow> Inr \<lparr>tf_RewardAddress = rewardAddress, tf_protocolAddress = messageProtocolAddress,
               tf_deciderClient = (if deciderClientConn then DeciderService else EmptyDecider)\<rparr>))"

definition parseTeleporterMessage :: "('k, 'x) protocol_env \<Rightarrow> unsigned_message \<Rightarrow> teleporter_message result" where
  "parseTeleporterMessage env um =
     (case pe_ParseAddressedCall env (um_Payload um) of
        Inl e \<Rightarrow> Inl e
      | Inr (sourceAddress, payload) \<Rightarrow> pe_UnpackTeleporter env payload)"

fun isAllowedRelayer :: "address list \<Rightarrow> address \<Rightarrow> bool" where
  "isAllowedRelayer [] eoa = True"
| "isAllowedRelayer allowedRelayers eoa = list_ex (\<lambda>addr. addr = eoa) allowedRelayers"

definition getShouldSendMessageFromDecider :: "('k, 'x) protocol_env \<Rightarrow> teleporter_handler \<Rightarrow> 'x \<Rightarrow> bool result" where
  "getShouldSendMessageFromDecider env m x =
     (case tf_deciderClient (th_factory m) of
        EmptyDecider \<Rightarrow> Inr True
      | DeciderService \<Rightarrow> pe_Decider env (th_unsignedMessage m) x)"

definition nil_client :: error where
  "nil_client = Panic ''nil pointer dereference''"

definition teleporter_ShouldSendMessage ::
  "('k, 'x) protocol_env \<Rightarrow> teleporter_handler \<Rightarrow> ids_ID \<Rightarrow> ('k, 'x) world \<Rightarrow> bool result \<times> ('k, 'x) world" where
  "teleporter_ShouldSendMessage env m dc w =
     (let tm = th_teleporterMessage m; f = th_factory m
      in (case w_clients w dc of
        None \<Rightarrow> Inl nil_client
      | Some c \<Rightarrow>
          (case pe_CalculateMessageID env (tf_protocolAddress f) (um_SourceChainID (th_unsignedMessage m))
                  (dc_destinationBlockchainID c) (tm_MessageNonce tm) of
             Inl e \<Rightarrow> Inl (err_wrap ''failed to calculate Teleporter message ID'' e)
           | Inr teleporterMessageID \<Rightarrow>
               if (word_of_int \<bar>tm_RequiredGasLimit tm\<bar> :: u64) > maxTeleporterGasLimit then Inr False
               else if \<not> isAllowedRelayer (tm_AllowedRelayerAddresses tm) (signer_Address (dc_signer c)) then Inr False
               else case pe_NewTeleporterMessenger env (tf_protocolAddress f) (dc_client c) of
                   Some e \<Rightarrow> Inl (Panic ''Failed to get teleporter messenger contract'')
                 | None \<Rightarrow>
                     (case eo_MessageReceived (de_ops (pe_dest env)) (dc_client c) (tf_protocolAddress f) teleporterMessageID (w_chain w) of
                        Inl e \<Rightarrow> Inl e
                      | Inr delivered \<Rightarrow>
                          if delivered then Inr False
                          else case getShouldSendMessageFromDecider env m (w_chain w) of
                              Inl e \<Rightarrow> Inr True
                            | Inr decision \<Rightarrow> Inr decision))), w)"

text \<open>The receipt is looked up until it is found or the context is done; status 1 is success.\<close>

definition waitForReceipt ::
  "('k, 'x) protocol_env \<Rightarrow> rpc_client \<Rightarrow> hash \<Rightarrow> 'x \<Rightarrow> error option go_outcome" where
  "waitForReceipt env client txHash x =
     (case CallWithRetry (ctx_Done (pe_receipt_ctx env)) (ctx_Err (pe_receipt_ctx env))
             (eo_TransactionReceipt (de_ops (pe_dest env)) client txHash x) of
        None \<Rightarrow> Blocked
      | Some (Inl e) \<Rightarrow> Done (Some e)
      | Some (Inr status) \<Rightarrow> Done (if status \<noteq> 1 then Some (Errorf ''transaction failed with status'') else None))"

text \<open>The gas limit and the call data of the transaction that delivers the message.\<close>

definition receive_call :: "('k, 'x) protocol_env \<Rightarrow> teleporter_handler \<Rightarrow> warp_message \<Rightarrow> (u64 \<times> bytes) result" where
  "receive_call env m signedMessage =
     (case pe_NumSigners env signedMessage of
        Inl e \<Rightarrow> Inl e
      | Inr numSigners \<Rightarrow>
          (case pe_GasLimit env numSigners (tm_RequiredGasLimit (th_teleporterMessage m))
                  (length (de_MessageBytes (pe_dest env) signedMessage)) (length (um_Payload (wm_Unsigned signedMessage)))
                  (length (tm_Receipts (th_teleporterMessage m))) of
             Inl e \<Rightarrow> Inl e
           | Inr gasLimit \<Rightarrow>
               (case pe_PackReceive env 0 (de_HexToAddress (pe_dest env) (tf_RewardAddress (th_factory m))) of
                  Inl e \<Rightarrow> Inl e
                | Inr callData \<Rightarrow> Inr (gasLimit, callData))))"

definition teleporter_SendMessage ::
  "('k, 'x) protocol_env \<Rightarrow> teleporter_handler \<Rightarrow> warp_message \<Rightarrow> ids_ID \<Rightarrow> ('k, 'x) world
     \<Rightarrow> hash result go_outcome \<times> ('k, 'x) world" where
  "teleporter_SendMessage env m signedMessage dc w =
     (case w_clients w dc of
        None \<Rightarrow> (Done (Inl nil_client), w)
      | Some c \<Rightarrow>
          (case pe_CalculateMessageID env (tf_protocolAddress (th_factory m)) (um_SourceChainID (wm_Unsigned signedMessage))
                  (dc_destinationBlockchainID c) (tm_MessageNonce (th_teleporterMessage m)) of
             Inl e \<Rightarrow> (Done (Inl (err_wrap ''failed to calculate Teleporter message ID'' e)), w)
           | Inr teleporterMessageID \<Rightarrow>
               (case receive_call env m signedMessage of
                  Inl e \<Rightarrow> (Done (Inl e), w)
                | Inr (gasLimit, callData) \<Rightarrow>
                    (case SendTx (pe_dest env) signedMessage (pe_AddressHex env (tf_protocolAddress (th_factory m))) gasLimit callData c (w_chain w) of
                       (res, c', x') \<Rightarrow>
                         (let w' = w\<lparr>w_clients := (w_clients w)(dc \<mapsto> c'), w_chain := x'\<rparr>
                          in case res of
                               Inl e \<Rightarrow> (Done (Inl e), w')
                             | Inr txHash \<Rightarrow>
                                 (case waitForReceipt env (dc_client c) txHash x' of
                                    Blocked \<Rightarrow> (Blocked, w')
                                  | Panicked \<Rightarrow> (Panicked, w')
                                  | Done (Some e) \<Rightarrow> (Done (Inl e), w')
                                  | Done None \<Rightarrow> (Done (Inr txHash), w')))))))"

definition teleporter_GetMessageRoutingInfo :: "teleporter_handler \<Rightarrow> (ids_ID \<times> address \<times> ids_ID \<times> address) result" where
  "teleporter_GetMessageRoutingInfo m =
     Inr (um_SourceChainID (th_unsignedMessage m), tm_OriginSenderAddress (th_teleporterMessage m),
          tm_DestinationBlockchainID (th_teleporterMessage m), tm_DestinationAddress (th_teleporterMessage m))"

definition teleporter_methods :: "('k, 'x) protocol_env \<Rightarrow> teleporter_handler \<Rightarrow> ('k, 'x) handler" where
  "teleporter_methods env m =
     \<lparr>mh_ShouldSendMessage = teleporter_ShouldSendMessage env m, mh_SendMessage = teleporter_SendMessage env m,
      mh_GetMessageRoutingInfo = teleporter_GetMessageRoutingInfo m, mh_GetUnsignedMessage = th_unsignedMessage m\<rparr>"

definition teleporter_NewMessageHandler ::
  "('k, 'x) protocol_env \<Rightarrow> teleporter_factory \<Rightarrow> unsigned_message \<Rightarrow> ('k, 'x) handler result" where
  "teleporter_NewMessageHandler env f um =
     (case parseTeleporterMessage env um of
        Inl e \<Rightarrow> Inl e
      | Inr tm \<Rightarrow> Inr (teleporter_methods env \<lparr>th_teleporterMessage = tm, th_unsignedMessage = um, th_factory = f\<rparr>))"

section \<open>The off-chain registry\<close>

record registry_handler =
  rh_registryAddress :: address
  rh_unsignedMessage :: unsigned_message

definition addProtocolVersionGasLimit :: u64 where
  "addProtocolVersionGasLimit = 500000"

definition registry_Config_Validate :: "('k, 'x) protocol_env \<Rightarrow> string \<Rightarrow> error option" where
  "registry_Config_Validate env a =
     (if \<not> pe_IsHexAddress env a then Some (Errorf ''invalid address for TeleporterRegistry'') else None)"

text \<open>The factory is the address of the registry.\<close>

definition registry_NewMessageHandlerFactory :: "('k, 'x) protocol_env \<Rightarrow> message_protocol_config \<Rightarrow> address result" where
  "registry_NewMessageHandlerFactory env cfg =
     (case pe_RegistryAddress env (Settings cfg) of
        Inl e \<Rightarrow> Inl e
      | Inr a \<Rightarrow>
          (case registry_Config_Validate env a of
             Some e \<Rightarrow> Inl e
           | None \<Rightarrow> Inr (de_HexToAddress (pe_dest env) a)))"

definition registry_ShouldSendMessage ::
  "('k, 'x) protocol_env \<Rightarrow> registry_handler \<Rightarrow> ids_ID \<Rightarrow> ('k, 'x) world \<Rightarrow> bool result \<times> ('k, 'x) world" where
  "registry_ShouldSendMessage env m dc w =
     ((case pe_ParseAddressedCall env (um_Payload (rh_unsignedMessage m)) of
         Inl e \<Rightarrow> Inl e
       | Inr (sourceAddress, payload) \<Rightarrow>
           (case pe_UnpackRegistry env payload of
              Inl e \<Rightarrow> Inl e
            | Inr (version, destination) \<Rightarrow>
                if destination \<noteq> rh_registryAddress m then Inr False
                else case w_clients w dc of
                    None \<Rightarrow> Inl nil_client
                  | Some c \<Rightarrow>
                      (case pe_NewRegistryCaller env (rh_registryAddress m) (dc_client c) of
                         Some e \<Rightarrow> Inl e
                       | None \<Rightarrow>
                           (case eo_GetAddressFromVersion (de_ops (pe_dest env)) (dc_client c) (rh_registryAddress m) version (w_chain w) of
                              Inl e \<Rightarrow>
                                if string_Contains (pe_error_text env e) ''TeleporterRegistry: version not found'' then Inr True else Inl e
                            | Inr address \<Rightarrow> Inr False)))), w)"

definition registry_SendMessage ::
  "('k, 'x) protocol_env \<Rightarrow> registry_handler \<Rightarrow> warp_message \<Rightarrow> ids_ID \<Rightarrow> ('k, 'x) world
     \<Rightarrow> hash result go_outcome \<times> ('k, 'x) world" where
  "registry_SendMessage env m signedMessage dc w =
     (case pe_PackAddProtocolVersion env 0 of
        Inl e \<Rightarrow> (Done (Inl e), w)
      | Inr callData \<Rightarrow>
          (case w_clients w dc of
             None \<Rightarrow> (Done (Inl nil_client), w)
           | Some c \<Rightarrow>
               (case SendTx (pe_dest env) signedMessage (pe_AddressHex env (rh_registryAddress m)) addProtocolVersionGasLimit callData c (w_chain w) of
                  (res, c', x') \<Rightarrow>
                    (Done (case res of Inl e \<Rightarrow> Inl e | Inr txHash \<Rightarrow> Inr txHash),
                     w\<lparr>w_clients := (w_clients w)(dc \<mapsto> c'), w_chain := x'\<rparr>))))"

text \<open>\<^verbatim>\<open>common.BytesToAddress\<close> keeps the last 20 bytes.\<close>

definition registry_GetMessageRoutingInfo ::
  "('k, 'x) protocol_env \<Rightarrow> registry_handler \<Rightarrow> (ids_ID \<times> address \<times> ids_ID \<times> address) result" where
  "registry_GetMessageRoutingInfo env m =
     (case pe_ParseAddressedCall env (um_Payload (rh_unsignedMessage m)) of
        Inl e \<Rightarrow> Inl e
      | Inr (sourceAddress, payload) \<Rightarrow>
          Inr (um_SourceChainID (rh_unsignedMessage m), of_nat (bytes_value sourceAddress),
               um_SourceChainID (rh_unsignedMessage m), rh_registryAddress m))"

definition registry_methods :: "('k, 'x) protocol_env \<Rightarrow> registry_handler \<Rightarrow> ('k, 'x) handler" where
  "registry_methods env m =
     \<lparr>mh_ShouldSendMessage = registry_ShouldSendMessage env m, mh_SendMessage = registry_SendMessage env m,
      mh_GetMessageRoutingInfo = registry_GetMessageRoutingInfo env m, mh_GetUnsignedMessage = rh_unsignedMessage m\<rparr>"

definition registry_NewMessageHandler ::
  "('k, 'x) protocol_env \<Rightarrow> address \<Rightarrow> unsigned_message \<Rightarrow> ('k, 'x) handler result" where
  "registry_NewMessageHandler env registryAddress um =
     Inr (registry_methods env \<lparr>rh_registryAddress = registryAddress, rh_unsignedMessage = um\<rparr>)"

section \<open>Messages that are done\<close>

text \<open>
  What a relayer relies on when it processes a block a second time, after a restart: the handler of
  a message that is done decides not to send it, and changes nothing.
\<close>

locale delivery_guard =
  fixes handler :: "('dc, 'w) message_handler"
    and dc :: 'dc
    and settled :: "'w \<Rightarrow> bool"
  assumes settled_not_sent: "settled w \<Longrightarrow> mh_ShouldSendMessage handler dc w = (Inr False, w)"
begin

lemma settled_noop:
  assumes "settled (rs_world st)" and "ar_destinationClient r = dc"
  shows "ProcessMessage env now r handler st = (Done (Inr 0), st)"
  using settled_not_sent [OF assms(1)] assms(2) by (simp add: ProcessMessage_def)

lemma settled_replay:
  assumes "settled (rs_world st)" and "ar_destinationClient r = dc"
  shows "process_all env r (map (\<lambda>now. (now, handler)) ts) st = (map (\<lambda>_. Done (Inr 0)) ts, st)"
  by (induction ts) (simp_all add: settled_noop [OF assms])

end

definition teleporter_delivered :: "('k, 'x) protocol_env \<Rightarrow> teleporter_handler \<Rightarrow> ids_ID \<Rightarrow> ('k, 'x) world \<Rightarrow> bool" where
  "teleporter_delivered env m dc w \<longleftrightarrow>
     (\<exists>c i. w_clients w dc = Some c \<and>
        pe_CalculateMessageID env (tf_protocolAddress (th_factory m)) (um_SourceChainID (th_unsignedMessage m))
          (dc_destinationBlockchainID c) (tm_MessageNonce (th_teleporterMessage m)) = Inr i \<and>
        pe_NewTeleporterMessenger env (tf_protocolAddress (th_factory m)) (dc_client c) = None \<and>
        eo_MessageReceived (de_ops (pe_dest env)) (dc_client c) (tf_protocolAddress (th_factory m)) i (w_chain w) = Inr True)"

definition registry_added :: "('k, 'x) protocol_env \<Rightarrow> registry_handler \<Rightarrow> ids_ID \<Rightarrow> ('k, 'x) world \<Rightarrow> bool" where
  "registry_added env m dc w \<longleftrightarrow>
     (\<exists>c src payload version a. w_clients w dc = Some c \<and>
        pe_ParseAddressedCall env (um_Payload (rh_unsignedMessage m)) = Inr (src, payload) \<and>
        pe_UnpackRegistry env payload = Inr (version, rh_registryAddress m) \<and>
        pe_NewRegistryCaller env (rh_registryAddress m) (dc_client c) = None \<and>
        eo_GetAddressFromVersion (de_ops (pe_dest env)) (dc_client c) (rh_registryAddress m) version (w_chain w) = Inr a)"

interpretation tele: delivery_guard "teleporter_methods env m" dc "teleporter_delivered env m dc" for env m dc
  by unfold_locales
    (auto simp: teleporter_methods_def teleporter_ShouldSendMessage_def teleporter_delivered_def Let_def)

interpretation registry: delivery_guard "registry_methods env m" dc "registry_added env m dc" for env m dc
  by unfold_locales
    (auto simp: registry_methods_def registry_ShouldSendMessage_def registry_added_def)

section \<open>Sending\<close>

lemma SendTx_success:
  assumes "SendTx env msg to gas callData c x = (Inr txHash, c', x')"
  shows "\<exists>signedTx. send_signed env msg to gas callData c x = (Inr signedTx, c', x') \<and> txHash = de_TxHash env signedTx"
  using assms by (auto simp: SendTx_def split: prod.splits sum.splits)

lemma waitForReceipt_ok:
  assumes "waitForReceipt env client txHash x = Done None"
  shows "\<exists>i. eo_TransactionReceipt (de_ops (pe_dest env)) client txHash x i = Inr 1"
proof -
  let ?f = "eo_TransactionReceipt (de_ops (pe_dest env)) client txHash x" and ?ctx = "pe_receipt_ctx env"
  have "CallWithRetry (ctx_Done ?ctx) (ctx_Err ?ctx) ?f = Some (Inr 1)"
    using assms by (auto simp: waitForReceipt_def split: option.splits sum.splits if_splits)
  then show ?thesis by (rule CallWithRetry_result)
qed

lemma teleporter_SendMessage_ok:
  assumes "teleporter_SendMessage env m msg dc w = (Done (Inr txHash), w')"
  shows "\<exists>c c' x' gas callData signedTx. w_clients w dc = Some c \<and> receive_call env m msg = Inr (gas, callData) \<and>
    send_signed (pe_dest env) msg (pe_AddressHex env (tf_protocolAddress (th_factory m))) gas callData c (w_chain w) = (Inr signedTx, c', x') \<and>
    txHash = de_TxHash (pe_dest env) signedTx \<and> w' = w\<lparr>w_clients := (w_clients w)(dc \<mapsto> c'), w_chain := x'\<rparr> \<and>
    waitForReceipt env (dc_client c) txHash x' = Done None"
proof -
  obtain c where c: "w_clients w dc = Some c"
    using assms by (cases "w_clients w dc") (auto simp: teleporter_SendMessage_def)
  obtain gas callData where g: "receive_call env m msg = Inr (gas, callData)"
    using assms by (cases "receive_call env m msg") (auto simp: teleporter_SendMessage_def c split: sum.splits)
  obtain res c' x' where s: "SendTx (pe_dest env) msg (pe_AddressHex env (tf_protocolAddress (th_factory m))) gas callData c (w_chain w)
      = (res, c', x')" by (metis prod_cases3)
  have "res = Inr txHash \<and> w' = w\<lparr>w_clients := (w_clients w)(dc \<mapsto> c'), w_chain := x'\<rparr> \<and> waitForReceipt env (dc_client c) txHash x' = Done None"
    using assms by (auto simp: teleporter_SendMessage_def c g s Let_def split: sum.splits go_outcome.splits option.splits)
  with SendTx_success [of "pe_dest env" msg _ gas callData c "w_chain w" txHash c' x'] c g s show ?thesis by blast
qed

lemma sent_included:
  assumes "signer_env_ok (de_signer (pe_dest env))"
    and "teleporter_SendMessage env m msg dc w = (Done (Inr txHash), w')"
  shows "\<exists>c c' tx i. w_clients w dc = Some c \<and> w_clients w' dc = Some c' \<and> dc_currentNonce c' = dc_currentNonce c + 1 \<and>
    txHash = de_TxHash (pe_dest env) tx \<and> tx_Nonce (st_tx tx) = dc_currentNonce c \<and>
    tx_To (st_tx tx) = de_HexToAddress (pe_dest env) (pe_AddressHex env (tf_protocolAddress (th_factory m))) \<and>
    tx_PredicateBytes (st_tx tx) = de_MessageBytes (pe_dest env) msg \<and>
    eo_TransactionReceipt (de_ops (pe_dest env)) (dc_client c) txHash (w_chain w') i = Inr 1"
proof -
  obtain c c' x' gas callData tx where p: "w_clients w dc = Some c"
      "send_signed (pe_dest env) msg (pe_AddressHex env (tf_protocolAddress (th_factory m))) gas callData c (w_chain w) = (Inr tx, c', x')"
      "txHash = de_TxHash (pe_dest env) tx" "w' = w\<lparr>w_clients := (w_clients w)(dc \<mapsto> c'), w_chain := x'\<rparr>"
      "waitForReceipt env (dc_client c) txHash x' = Done None"
    using teleporter_SendMessage_ok [OF assms(2)] by blast
  obtain baseFee tip where t: "c' = c\<lparr>dc_currentNonce := dc_currentNonce c + 1\<rparr>"
      "SignTx (de_signer (pe_dest env)) (dc_signer c) (new_tx (pe_dest env) c msg
        (pe_AddressHex env (tf_protocolAddress (th_factory m))) gas callData baseFee tip) (dc_evmChainID c) = Inr tx"
    using send_signed_cases [OF p(2)] by blast
  from SignTx_tx [OF assms(1) t(2)] waitForReceipt_ok [OF p(5)] p t(1) show ?thesis
    by (auto simp: new_tx_def)
qed

lemma decider_gas [simp]:
  "getShouldSendMessageFromDecider env (m\<lparr>th_teleporterMessage := t\<rparr>) x = getShouldSendMessageFromDecider env m x"
  by (simp add: getShouldSendMessageFromDecider_def split: decider_client.split)

text \<open>The decision depends on the low 64 bits of the gas limit only.\<close>

lemma ShouldSend_gas:
  assumes "(word_of_int \<bar>a\<bar> :: u64) = word_of_int \<bar>b\<bar>"
  shows "teleporter_ShouldSendMessage env (m\<lparr>th_teleporterMessage := (th_teleporterMessage m)\<lparr>tm_RequiredGasLimit := a\<rparr>\<rparr>) dc w =
    teleporter_ShouldSendMessage env (m\<lparr>th_teleporterMessage := (th_teleporterMessage m)\<lparr>tm_RequiredGasLimit := b\<rparr>\<rparr>) dc w"
  using assms
  by (simp add: teleporter_ShouldSendMessage_def Let_def cong: option.case_cong sum.case_cong if_cong)

section \<open>A concrete protocol\<close>

definition sample_tm :: "int \<Rightarrow> teleporter_message" where
  "sample_tm gas = \<lparr>tm_MessageNonce = 3, tm_OriginSenderAddress = 6, tm_DestinationBlockchainID = 7, tm_DestinationAddress = 2,
     tm_RequiredGasLimit = gas, tm_AllowedRelayerAddresses = [], tm_Receipts = []\<rparr>"

definition sample_protocol_env :: "bool \<Rightarrow> (string, u64) protocol_env" where
  "sample_protocol_env delivered =
     \<lparr>pe_dest = sample_dest_env\<lparr>de_ops := sample_eth_ops\<lparr>eo_MessageReceived := \<lambda>_ _ _ _. Inr delivered\<rparr>\<rparr>,
      pe_ParseAddressedCall = \<lambda>b. Inr ([6], b), pe_UnpackTeleporter = \<lambda>_. Inr (sample_tm 100),
      pe_CalculateMessageID = \<lambda>_ _ _ n. Inr (word_of_int n), pe_NumSigners = \<lambda>_. Inr 2, pe_GasLimit = \<lambda>_ _ _ _ _. Inr 900000,
      pe_PackReceive = \<lambda>_ _. Inr [1, 2], pe_NewTeleporterMessenger = \<lambda>_ _. None, pe_Decider = \<lambda>_ _. Inr False,
      pe_UnpackRegistry = \<lambda>_. Inr (1, 8), pe_NewRegistryCaller = \<lambda>_ _. None, pe_PackAddProtocolVersion = \<lambda>_. Inr [3],
      pe_IsHexAddress = \<lambda>_. True, pe_AddressHex = \<lambda>_. ''0xaa'', pe_error_text = \<lambda>e. case e of Errorf m \<Rightarrow> m | _ \<Rightarrow> [],
      pe_RewardAddress = \<lambda>_. Inr ''0xbb'', pe_RegistryAddress = \<lambda>_. Inr ''0xcc'',
      pe_receipt_ctx = \<lparr>ctx_Done = \<lambda>i. 5 < i, ctx_Err = Errorf ''deadline exceeded''\<rparr>\<rparr>"

definition sample_th :: "int \<Rightarrow> teleporter_handler" where
  "sample_th gas = \<lparr>th_teleporterMessage = sample_tm gas, th_unsignedMessage = sample_um,
     th_factory = \<lparr>tf_RewardAddress = ''0xbb'', tf_protocolAddress = 9, tf_deciderClient = EmptyDecider\<rparr>\<rparr>"

definition sample_world :: "(string, u64) world" where
  "sample_world = \<lparr>w_clients = [7 \<mapsto> sample_dc], w_chain = 7\<rparr>"

definition sample_tele_state ::
  "(ids_ID \<Rightarrow> signature_map option, (nat, unit) network, (string, u64) world) relay_state" where
  "sample_tele_state = \<lparr>rs_aggregator = sample_aggregator, rs_network = rs_network sample_relay_state,
     rs_world = sample_world, rs_metrics = sample_metrics\<rparr>"

definition sample_tele_ar :: "ids_ID application_relayer" where
  "sample_tele_ar = \<lparr>ar_sourceBlockchain = sample_source, ar_signingSubnetID = 4, ar_destinationClient = 7,
     ar_relayerID = sample_relayer, ar_warpQuorum = \<lparr>QuorumNumerator = 67, QuorumDenominator = 100\<rparr>,
     ar_checkpointManager = NewCheckpointManager sample_relayer 10, ar_sourceWarpSignatureClient = None\<rparr>"

lemma sample_sent:
  "\<exists>txHash w'. teleporter_SendMessage (sample_protocol_env False) (sample_th 100) sample_msg 7 sample_world = (Done (Inr txHash), w')"
proof -
  have "waitForReceipt (sample_protocol_env False) client txHash x = Done None" for client txHash x
    by (simp add: waitForReceipt_def sample_protocol_env_def sample_dest_env_def sample_eth_ops_def CallWithRetry_def
        CallWithRetry_from.simps)
  moreover obtain txHash c' x' where "SendTx (pe_dest (sample_protocol_env False)) sample_msg ''0xaa'' 900000 [1, 2] sample_dc 7 =
      (Inr txHash, c', x')"
  proof -
    have "case fst (SendTx (pe_dest (sample_protocol_env False)) sample_msg ''0xaa'' 900000 [1, 2] sample_dc 7) of Inl _ \<Rightarrow> False | Inr _ \<Rightarrow> True"
      by code_simp
    then show ?thesis using that
      by (cases "SendTx (pe_dest (sample_protocol_env False)) sample_msg ''0xaa'' 900000 [1, 2] sample_dc 7") (auto split: sum.splits)
  qed
  moreover have "receive_call (sample_protocol_env False) (sample_th 100) sample_msg = Inr (900000, [1, 2])"
      "pe_CalculateMessageID (sample_protocol_env False) a b c k = Inr (word_of_int k)"
      "pe_AddressHex (sample_protocol_env False) a = ''0xaa''" for a b c k
    by (simp_all add: receive_call_def sample_protocol_env_def)
  moreover have "w_clients sample_world 7 = Some sample_dc" "w_chain sample_world = 7" by (simp_all add: sample_world_def)
  ultimately have "\<exists>w'. teleporter_SendMessage (sample_protocol_env False) (sample_th 100) sample_msg 7 sample_world = (Done (Inr txHash), w')"
    by (simp add: teleporter_SendMessage_def Let_def)
  then show ?thesis by blast
qed

section \<open>Properties\<close>

text \<open>
  C35: A Teleporter message that the destination chain has received is not sent again: processing
  it any number of times, as after a restart, succeeds without a transaction, a signature request
  or any other effect.
\<close>

theorem delivered_not_resent:
  assumes "teleporter_delivered env m dc (rs_world st)" and "ar_destinationClient r = dc"
  shows "process_all renv r (map (\<lambda>now. (now, teleporter_methods env m)) ts) st = (map (\<lambda>_. Done (Inr 0)) ts, st)"
  by (rule tele.settled_replay [OF assms])

theorem delivered_not_resent_witness:
  "process_all sample_relay_env sample_tele_ar (map (\<lambda>now. (now, teleporter_methods (sample_protocol_env True) (sample_th 100))) [0, 1])
     sample_tele_state = ([Done (Inr 0), Done (Inr 0)], sample_tele_state)"
proof -
  have "teleporter_delivered (sample_protocol_env True) (sample_th 100) 7 (rs_world sample_tele_state)"
    by (simp add: teleporter_delivered_def sample_tele_state_def sample_world_def sample_protocol_env_def)
  moreover have "ar_destinationClient sample_tele_ar = 7" by (simp add: sample_tele_ar_def)
  ultimately show ?thesis
    using delivered_not_resent [where ts = "[0, 1]"] by simp
qed

text \<open>
  C34: A Teleporter message is reported as sent only when a transaction to the protocol contract
  that carries the signed message was accepted under the client's nonce and its receipt was seen
  with the status of success; the nonce of the client goes up by one.
\<close>

theorem sent_means_included:
  assumes "signer_env_ok (de_signer (pe_dest env))"
    and "teleporter_SendMessage env m msg dc w = (Done (Inr txHash), w')"
  shows "\<exists>c c' tx i. w_clients w dc = Some c \<and> w_clients w' dc = Some c' \<and> dc_currentNonce c' = dc_currentNonce c + 1 \<and>
    txHash = de_TxHash (pe_dest env) tx \<and> tx_Nonce (st_tx tx) = dc_currentNonce c \<and>
    tx_To (st_tx tx) = de_HexToAddress (pe_dest env) (pe_AddressHex env (tf_protocolAddress (th_factory m))) \<and>
    tx_PredicateBytes (st_tx tx) = de_MessageBytes (pe_dest env) msg \<and>
    eo_TransactionReceipt (de_ops (pe_dest env)) (dc_client c) txHash (w_chain w') i = Inr 1"
  by (rule sent_included [OF assms])

theorem sent_means_included_witness:
  "\<exists>txHash w' i. teleporter_SendMessage (sample_protocol_env False) (sample_th 100) sample_msg 7 sample_world = (Done (Inr txHash), w') \<and>
     eo_TransactionReceipt (de_ops (pe_dest (sample_protocol_env False))) (dc_client sample_dc) txHash (w_chain w') i = Inr 1"
proof -
  obtain txHash w' where s: "teleporter_SendMessage (sample_protocol_env False) (sample_th 100) sample_msg 7 sample_world = (Done (Inr txHash), w')"
    using sample_sent by blast
  have "signer_env_ok (de_signer (pe_dest (sample_protocol_env False)))"
    by (simp add: sample_protocol_env_def sample_dest_env_def sample_signer_ok)
  from sent_means_included [OF this s] s show ?thesis by (auto simp: sample_world_def)
qed

text \<open>
  The check of the required gas limit reads only its low 64 bits: a limit of \<open>2 ^ 64\<close> or more
  is treated like its remainder, so it can pass the maximum.
\<close>

theorem gas_limit_wraps:
  "teleporter_ShouldSendMessage env (m\<lparr>th_teleporterMessage := (th_teleporterMessage m)\<lparr>tm_RequiredGasLimit := 2 ^ 64 * int k + int g\<rparr>\<rparr>) dc w =
   teleporter_ShouldSendMessage env (m\<lparr>th_teleporterMessage := (th_teleporterMessage m)\<lparr>tm_RequiredGasLimit := int g\<rparr>\<rparr>) dc w"
proof -
  have "(word_of_int (2 ^ 64 * int k + int g) :: u64) = word_of_int (int g)"
    unfolding word_of_int_eq_iff by (simp add: take_bit_eq_mod)
  then have "(word_of_int \<bar>2 ^ 64 * int k + int g\<bar> :: u64) = word_of_int \<bar>int g\<bar>" by simp
  then show ?thesis by (rule ShouldSend_gas)
qed

end
