(* ===== verification/Subscriber_Listener.thy ===== *)
theory Subscriber_Listener
  imports Message_Coordinator Destination_Client
begin

text \<open>
  \<^verbatim>\<open>vms/evm/subscriber.go\<close>, \<^verbatim>\<open>vms/subscriber.go\<close> and \<^verbatim>\<open>relayer/listener.go\<close>: the subscriber delivers
  the headers of a source chain, historical ones by catching up in ranges of blocks and new ones
  by a subscription; the listener hands each of them to the coordinator and tracks the health of
  the chain. The theory shows that catching up delivers every block once and in order, that
  subscribing ends, and how the health follows the events.
\<close>

section \<open>Catching up\<close>

definition MaxBlocksPerRequest :: int where
  "MaxBlocksPerRequest = 200"

definition rpcMaxRetries :: nat where
  "rpcMaxRetries = 5"

text \<open>The header of a block, asked for up to five times; \<open>request\<close> answers each attempt.\<close>

function get_header :: "(nat \<Rightarrow> eth_header result) \<Rightarrow> nat \<Rightarrow> eth_header result" where
  "get_header request attempt =
     (case request attempt of
        Inr header \<Rightarrow> Inr header
      | Inl e \<Rightarrow> if attempt \<ge> rpcMaxRetries then Inl e else get_header request (Suc attempt))"
  by pat_completeness auto

termination
  by (relation "measure (\<lambda>(request, attempt). rpcMaxRetries - attempt)") auto

declare get_header.simps [simp del]

definition getHeaderByNumberRetryable :: "(int \<Rightarrow> nat \<Rightarrow> eth_header result) \<Rightarrow> int \<Rightarrow> eth_header result" where
  "getHeaderByNumberRetryable headerByNumber headerNumber = get_header (headerByNumber headerNumber) 1"

text \<open>
  The loop over a range counts with a 64-bit integer. It ends with an error, if any, and the
  headers written to the channel; \<open>None\<close> is a loop that does not end.
\<close>

partial_function (option) block_range ::
  "(int \<Rightarrow> eth_header result) \<Rightarrow> u64 \<Rightarrow> u64 \<Rightarrow> eth_header list \<Rightarrow> (error option \<times> eth_header list) option" where
  "block_range get i toBlock headers =
     (if sint i \<le> sint toBlock then
        (case get (sint i) of
           Inl e \<Rightarrow> Some (Some e, headers)
         | Inr header \<Rightarrow> block_range get (i + 1) toBlock (headers @ [header]))
      else Some (None, headers))"

definition processBlockRange ::
  "(int \<Rightarrow> nat \<Rightarrow> eth_header result) \<Rightarrow> int \<Rightarrow> int \<Rightarrow> eth_header list \<Rightarrow> (error option \<times> eth_header list) option" where
  "processBlockRange headerByNumber fromBlock toBlock headers =
     block_range (getHeaderByNumberRetryable headerByNumber) (word_of_int fromBlock) (word_of_int toBlock) headers"

function process_ranges ::
  "(int \<Rightarrow> nat \<Rightarrow> eth_header result) \<Rightarrow> int \<Rightarrow> int \<Rightarrow> eth_header list \<Rightarrow> (bool \<times> eth_header list) option" where
  "process_ranges headerByNumber fromBlock latest headers =
     (if fromBlock \<le> latest then
        (let toBlock = (if fromBlock + (MaxBlocksPerRequest - 1) > latest then latest else fromBlock + (MaxBlocksPerRequest - 1))
         in case processBlockRange headerByNumber fromBlock toBlock headers of
              None \<Rightarrow> None
            | Some (Some e, headers') \<Rightarrow> Some (False, headers')
            | Some (None, headers') \<Rightarrow> process_ranges headerByNumber (fromBlock + MaxBlocksPerRequest) latest headers')
      else Some (True, headers))"
  by pat_completeness auto

termination
  by (relation "measure (\<lambda>(h, fromBlock, latest, hs). nat (latest - fromBlock + 1))")
    (auto simp: MaxBlocksPerRequest_def)

declare process_ranges.simps [simp del]

text \<open>The value written to the done channel, and the headers written to the header channel.\<close>

definition ProcessFromHeight ::
  "u64 result \<Rightarrow> (int \<Rightarrow> nat \<Rightarrow> eth_header result) \<Rightarrow> int option \<Rightarrow> (bool \<times> eth_header list) option" where
  "ProcessFromHeight blockNumber headerByNumber height =
     (case height of
        None \<Rightarrow> Some (False, [])
      | Some h \<Rightarrow>
          (case blockNumber of
             Inl e \<Rightarrow> Some (False, [])
           | Inr latestBlockHeight \<Rightarrow> process_ranges headerByNumber h (uint latestBlockHeight) []))"

text \<open>Block by block, without ranges.\<close>

fun fetch_blocks :: "(int \<Rightarrow> eth_header result) \<Rightarrow> int list \<Rightarrow> bool \<times> eth_header list" where
  "fetch_blocks get [] = (True, [])"
| "fetch_blocks get (i # is) =
     (case get i of
        Inl e \<Rightarrow> (False, [])
      | Inr header \<Rightarrow> (case fetch_blocks get is of (ok, hs) \<Rightarrow> (ok, header # hs)))"

lemma fetch_blocks_append:
  "fetch_blocks get (is @ js) =
     (case fetch_blocks get is of (ok, hs) \<Rightarrow> if ok then (case fetch_blocks get js of (ok', hs') \<Rightarrow> (ok', hs @ hs')) else (False, hs))"
  by (induction "is") (auto split: sum.splits prod.splits)

lemma sint_of_small: "- (2 ^ 63) \<le> i \<Longrightarrow> i < 2 ^ 63 \<Longrightarrow> sint (word_of_int i :: u64) = i"
  by (simp add: sint_sbintrunc' signed_take_bit_int_eq_self)

lemma block_range_fetch:
  assumes "0 \<le> i" and "i \<le> j + 1" and "j < 2 ^ 63 - 1"
  shows "\<exists>e. block_range get (word_of_int i) (word_of_int j) headers =
    Some (if fst (fetch_blocks get [i..j]) then None else Some e, headers @ snd (fetch_blocks get [i..j]))"
  using assms(1,2)
proof (induction "nat (j + 1 - i)" arbitrary: i headers)
  case 0
  then have "i = j + 1" by simp
  moreover have "sint (word_of_int j :: u64) = j" "sint (word_of_int (j + 1) :: u64) = j + 1"
    using assms(3) 0 by (intro sint_of_small; simp)+
  ultimately show ?case by (subst block_range.simps) simp
next
  case (Suc n)
  have ij: "i \<le> j" using Suc.hyps(2) by simp
  have sint: "sint (word_of_int j :: u64) = j" "sint (word_of_int i :: u64) = i"
    using assms(3) Suc.prems ij by (intro sint_of_small; simp)+
  have step: "(word_of_int i :: u64) + 1 = word_of_int (i + 1)" by simp
  have upto: "[i..j] = i # [i + 1..j]" using ij by (simp add: upto_rec1)
  show ?case
  proof (cases "get i")
    case (Inl e)
    then show ?thesis using ij by (subst block_range.simps) (auto simp: sint upto)
  next
    case (Inr header)
    have "block_range get (word_of_int i) (word_of_int j) headers =
        block_range get (word_of_int (i + 1)) (word_of_int j) (headers @ [header])"
      using Inr ij by (subst block_range.simps) (simp add: sint)
    moreover have "n = nat (j + 1 - (i + 1))" "0 \<le> i + 1" "i + 1 \<le> j + 1"
      using Suc.hyps(2) Suc.prems ij by auto
    from Suc.hyps(1) [OF this, of "headers @ [header]"]
    obtain e where "block_range get (word_of_int (i + 1)) (word_of_int j) (headers @ [header]) =
        Some (if fst (fetch_blocks get [i + 1..j]) then None else Some e, (headers @ [header]) @ snd (fetch_blocks get [i + 1..j]))"
      by blast
    ultimately show ?thesis using Inr by (auto simp: upto split: prod.splits)
  qed
qed

lemma process_ranges_fetch:
  assumes "0 \<le> i" and "latest < 2 ^ 63 - 1"
  shows "process_ranges headerByNumber i latest headers =
    (case fetch_blocks (getHeaderByNumberRetryable headerByNumber) [i..latest] of (ok, hs) \<Rightarrow> Some (ok, headers @ hs))"
  using assms(1)
proof (induction "nat (latest - i + 1)" arbitrary: i headers rule: less_induct)
  case less
  let ?get = "getHeaderByNumberRetryable headerByNumber"
  show ?case
  proof (cases "i \<le> latest")
    case False
    then show ?thesis by (subst process_ranges.simps) simp
  next
    case True
    define to where "to = (if i + 199 > latest then latest else i + 199)"
    have "i \<le> to + 1" "to < 2 ^ 63 - 1" using True assms(2) by (auto simp: to_def)
    from block_range_fetch [OF less.prems this, of ?get headers]
    obtain e where range: "processBlockRange headerByNumber i to headers =
        Some (if fst (fetch_blocks ?get [i..to]) then None else Some e, headers @ snd (fetch_blocks ?get [i..to]))"
      unfolding processBlockRange_def by blast
    obtain ok hs where f: "fetch_blocks ?get [i..to] = (ok, hs)" by force
    obtain ok' hs' where f': "fetch_blocks ?get [i + 200..latest] = (ok', hs')" by force
    have split: "[i..latest] = [i..to] @ [i + 200..latest]"
      using True upto_split2 [of i "i + 199" latest] by (simp add: to_def algebra_simps)
    have rest: "process_ranges headerByNumber (i + 200) latest h = Some (ok', h @ hs')" for h
      using less.hyps [of "i + 200"] less.prems True f' by simp
    have "process_ranges headerByNumber i latest headers =
        (case processBlockRange headerByNumber i to headers of
           None \<Rightarrow> None
         | Some (Some e, headers') \<Rightarrow> Some (False, headers')
         | Some (None, headers') \<Rightarrow> process_ranges headerByNumber (i + 200) latest headers')"
      using True unfolding to_def by (subst process_ranges.simps, unfold MaxBlocksPerRequest_def) simp
    then show ?thesis using range f f' rest by (simp add: split fetch_blocks_append)
  qed
qed

section \<open>Subscribing\<close>

text \<open>
  A subscriber with its clients, its current subscription and the subscriptions it has given up;
  subscriptions have numbers. \<open>newHead\<close> answers the attempts to subscribe. Attempts are counted
  with a 64-bit integer; \<open>None\<close> is a loop that does not end.
\<close>

record subscriber =
  sub_blockchainID :: ids_ID
  sub_wsClient :: rpc_client
  sub_rpcClient :: rpc_client
  sub_sub :: "nat option"
  sub_unsubscribed :: "nat list"

definition evm_NewSubscriber :: "ids_ID \<Rightarrow> rpc_client \<Rightarrow> rpc_client \<Rightarrow> subscriber" where
  "evm_NewSubscriber blockchainID wsClient rpcClient =
     \<lparr>sub_blockchainID = blockchainID, sub_wsClient = wsClient, sub_rpcClient = rpcClient, sub_sub = None, sub_unsubscribed = []\<rparr>"

text \<open>No subscriber, a nil interface, for another virtual machine.\<close>

definition NewSubscriber :: "vm \<Rightarrow> ids_ID \<Rightarrow> rpc_client \<Rightarrow> rpc_client \<Rightarrow> subscriber option" where
  "NewSubscriber v blockchainID wsClient rpcClient =
     (case v of EVM \<Rightarrow> Some (evm_NewSubscriber blockchainID wsClient rpcClient) | _ \<Rightarrow> None)"

definition subscribe :: "nat result \<Rightarrow> subscriber \<Rightarrow> error option \<times> subscriber" where
  "subscribe answer s = (case answer of Inl e \<Rightarrow> (Some e, s) | Inr sub \<Rightarrow> (None, s\<lparr>sub_sub := Some sub\<rparr>))"

definition Unsubscribe :: "subscriber \<Rightarrow> subscriber" where
  "Unsubscribe s = (case sub_sub s of None \<Rightarrow> s | Some sub \<Rightarrow> s\<lparr>sub_unsubscribed := sub_unsubscribed s @ [sub]\<rparr>)"

partial_function (option) subscribe_from ::
  "(nat \<Rightarrow> nat result) \<Rightarrow> u64 \<Rightarrow> u64 \<Rightarrow> subscriber \<Rightarrow> (error option \<times> subscriber) option" where
  "subscribe_from newHead attempt maxResubscribeAttempts s =
     (case subscribe (newHead (unat attempt)) (Unsubscribe s) of
        (None, s1) \<Rightarrow> Some (None, s1)
      | (Some e, s1) \<Rightarrow>
          if attempt = maxResubscribeAttempts then Some (Some (Errorf ''failed to subscribe to node with all attempts''), s1)
          else subscribe_from newHead (attempt + 1) maxResubscribeAttempts s1)"

definition Subscribe :: "(nat \<Rightarrow> nat result) \<Rightarrow> u64 \<Rightarrow> subscriber \<Rightarrow> (error option \<times> subscriber) option" where
  "Subscribe newHead maxResubscribeAttempts s = subscribe_from newHead 1 maxResubscribeAttempts s"

text \<open>A subscription is in use when it is the current one and has not been given up.\<close>

definition one_subscription :: "subscriber \<Rightarrow> subscriber \<Rightarrow> bool" where
  "one_subscription s s' \<longleftrightarrow> set (sub_unsubscribed s) \<subseteq> set (sub_unsubscribed s') \<and>
     (\<forall>old. sub_sub s = Some old \<longrightarrow> old \<in> set (sub_unsubscribed s'))"

lemma subscribe_from_ends:
  assumes "unat attempt \<le> unat m"
  shows "\<exists>res s'. subscribe_from newHead attempt m s = Some (res, s') \<and> one_subscription s s' \<and>
    (res = None \<longleftrightarrow> (\<exists>i \<in> {unat attempt..unat m}. \<exists>sub. newHead i = Inr sub)) \<and>
    (res = None \<longrightarrow> (\<exists>i sub. newHead i = Inr sub \<and> sub_sub s' = Some sub)) \<and> (res \<noteq> None \<longrightarrow> sub_sub s' = sub_sub s)"
  using assms
proof (induction "unat m - unat attempt" arbitrary: attempt s)
  case 0
  then have eq: "attempt = m" by (simp add: word_unat_eq_iff)
  have "{unat m..unat m} = {unat m}" by simp
  then show ?case unfolding eq
    by (subst subscribe_from.simps)
      (auto simp: subscribe_def Unsubscribe_def one_subscription_def split: sum.split option.split)
next
  case (Suc n)
  let ?s = "Unsubscribe s"
  have lt: "unat attempt < unat m" using Suc.hyps(2) by simp
  then have nxt: "unat (attempt + 1) = Suc (unat attempt)"
    using unat_Suc_less [of attempt m] by (simp add: word_less_nat_alt)
  have u: "sub_sub ?s = sub_sub s" "one_subscription s ?s"
    by (auto simp: Unsubscribe_def one_subscription_def split: option.split)
  show ?case
  proof (cases "newHead (unat attempt)")
    case (Inr sub)
    then show ?thesis using lt u
      by (subst subscribe_from.simps) (auto simp: subscribe_def one_subscription_def)
  next
    case (Inl e)
    have "attempt \<noteq> m" using lt by auto
    then have step: "subscribe_from newHead attempt m s = subscribe_from newHead (attempt + 1) m ?s"
      by (subst subscribe_from.simps) (simp add: subscribe_def Inl)
    have "n = unat m - unat (attempt + 1)" "unat (attempt + 1) \<le> unat m" using Suc.hyps(2) nxt lt by auto
    from Suc.hyps(1) [OF this, of ?s]
    obtain res s' where r: "subscribe_from newHead (attempt + 1) m ?s = Some (res, s')" "one_subscription ?s s'"
      "res = None \<longleftrightarrow> (\<exists>i \<in> {unat (attempt + 1)..unat m}. \<exists>sub. newHead i = Inr sub)"
      "res = None \<longrightarrow> (\<exists>i sub. newHead i = Inr sub \<and> sub_sub s' = Some sub)" "res \<noteq> None \<longrightarrow> sub_sub s' = sub_sub ?s" by blast
    have "{unat attempt..unat m} = insert (unat attempt) {unat (attempt + 1)..unat m}" using lt nxt by auto
    then have "(\<exists>i \<in> {unat attempt..unat m}. \<exists>sub. newHead i = Inr sub) \<longleftrightarrow>
        (\<exists>i \<in> {unat (attempt + 1)..unat m}. \<exists>sub. newHead i = Inr sub)" using Inl by auto
    moreover have "one_subscription s s'" using r(2) u by (auto simp: one_subscription_def)
    ultimately show ?thesis using step r u(1) by auto
  qed
qed

section \<open>The listener\<close>

definition maxSubscribeAttempts :: u64 where
  "maxSubscribeAttempts = 10"

definition maxResubscribeAttempts :: u64 where
  "maxResubscribeAttempts = 10"

text \<open>
  A listener; whether its catch-up channel is still to be read, the health of the chain, and the
  headers for which it has started \<^verbatim>\<open>ProcessBlock\<close>.
\<close>

record listener =
  l_Subscriber :: subscriber
  l_currentRequestID :: "32 word"
  l_sourceBlockchain :: source_blockchain
  l_catchUpResultChan :: bool
  l_healthStatus :: bool
  l_processing :: "eth_header list"

text \<open>
  The listener with the height at which it starts to catch up. The random request ID is an
  argument. A method call on a missing subscriber panics.
\<close>

definition newListener ::
  "url_env \<Rightarrow> ids_env \<Rightarrow> (nat \<Rightarrow> nat result) \<Rightarrow> 32 word \<Rightarrow> source_blockchain \<Rightarrow> rpc_client \<Rightarrow> bool \<Rightarrow> u64
     \<Rightarrow> (listener \<times> int) result go_outcome" where
  "newListener uenv ienv newHead requestID sourceBlockchain ethRPCClient relayerHealth startingHeight =
     (case ids_FromString ienv (sb_BlockchainID sourceBlockchain) of
        Inl e \<Rightarrow> Done (Inl e)
      | Inr blockchainID \<Rightarrow>
          (case NewEthClientWithConfig uenv (BaseURL (sb_WSEndpoint sourceBlockchain)) (HTTPHeaders (sb_WSEndpoint sourceBlockchain))
                  (QueryParams (sb_WSEndpoint sourceBlockchain)) of
             Inl e \<Rightarrow> Done (Inl e)
           | Inr ethWSClient \<Rightarrow>
               (case NewSubscriber (ParseVM (sb_VM sourceBlockchain)) blockchainID ethWSClient ethRPCClient of
                  None \<Rightarrow> Panicked
                | Some sub \<Rightarrow>
                    (case Subscribe newHead maxSubscribeAttempts sub of
                       None \<Rightarrow> Blocked
                     | Some (Some e, sub') \<Rightarrow> Done (Inl e)
                     | Some (None, sub') \<Rightarrow>
                         Done (Inr (\<lparr>l_Subscriber = sub', l_currentRequestID = requestID, l_sourceBlockchain = sourceBlockchain,
                           l_catchUpResultChan = True, l_healthStatus = relayerHealth, l_processing = []\<rparr>, uint startingHeight))))))"

text \<open>
  What the loop can receive: an error of an application relayer, the catch-up result (\<open>None\<close> when
  the channel is closed), a header, an error of the subscription, with the answers to the attempts
  to subscribe again, or the end of the context. A channel that is nil is never ready.
\<close>

datatype listener_event =
    RelayerError error
  | CatchUp "bool option"
  | NewHeader eth_header
  | SubscriberError error "nat \<Rightarrow> nat result"
  | CtxDone

datatype listener_outcome = Continue listener | Exit "error option" listener | Stuck

definition reconnectToSubscriber :: "(nat \<Rightarrow> nat result) \<Rightarrow> listener \<Rightarrow> (error option \<times> listener) option" where
  "reconnectToSubscriber newHead l =
     (case Subscribe newHead maxResubscribeAttempts (l_Subscriber l) of
        None \<Rightarrow> None
      | Some (Some e, s) \<Rightarrow> Some (Some (Wrap ''failed to resubscribe to node'' e), l\<lparr>l_Subscriber := s\<rparr>)
      | Some (None, s) \<Rightarrow> Some (None, l\<lparr>l_Subscriber := s, l_healthStatus := True\<rparr>))"

fun listener_step :: "listener_event \<Rightarrow> listener \<Rightarrow> listener_outcome" where
  "listener_step (RelayerError e) l = Continue (l\<lparr>l_healthStatus := False\<rparr>)"
| "listener_step (CatchUp res) l =
     (if \<not> l_catchUpResultChan l then Continue l
      else let l1 = l\<lparr>l_catchUpResultChan := False\<rparr>
           in case res of
                None \<Rightarrow> Exit (Some (Errorf ''catch-up channel unexpectedly closed'')) (l1\<lparr>l_healthStatus := False\<rparr>)
              | Some catchUpResult \<Rightarrow>
                  if \<not> catchUpResult
                  then Exit (Some (Errorf ''failed to catch up on historical blocks'')) (l1\<lparr>l_healthStatus := False\<rparr>)
                  else Continue l1)"
| "listener_step (NewHeader blockHeader) l = Continue (l\<lparr>l_processing := l_processing l @ [blockHeader]\<rparr>)"
| "listener_step (SubscriberError e newHead) l =
     (case reconnectToSubscriber newHead (l\<lparr>l_healthStatus := False\<rparr>) of
        None \<Rightarrow> Stuck
      | Some (Some e', l1) \<Rightarrow> Exit (Some (Wrap ''listener goroutine exiting'' e')) l1
      | Some (None, l1) \<Rightarrow> Continue l1)"
| "listener_step CtxDone l = Exit None (l\<lparr>l_healthStatus := False\<rparr>)"

fun processLogs :: "listener_event list \<Rightarrow> listener \<Rightarrow> listener_outcome" where
  "processLogs [] l = Continue l"
| "processLogs (ev # evs) l =
     (case listener_step ev l of
        Continue l1 \<Rightarrow> processLogs evs l1
      | Exit r l1 \<Rightarrow> Exit r l1
      | Stuck \<Rightarrow> Stuck)"

definition RunListener ::
  "url_env \<Rightarrow> ids_env \<Rightarrow> (nat \<Rightarrow> nat result) \<Rightarrow> 32 word \<Rightarrow> source_blockchain \<Rightarrow> rpc_client \<Rightarrow> bool \<Rightarrow> u64 \<Rightarrow> listener_event list
     \<Rightarrow> listener_outcome result go_outcome" where
  "RunListener uenv ienv newHead requestID sourceBlockchain ethRPCClient relayerHealth startingHeight evs =
     (case newListener uenv ienv newHead requestID sourceBlockchain ethRPCClient relayerHealth startingHeight of
        Done (Inl e) \<Rightarrow> Done (Inl (Wrap ''failed to create listener instance'' e))
      | Done (Inr (l, height)) \<Rightarrow> Done (Inr (processLogs evs l))
      | Blocked \<Rightarrow> Blocked
      | Panicked \<Rightarrow> Panicked)"

text \<open>The parser of \<^verbatim>\<open>vms/evm/contract_message.go\<close>.\<close>

definition contractMessage_UnpackWarpMessage :: "types_env \<Rightarrow> bytes \<Rightarrow> unsigned_message result" where
  "contractMessage_UnpackWarpMessage env unsignedMsgBytes =
     (case te_UnpackSendWarpEventDataToMessage env unsignedMsgBytes of
        Inl e \<Rightarrow>
          (case te_ParseUnsignedMessage env unsignedMsgBytes of
             Inl standaloneErr \<Rightarrow> Inl (Join e standaloneErr)
           | Inr unsignedMsg \<Rightarrow> Inr unsignedMsg)
      | Inr unsignedMsg \<Rightarrow> Inr unsignedMsg)"

lemma contractMessage_types: "contractMessage_UnpackWarpMessage env b = UnpackWarpMessage env b"
  by (simp add: contractMessage_UnpackWarpMessage_def UnpackWarpMessage_def split: sum.split)

section \<open>Runs of the listener\<close>

fun event_headers :: "listener_event list \<Rightarrow> eth_header list" where
  "event_headers [] = []"
| "event_headers (NewHeader h # evs) = h # event_headers evs"
| "event_headers (_ # evs) = event_headers evs"

lemma Subscribe_ends:
  assumes "m \<noteq> 0"
  shows "\<exists>res s'. Subscribe newHead m s = Some (res, s') \<and> one_subscription s s' \<and>
    (res = None \<longleftrightarrow> (\<exists>i \<in> {1..unat m}. \<exists>sub. newHead i = Inr sub)) \<and>
    (res = None \<longrightarrow> (\<exists>i sub. newHead i = Inr sub \<and> sub_sub s' = Some sub)) \<and> (res \<noteq> None \<longrightarrow> sub_sub s' = sub_sub s)"
proof -
  have "unat (1 :: u64) \<le> unat m" using assms by (simp add: unat_gt_0 Suc_leI)
  from subscribe_from_ends [OF this] show ?thesis by (simp add: Subscribe_def)
qed

lemma reconnect_ends:
  "\<exists>res l'. reconnectToSubscriber newHead l = Some (res, l') \<and> l_processing l' = l_processing l \<and>
     (res = None \<longleftrightarrow> (\<exists>i \<in> {1..10}. \<exists>sub. newHead i = Inr sub)) \<and> l_healthStatus l' = (res = None \<or> l_healthStatus l)"
proof -
  have m: "maxResubscribeAttempts \<noteq> 0" "unat maxResubscribeAttempts = 10" by (simp_all add: maxResubscribeAttempts_def)
  obtain res s' where "Subscribe newHead maxResubscribeAttempts (l_Subscriber l) = Some (res, s')"
      "res = None \<longleftrightarrow> (\<exists>i \<in> {1..10}. \<exists>sub. newHead i = Inr sub)"
    using Subscribe_ends [OF m(1), of newHead "l_Subscriber l"] unfolding m(2) by blast
  then show ?thesis by (cases res) (simp_all add: reconnectToSubscriber_def)
qed

lemma listener_step_cases:
  "case listener_step ev l of
     Continue l' \<Rightarrow> l_processing l' = l_processing l @ event_headers [ev]
   | Exit r l' \<Rightarrow> \<not> l_healthStatus l' \<and> l_processing l' = l_processing l \<and> event_headers [ev] = []
   | Stuck \<Rightarrow> False"
proof (cases ev)
  case (SubscriberError e newHead)
  obtain res l' where "reconnectToSubscriber newHead (l\<lparr>l_healthStatus := False\<rparr>) = Some (res, l')" "l_processing l' = l_processing l"
      "l_healthStatus l' = (res = None)"
    using reconnect_ends [of newHead "l\<lparr>l_healthStatus := False\<rparr>"] by auto
  with SubscriberError show ?thesis by (cases res) auto
qed (auto simp: Let_def split: option.split)

lemma event_headers_Cons: "event_headers (ev # evs) = event_headers [ev] @ event_headers evs"
  by (cases ev) auto

lemma processLogs_cases:
  "case processLogs evs l of
     Continue l' \<Rightarrow> l_processing l' = l_processing l @ event_headers evs
   | Exit r l' \<Rightarrow> \<not> l_healthStatus l' \<and> (\<exists>evs1 evs2. evs = evs1 @ evs2 \<and> l_processing l' = l_processing l @ event_headers evs1)
   | Stuck \<Rightarrow> False"
proof (induction evs arbitrary: l)
  case (Cons ev evs)
  note step = listener_step_cases [where ev = ev and l = l]
  show ?case
  proof (cases "listener_step ev l")
    case (Continue l1)
    show ?thesis
    proof (cases "processLogs evs l1")
      case (Exit r l')
      with Cons.IH [of l1] obtain evs1 evs2 where e: "\<not> l_healthStatus l'" "evs = evs1 @ evs2"
          "l_processing l' = l_processing l1 @ event_headers evs1" by auto
      then have "ev # evs = (ev # evs1) @ evs2" "l_processing l' = l_processing l @ event_headers (ev # evs1)"
        using step Continue event_headers_Cons [of ev evs1] by auto
      then have "\<exists>evs1 evs2. ev # evs = evs1 @ evs2 \<and> l_processing l' = l_processing l @ event_headers evs1" by blast
      moreover have run: "processLogs (ev # evs) l = Exit r l'" using Exit Continue by simp
      ultimately show ?thesis unfolding run listener_outcome.case using e(1) by blast
    qed (use Cons.IH [of l1] Continue step event_headers_Cons [of ev evs] in auto)
  next
    case (Exit r l')
    then have "ev # evs = [] @ (ev # evs)" "l_processing l' = l_processing l @ event_headers []" using step by auto
    then have "\<exists>evs1 evs2. ev # evs = evs1 @ evs2 \<and> l_processing l' = l_processing l @ event_headers evs1" by blast
    moreover have run: "processLogs (ev # evs) l = Exit r l'" "\<not> l_healthStatus l'" using Exit step by auto
    ultimately show ?thesis unfolding run(1) listener_outcome.case using run(2) by blast
  qed (use step in auto)
qed simp

lemma get_header_Inr: "get_header request a = Inr h \<Longrightarrow> \<exists>i. request i = Inr h"
proof (induction request a rule: get_header.induct)
  case (1 request a)
  show ?case
  proof (cases "request a")
    case (Inl e)
    with 1 show ?thesis by (subst (asm) (2) get_header.simps) (auto split: if_splits)
  next
    case (Inr header)
    with 1(2) show ?thesis by (subst (asm) get_header.simps) auto
  qed
qed

lemma fetch_blocks_all:
  assumes "fetch_blocks get is = (True, hs)"
  shows "list_all2 (\<lambda>i h. get i = Inr h) is hs"
  using assms by (induction "is" arbitrary: hs) (auto split: sum.splits prod.splits)

lemma fetched_numbers:
  assumes "\<forall>n i h. headerByNumber n i = Inr h \<longrightarrow> hd_Number h = n"
    and "fetch_blocks (getHeaderByNumberRetryable headerByNumber) is = (True, hs)"
  shows "map hd_Number hs = is"
proof -
  have "list_all2 (\<lambda>i h. hd_Number h = i) is hs"
    using fetch_blocks_all [OF assms(2)]
  proof (rule list_all2_mono)
    show "hd_Number h = i" if "getHeaderByNumberRetryable headerByNumber i = Inr h" for i h
      using get_header_Inr that assms(1) unfolding getHeaderByNumberRetryable_def by blast
  qed
  then show ?thesis by (induction rule: list_all2_induct) auto
qed

lemma count_list_upto: "count_list [a..b] x = (if a \<le> x \<and> x \<le> b then 1 else 0)"
proof -
  have "distinct xs \<Longrightarrow> count_list xs x = (if x \<in> set xs then 1 else 0)" for xs :: "int list"
    by (induction xs) auto
  then show ?thesis by simp
qed

section \<open>A concrete subscriber\<close>

definition sample_rpc :: rpc_client where
  "sample_rpc = \<lparr>rc_url = ''ws'', rc_headers = []\<rparr>"

definition sample_subscriber :: subscriber where
  "sample_subscriber = (evm_NewSubscriber 5 sample_rpc sample_rpc)\<lparr>sub_sub := Some 1\<rparr>"

definition sample_headers :: "int \<Rightarrow> nat \<Rightarrow> eth_header result" where
  "sample_headers n i = (if i < 2 then Inl (Errorf ''timeout'') else Inr \<lparr>hd_Number = n, hd_Bloom = []\<rparr>)"

definition sample_newHead :: "nat \<Rightarrow> nat result" where
  "sample_newHead i = (if i < 3 then Inl (Errorf ''refused'') else Inr 2)"

definition sample_listener :: listener where
  "sample_listener = \<lparr>l_Subscriber = sample_subscriber, l_currentRequestID = 1, l_sourceBlockchain = sample_source,
     l_catchUpResultChan = True, l_healthStatus = True, l_processing = []\<rparr>"

section \<open>Properties\<close>

text \<open>
  C29: Catching up from a height to the latest block, in ranges of at most 200 blocks and with up to
  five attempts per header, is the same as asking for the blocks one by one in order: it reports
  success exactly when each header is obtained, and delivers the headers up to the first failure.
\<close>

theorem catch_up_complete:
  assumes "0 \<le> height" and "uint latest < 2 ^ 63 - 1"
  shows "ProcessFromHeight (Inr latest) headerByNumber (Some height) =
    Some (fetch_blocks (getHeaderByNumberRetryable headerByNumber) [height..uint latest])"
  using process_ranges_fetch [OF assms] by (simp add: ProcessFromHeight_def split: prod.split)

theorem catch_up_complete_witness:
  "ProcessFromHeight (Inr 12) sample_headers (Some 11) =
     Some (True, [\<lparr>hd_Number = 11, hd_Bloom = []\<rparr>, \<lparr>hd_Number = 12, hd_Bloom = []\<rparr>])"
proof -
  have "ProcessFromHeight (Inr 12) sample_headers (Some 11) =
      Some (fetch_blocks (getHeaderByNumberRetryable sample_headers) [11..uint (12 :: u64)])"
    by (rule catch_up_complete) simp_all
  also have "[11..uint (12 :: u64)] = [11, 12]" by (simp add: upto_rec1)
  also have "fetch_blocks (getHeaderByNumberRetryable sample_headers) [11, 12] =
      (True, [\<lparr>hd_Number = 11, hd_Bloom = []\<rparr>, \<lparr>hd_Number = 12, hd_Bloom = []\<rparr>])"
    by (simp add: getHeaderByNumberRetryable_def get_header.simps sample_headers_def rpcMaxRetries_def)
  finally show ?thesis .
qed



text \<open>
  C31: Subscribing with a bound on the attempts that is not zero ends: with success exactly when one
  of the attempts up to the bound is answered, else with an error and the old subscription kept as
  the current one. The old subscription has been given up in any case, so that at most one is in
  use.
\<close>

theorem subscribing_ends:
  assumes "maxAttempts \<noteq> 0"
  shows "\<exists>res s'. Subscribe newHead maxAttempts s = Some (res, s') \<and> one_subscription s s' \<and>
    (res = None \<longleftrightarrow> (\<exists>i \<in> {1..unat maxAttempts}. \<exists>sub. newHead i = Inr sub)) \<and>
    (res = None \<longrightarrow> (\<exists>i sub. newHead i = Inr sub \<and> sub_sub s' = Some sub)) \<and> (res \<noteq> None \<longrightarrow> sub_sub s' = sub_sub s)"
  by (rule Subscribe_ends [OF assms])

theorem subscribing_ends_witness:
  "\<exists>s'. Subscribe sample_newHead maxSubscribeAttempts sample_subscriber = Some (None, s') \<and>
     sub_sub s' = Some 2 \<and> 1 \<in> set (sub_unsubscribed s')"
proof -
  have m: "maxSubscribeAttempts \<noteq> 0" "unat maxSubscribeAttempts = 10" by (simp_all add: maxSubscribeAttempts_def)
  have ex: "\<exists>i \<in> {1..10 :: nat}. \<exists>sub. sample_newHead i = Inr sub" by (rule bexI [of _ 3]) (auto simp: sample_newHead_def)
  obtain res s' where s: "Subscribe sample_newHead maxSubscribeAttempts sample_subscriber = Some (res, s')" "one_subscription sample_subscriber s'"
      "res = None \<longleftrightarrow> (\<exists>i \<in> {1..10}. \<exists>sub. sample_newHead i = Inr sub)" "res = None \<longrightarrow> (\<exists>i sub. sample_newHead i = Inr sub \<and> sub_sub s' = Some sub)"
    using subscribing_ends [OF m(1), of sample_newHead sample_subscriber] unfolding m(2) by blast
  have "res = None" using s(3) ex by blast
  with s show ?thesis
    by (auto simp: one_subscription_def sample_subscriber_def evm_NewSubscriber_def sample_newHead_def split: if_splits)
qed

text \<open>
  C32: Whatever the listener receives, it never hangs; while it runs it has started to process
  exactly the blocks received, in order, and when it returns the chain is marked unhealthy and the
  blocks received up to then have been taken up.
\<close>

theorem listener_outcomes:
  "case processLogs evs l of
     Continue l' \<Rightarrow> l_processing l' = l_processing l @ event_headers evs
   | Exit r l' \<Rightarrow> \<not> l_healthStatus l' \<and> (\<exists>evs1 evs2. evs = evs1 @ evs2 \<and> l_processing l' = l_processing l @ event_headers evs1)
   | Stuck \<Rightarrow> False"
  by (rule processLogs_cases)

text \<open>
  A successful reconnection marks the chain healthy again whatever happened before: errors of
  the application relayers reported earlier are no longer visible.
\<close>

theorem reconnect_hides_errors:
  assumes "processLogs evs l = Continue l1" and "i \<in> {1..10}" and "newHead i = Inr sub"
  shows "\<exists>l'. processLogs (evs @ [RelayerError e, SubscriberError e' newHead]) l = Continue l' \<and> l_healthStatus l'"
proof -
  have app: "processLogs evs l = Continue l1 \<Longrightarrow> processLogs (evs @ evs') l = processLogs evs' l1" for evs evs' l
    by (induction evs arbitrary: l) (auto split: listener_outcome.splits)
  obtain l' where "reconnectToSubscriber newHead (l1\<lparr>l_healthStatus := False\<rparr>) = Some (None, l')" "l_healthStatus l'"
    using reconnect_ends [of newHead "l1\<lparr>l_healthStatus := False\<rparr>"] assms(2,3) by auto
  with app [OF assms(1)] show ?thesis by simp
qed

theorem reconnect_hides_errors_witness:
  "\<exists>l'. processLogs ([NewHeader sample_header] @ [RelayerError (Errorf ''not relayed''), SubscriberError (Errorf ''closed'') (\<lambda>_. Inr 2)])
       sample_listener = Continue l' \<and> l_healthStatus l'"
proof -
  have "processLogs [NewHeader sample_header] sample_listener =
      Continue (sample_listener\<lparr>l_processing := l_processing sample_listener @ [sample_header]\<rparr>)" by simp
  then show ?thesis by (rule reconnect_hides_errors [where i = 1]) simp_all
qed

end
