(* ===== verification/Relayer_Metrics.thy ===== *)
theory Relayer_Metrics
  imports External_Handler
begin

text \<open>
  The Prometheus metrics of both programs, \<^verbatim>\<open>signature-aggregator/metrics/metrics.go\<close>,
  \<^verbatim>\<open>peers/app_request_network_metrics.go\<close> and \<^verbatim>\<open>relayer/application_relayer_metrics.go\<close>: which metrics exist,
  and that each of the three groups is registered without a panic when none of its names is taken.
\<close>

section \<open>Metrics and registries\<close>

text \<open>The bounds of an exponential range of buckets and their number.\<close>

datatype metric_kind =
    Gauge
  | Counter
  | Histogram "nat \<times> nat \<times> nat"
  | GaugeVec "string list"
  | CounterVec "string list"

record metric_opts =
  mo_Name :: string
  mo_Help :: string

record collector =
  co_Opts :: metric_opts
  co_Kind :: metric_kind

abbreviation co_Name :: "collector \<Rightarrow> string" where
  "co_Name c \<equiv> mo_Name (co_Opts c)"

text \<open>
  The library, with registries of type \<open>'r\<close>: whether a constructor returns a nil metric, an empty
  registry and \<^verbatim>\<open>MustRegister\<close>, with \<open>None\<close> for its panic.
\<close>

record 'r prom_env =
  pm_nil :: "collector \<Rightarrow> bool"
  pm_NewRegistry :: 'r
  pm_MustRegister :: "collector \<Rightarrow> 'r \<Rightarrow> 'r option"

text \<open>
  What is documented: constructors never return nil, and \<^verbatim>\<open>MustRegister\<close> panics when, and only when,
  a metric of the same name is registered; \<open>names\<close> gives the names in a registry.
\<close>

definition prom_env_ok :: "'r prom_env \<Rightarrow> ('r \<Rightarrow> string set) \<Rightarrow> bool" where
  "prom_env_ok env names \<longleftrightarrow> (\<forall>c. \<not> pm_nil env c) \<and> names (pm_NewRegistry env) = {} \<and>
     (\<forall>c r. case pm_MustRegister env c r of
        None \<Rightarrow> co_Name c \<in> names r
      | Some r' \<Rightarrow> co_Name c \<notin> names r \<and> names r' = insert (co_Name c) (names r))"

text \<open>Metrics registered one after the other, each of those marked checked for nil before.\<close>

fun register_metrics :: "'r prom_env \<Rightarrow> error \<Rightarrow> (bool \<times> collector) list \<Rightarrow> 'r \<Rightarrow> error option go_outcome \<times> 'r" where
  "register_metrics env err [] registerer = (Done None, registerer)"
| "register_metrics env err ((checked, c) # cs) registerer =
     (if checked \<and> pm_nil env c then (Done (Some err), registerer)
      else case pm_MustRegister env c registerer of
          None \<Rightarrow> (Panicked, registerer)
        | Some registerer' \<Rightarrow> register_metrics env err cs registerer')"

section \<open>The metrics of the network\<close>

definition ErrFailedToCreateAppRequestNetworkMetrics :: error where
  "ErrFailedToCreateAppRequestNetworkMetrics = Sentinel ''failed to create app request network metrics''"

record app_request_network_metrics =
  infoAPICallLatencyMS :: collector
  pChainAPICallLatencyMS :: collector
  nm_connects :: collector
  nm_disconnects :: collector

definition network_metrics :: app_request_network_metrics where
  "network_metrics =
     \<lparr>infoAPICallLatencyMS = \<lparr>co_Opts = \<lparr>mo_Name = ''info_api_call_latency_ms'', mo_Help = ''Latency of calling info api in milliseconds''\<rparr>,
        co_Kind = Histogram (100, 10000, 10)\<rparr>,
      pChainAPICallLatencyMS = \<lparr>co_Opts = \<lparr>mo_Name = ''p_chain_api_call_latency_ms'', mo_Help = ''Latency of calling p-chain rpc in milliseconds''\<rparr>,
        co_Kind = Histogram (100, 10000, 10)\<rparr>,
      nm_connects = \<lparr>co_Opts = \<lparr>mo_Name = ''connects'', mo_Help = ''Number of connected events''\<rparr>, co_Kind = Counter\<rparr>,
      nm_disconnects = \<lparr>co_Opts = \<lparr>mo_Name = ''disconnects'', mo_Help = ''Number of disconnected events''\<rparr>, co_Kind = Counter\<rparr>\<rparr>"

definition newAppRequestNetworkMetrics :: "'r prom_env \<Rightarrow> 'r \<Rightarrow> app_request_network_metrics result go_outcome \<times> 'r" where
  "newAppRequestNetworkMetrics env registerer =
     (case register_metrics env ErrFailedToCreateAppRequestNetworkMetrics
             [(True, infoAPICallLatencyMS network_metrics), (True, pChainAPICallLatencyMS network_metrics),
              (True, nm_connects network_metrics), (True, nm_disconnects network_metrics)] registerer of
        (Done None, registerer') \<Rightarrow> (Done (Inr network_metrics), registerer')
      | (Done (Some e), registerer') \<Rightarrow> (Done (Inl e), registerer')
      | (_, registerer') \<Rightarrow> (Panicked, registerer'))"

section \<open>The metrics of the application relayers\<close>

definition ErrFailedToCreateApplicationRelayerMetrics :: error where
  "ErrFailedToCreateApplicationRelayerMetrics = Sentinel ''failed to create application relayer metrics''"

record application_relayer_metrics =
  rm_successfulRelayMessageCount :: collector
  rm_createSignedMessageLatencyMS :: collector
  rm_failedRelayMessageCount :: collector
  rm_fetchSignatureAppRequestCount :: collector
  rm_fetchSignatureRPCCount :: collector

definition relayer_metrics :: application_relayer_metrics where
  "relayer_metrics =
     (let labels = [''destination_chain_id'', ''source_chain_id'', ''source_subnet_id'']
      in \<lparr>rm_successfulRelayMessageCount = \<lparr>co_Opts = \<lparr>mo_Name = ''successful_relay_message_count'',
            mo_Help = ''Number of messages that relayed successfully''\<rparr>, co_Kind = CounterVec labels\<rparr>,
          rm_createSignedMessageLatencyMS = \<lparr>co_Opts = \<lparr>mo_Name = ''create_signed_message_latency_ms'',
            mo_Help = ''Latency of creating a signed message in milliseconds''\<rparr>, co_Kind = GaugeVec labels\<rparr>,
          rm_failedRelayMessageCount = \<lparr>co_Opts = \<lparr>mo_Name = ''failed_relay_message_count'',
            mo_Help = ''Number of messages that failed to relay''\<rparr>, co_Kind = CounterVec (labels @ [''failure_reason''])\<rparr>,
          rm_fetchSignatureAppRequestCount = \<lparr>co_Opts = \<lparr>mo_Name = ''fetch_signature_app_request_count'',
            mo_Help = ''Number of aggregate signatures constructed via AppRequest''\<rparr>, co_Kind = CounterVec labels\<rparr>,
          rm_fetchSignatureRPCCount = \<lparr>co_Opts = \<lparr>mo_Name = ''fetch_signature_rpc_count'',
            mo_Help = ''Number of aggregate signatures fetched via Warp API''\<rparr>, co_Kind = CounterVec labels\<rparr>\<rparr>)"

definition NewApplicationRelayerMetrics :: "'r prom_env \<Rightarrow> 'r \<Rightarrow> application_relayer_metrics result go_outcome \<times> 'r" where
  "NewApplicationRelayerMetrics env registerer =
     (case register_metrics env ErrFailedToCreateApplicationRelayerMetrics
             [(False, rm_successfulRelayMessageCount relayer_metrics), (True, rm_createSignedMessageLatencyMS relayer_metrics),
              (True, rm_failedRelayMessageCount relayer_metrics), (True, rm_fetchSignatureAppRequestCount relayer_metrics),
              (True, rm_fetchSignatureRPCCount relayer_metrics)] registerer of
        (Done None, registerer') \<Rightarrow> (Done (Inr relayer_metrics), registerer')
      | (Done (Some e), registerer') \<Rightarrow> (Done (Inl e), registerer')
      | (_, registerer') \<Rightarrow> (Panicked, registerer'))"

section \<open>The metrics of the signature aggregator\<close>

record signature_aggregator_metrics =
  am_AggregateSignaturesLatencyMS :: collector
  am_AggregateSignaturesRequestCount :: collector
  am_AppRequestCount :: collector
  am_FailuresToGetValidatorSet :: collector
  am_FailuresToConnectToSufficientStake :: collector
  am_FailuresSendingToNode :: collector
  am_ValidatorTimeouts :: collector
  am_InvalidSignatureResponses :: collector
  am_SignatureCacheHits :: collector
  am_SignatureCacheMisses :: collector
  am_ConnectedStakeWeightPercentage :: collector

record signature_aggregator_opts =
  op_AggregateSignaturesLatencyMS :: metric_opts
  op_AggregateSignaturesRequestCount :: metric_opts
  op_AppRequestCount :: metric_opts
  op_FailuresToGetValidatorSet :: metric_opts
  op_FailuresToConnectToSufficientStake :: metric_opts
  op_FailuresSendingToNode :: metric_opts
  op_ValidatorTimeouts :: metric_opts
  op_InvalidSignatureResponses :: metric_opts
  op_SignatureCacheHits :: metric_opts
  op_SignatureCacheMisses :: metric_opts
  op_ConnectedStakeWeightPercentage :: metric_opts

definition Opts :: signature_aggregator_opts where
  "Opts =
     \<lparr>op_AggregateSignaturesLatencyMS = \<lparr>mo_Name = ''agg_sigs_latency_ms'', mo_Help = ''Latency of requests for aggregate signatures''\<rparr>,
      op_AggregateSignaturesRequestCount = \<lparr>mo_Name = ''agg_sigs_req_count'', mo_Help = ''Number of requests for aggregate signatures''\<rparr>,
      op_AppRequestCount = \<lparr>mo_Name = ''app_request_count'', mo_Help = ''Number of AppRequests that have been submitted to the network''\<rparr>,
      op_FailuresToGetValidatorSet = \<lparr>mo_Name = ''failures_to_get_validator_set'',
        mo_Help = ''Number of failed attempts to retrieve the validator set''\<rparr>,
      op_FailuresToConnectToSufficientStake = \<lparr>mo_Name = ''failures_to_connect_to_sufficient_stake'',
        mo_Help = ''Number of incidents of connecting to some validators but not enough stake weight''\<rparr>,
      op_FailuresSendingToNode = \<lparr>mo_Name = ''failures_sending_to_node'',
        mo_Help = ''Number of failures to send a request to a validator node''\<rparr>,
      op_ValidatorTimeouts = \<lparr>mo_Name = ''validator_timeouts'',
        mo_Help = ''Number of timeouts while waiting for a validator to respond to a request''\<rparr>,
      op_InvalidSignatureResponses = \<lparr>mo_Name = ''invalid_signature_responses'',
        mo_Help = ''Number of responses from validators that were not valid signatures''\<rparr>,
      op_SignatureCacheHits = \<lparr>mo_Name = ''signature_cache_hits'', mo_Help = ''Number of signatures that were found in the cache''\<rparr>,
      op_SignatureCacheMisses = \<lparr>mo_Name = ''signature_cache_misses'', mo_Help = ''Number of signatures that were not found in the cache''\<rparr>,
      op_ConnectedStakeWeightPercentage = \<lparr>mo_Name = ''connected_stake_weight_percentage'',
        mo_Help = ''The percentage of connected stake weight for a specific subnet''\<rparr>\<rparr>"

definition aggregator_metrics :: signature_aggregator_metrics where
  "aggregator_metrics =
     \<lparr>am_AggregateSignaturesLatencyMS = \<lparr>co_Opts = op_AggregateSignaturesLatencyMS Opts, co_Kind = Gauge\<rparr>,
      am_AggregateSignaturesRequestCount = \<lparr>co_Opts = op_AggregateSignaturesRequestCount Opts, co_Kind = Counter\<rparr>,
      am_AppRequestCount = \<lparr>co_Opts = op_AppRequestCount Opts, co_Kind = Counter\<rparr>,
      am_FailuresToGetValidatorSet = \<lparr>co_Opts = op_FailuresToGetValidatorSet Opts, co_Kind = Counter\<rparr>,
      am_FailuresToConnectToSufficientStake = \<lparr>co_Opts = op_FailuresToConnectToSufficientStake Opts, co_Kind = Counter\<rparr>,
      am_FailuresSendingToNode = \<lparr>co_Opts = op_FailuresSendingToNode Opts, co_Kind = Counter\<rparr>,
      am_ValidatorTimeouts = \<lparr>co_Opts = op_ValidatorTimeouts Opts, co_Kind = Counter\<rparr>,
      am_InvalidSignatureResponses = \<lparr>co_Opts = op_InvalidSignatureResponses Opts, co_Kind = Counter\<rparr>,
      am_SignatureCacheHits = \<lparr>co_Opts = op_SignatureCacheHits Opts, co_Kind = Counter\<rparr>,
      am_SignatureCacheMisses = \<lparr>co_Opts = op_SignatureCacheMisses Opts, co_Kind = Counter\<rparr>,
      am_ConnectedStakeWeightPercentage = \<lparr>co_Opts = op_ConnectedStakeWeightPercentage Opts, co_Kind = GaugeVec [''subnetID'']\<rparr>\<rparr>"

text \<open>These metrics are not checked for nil.\<close>

definition NewSignatureAggregatorMetrics :: "'r prom_env \<Rightarrow> 'r \<Rightarrow> signature_aggregator_metrics go_outcome \<times> 'r" where
  "NewSignatureAggregatorMetrics env registerer =
     (let m = aggregator_metrics
      in case register_metrics env (Panic ''nil metric'')
                (map (Pair False)
                   [am_AggregateSignaturesLatencyMS m, am_AggregateSignaturesRequestCount m, am_AppRequestCount m, am_FailuresToGetValidatorSet m,
                    am_FailuresToConnectToSufficientStake m, am_FailuresSendingToNode m, am_ValidatorTimeouts m, am_InvalidSignatureResponses m,
                    am_SignatureCacheHits m, am_SignatureCacheMisses m, am_ConnectedStakeWeightPercentage m]) registerer of
           (Done None, registerer') \<Rightarrow> (Done m, registerer')
         | (_, registerer') \<Rightarrow> (Panicked, registerer'))"

section \<open>Registration succeeds once\<close>

lemma register_metrics_ok:
  assumes "prom_env_ok env names" and "distinct (map (co_Name \<circ> snd) cs)" and "\<forall>c \<in> set cs. co_Name (snd c) \<notin> names r"
  shows "\<exists>r'. register_metrics env err cs r = (Done None, r') \<and> names r' = names r \<union> co_Name ` snd ` set cs"
  using assms(2,3)
proof (induction cs arbitrary: r)
  case (Cons c cs)
  obtain checked m where c: "c = (checked, m)" by (cases c)
  have reg: "case pm_MustRegister env m r of None \<Rightarrow> co_Name m \<in> names r
      | Some r' \<Rightarrow> co_Name m \<notin> names r \<and> names r' = insert (co_Name m) (names r)" "\<not> pm_nil env m"
    using assms(1) unfolding prom_env_ok_def by blast+
  have "co_Name m \<notin> names r" using Cons.prems(2) by (simp add: c)
  then obtain r1 where r1: "pm_MustRegister env m r = Some r1" "names r1 = insert (co_Name m) (names r)"
    using reg(1) by (auto split: option.splits)
  have "\<forall>c \<in> set cs. co_Name (snd c) \<notin> names r1" using Cons.prems r1(2) by (auto simp: c image_iff)
  from Cons.IH [OF _ this] Cons.prems(1) r1 reg(2) show ?case by (auto simp: c)
qed simp

lemma register_metrics_panics:
  assumes "prom_env_ok env names" and "c \<in> set cs" and "co_Name (snd c) \<in> names r"
  shows "fst (register_metrics env err cs r) = Panicked"
  using assms(2,3)
proof (induction cs arbitrary: r)
  case (Cons d cs)
  obtain checked m where d: "d = (checked, m)" by (cases d)
  have reg: "case pm_MustRegister env m r of None \<Rightarrow> co_Name m \<in> names r
      | Some r' \<Rightarrow> co_Name m \<notin> names r \<and> names r' = insert (co_Name m) (names r)" "\<not> pm_nil env m"
    using assms(1) unfolding prom_env_ok_def by blast+
  show ?case
  proof (cases "pm_MustRegister env m r")
    case (Some r1)
    with reg(1) Cons.prems have "c \<in> set cs" "co_Name (snd c) \<in> names r1" by (auto simp: d)
    from Cons.IH [OF this] Some reg(2) show ?thesis by (simp add: d)
  qed (simp add: d reg(2))
qed simp

text \<open>The names of the three groups.\<close>

definition network_metric_names :: "string list" where
  "network_metric_names = [''info_api_call_latency_ms'', ''p_chain_api_call_latency_ms'', ''connects'', ''disconnects'']"

definition relayer_metric_names :: "string list" where
  "relayer_metric_names = [''successful_relay_message_count'', ''create_signed_message_latency_ms'', ''failed_relay_message_count'',
     ''fetch_signature_app_request_count'', ''fetch_signature_rpc_count'']"

definition aggregator_metric_names :: "string list" where
  "aggregator_metric_names = [''agg_sigs_latency_ms'', ''agg_sigs_req_count'', ''app_request_count'', ''failures_to_get_validator_set'',
     ''failures_to_connect_to_sufficient_stake'', ''failures_sending_to_node'', ''validator_timeouts'', ''invalid_signature_responses'',
     ''signature_cache_hits'', ''signature_cache_misses'', ''connected_stake_weight_percentage'']"

lemma register_group:
  assumes "prom_env_ok env names" and "map (co_Name \<circ> snd) cs = ns" and "distinct ns" and "names r \<inter> set ns = {}"
  shows "\<exists>r'. register_metrics env err cs r = (Done None, r') \<and> names r' = names r \<union> set ns"
proof -
  have ns: "set ns = co_Name ` snd ` set cs" unfolding assms(2) [symmetric] by auto
  then have "\<forall>c \<in> set cs. co_Name (snd c) \<notin> names r" using assms(4) by auto
  from register_metrics_ok [OF assms(1) _ this] assms(2,3) ns show ?thesis by simp
qed

lemma newAppRequestNetworkMetrics_ok:
  assumes "prom_env_ok env names" and "names r \<inter> set network_metric_names = {}"
  shows "\<exists>r'. newAppRequestNetworkMetrics env r = (Done (Inr network_metrics), r') \<and> names r' = names r \<union> set network_metric_names"
proof -
  have "map (co_Name \<circ> snd) [(True, infoAPICallLatencyMS network_metrics), (True, pChainAPICallLatencyMS network_metrics),
      (True, nm_connects network_metrics), (True, nm_disconnects network_metrics)] = network_metric_names" "distinct network_metric_names"
    by (simp_all add: network_metrics_def network_metric_names_def)
  from register_group [OF assms(1) this assms(2), of ErrFailedToCreateAppRequestNetworkMetrics] show ?thesis
    by (auto simp: newAppRequestNetworkMetrics_def)
qed

lemma NewApplicationRelayerMetrics_ok:
  assumes "prom_env_ok env names" and "names r \<inter> set relayer_metric_names = {}"
  shows "\<exists>r'. NewApplicationRelayerMetrics env r = (Done (Inr relayer_metrics), r') \<and> names r' = names r \<union> set relayer_metric_names"
proof -
  have "map (co_Name \<circ> snd) [(False, rm_successfulRelayMessageCount relayer_metrics), (True, rm_createSignedMessageLatencyMS relayer_metrics),
      (True, rm_failedRelayMessageCount relayer_metrics), (True, rm_fetchSignatureAppRequestCount relayer_metrics),
      (True, rm_fetchSignatureRPCCount relayer_metrics)] = relayer_metric_names" "distinct relayer_metric_names"
    by (simp_all add: relayer_metrics_def relayer_metric_names_def Let_def)
  from register_group [OF assms(1) this assms(2), of ErrFailedToCreateApplicationRelayerMetrics] show ?thesis
    by (auto simp: NewApplicationRelayerMetrics_def)
qed

definition aggregator_collectors :: "(bool \<times> collector) list" where
  "aggregator_collectors = (let m = aggregator_metrics in map (Pair False)
     [am_AggregateSignaturesLatencyMS m, am_AggregateSignaturesRequestCount m, am_AppRequestCount m, am_FailuresToGetValidatorSet m,
      am_FailuresToConnectToSufficientStake m, am_FailuresSendingToNode m, am_ValidatorTimeouts m, am_InvalidSignatureResponses m,
      am_SignatureCacheHits m, am_SignatureCacheMisses m, am_ConnectedStakeWeightPercentage m])"

lemma aggregator_collector_names: "map (co_Name \<circ> snd) aggregator_collectors = aggregator_metric_names"
  by (simp add: aggregator_collectors_def aggregator_metrics_def Opts_def aggregator_metric_names_def Let_def)

lemma NewSignatureAggregatorMetrics_collectors:
  "NewSignatureAggregatorMetrics env r = (case register_metrics env (Panic ''nil metric'') aggregator_collectors r of
     (Done None, r') \<Rightarrow> (Done aggregator_metrics, r') | (_, r') \<Rightarrow> (Panicked, r'))"
  by (simp add: NewSignatureAggregatorMetrics_def aggregator_collectors_def Let_def)

lemma NewSignatureAggregatorMetrics_ok:
  assumes "prom_env_ok env names" and "names r \<inter> set aggregator_metric_names = {}"
  shows "\<exists>r'. NewSignatureAggregatorMetrics env r = (Done aggregator_metrics, r') \<and> names r' = names r \<union> set aggregator_metric_names"
proof -
  have "distinct aggregator_metric_names" by (simp add: aggregator_metric_names_def)
  from register_group [OF assms(1) aggregator_collector_names this assms(2), of "Panic ''nil metric''"] show ?thesis
    by (auto simp: NewSignatureAggregatorMetrics_collectors)
qed

text \<open>Two signature aggregators cannot share a registry: creating the metrics a second time panics.\<close>

lemma NewSignatureAggregatorMetrics_twice:
  assumes "prom_env_ok env names" and "set aggregator_metric_names \<subseteq> names r"
  shows "fst (NewSignatureAggregatorMetrics env r) = Panicked"
proof -
  have "aggregator_collectors \<noteq> []" by (simp add: aggregator_collectors_def Let_def)
  then obtain c where c: "c \<in> set aggregator_collectors" using hd_in_set by blast
  then have "co_Name (snd c) \<in> names r" using assms(2) unfolding aggregator_collector_names [symmetric] by auto
  from register_metrics_panics [OF assms(1) c this] show ?thesis
    by (simp add: NewSignatureAggregatorMetrics_collectors case_prod_unfold)
qed

section \<open>The servers of a process\<close>

text \<open>
  What a process serves: the patterns of the default multiplexer with their handlers, and the
  ports on which it listens, on all of which the default multiplexer answers. A metrics handler
  gathers registries under a prefix; the process has the default registry and one of its own.
\<close>

datatype registry_ref = DefaultRegistry | OwnRegistry

datatype http_handler =
    MetricsHandler "(string \<times> registry_ref) list"
  | HealthHandler
  | RelayHandler
  | RelayMessageHandler
  | AggregateSignaturesHandler

record 'r process =
  ps_default :: 'r
  ps_own :: 'r
  ps_mux :: "(string \<times> http_handler) list"
  ps_ports :: "16 word list"

text \<open>\<^verbatim>\<open>http.Handle\<close> panics when the pattern is taken; a server is a goroutine that listens on a port.\<close>

definition http_Handle :: "string \<Rightarrow> http_handler \<Rightarrow> 'r process \<Rightarrow> 'r process go_outcome" where
  "http_Handle pattern handler ps =
     (if pattern \<in> fst ` set (ps_mux ps) then Panicked else Done (ps\<lparr>ps_mux := ps_mux ps @ [(pattern, handler)]\<rparr>))"

definition go_ListenAndServe :: "16 word \<Rightarrow> 'r process \<Rightarrow> 'r process" where
  "go_ListenAndServe port ps = ps\<lparr>ps_ports := ps_ports ps @ [port]\<rparr>"

text \<open>The start of a server with metrics. \<open>register\<close> is the gatherer's \<^verbatim>\<open>Register\<close> under a prefix.\<close>

definition initializeMetrics :: "'r prom_env \<Rightarrow> (string \<Rightarrow> error option) \<Rightarrow> 'r process \<Rightarrow> ((string \<times> registry_ref) list \<times> 'r process) result" where
  "initializeMetrics env register ps =
     (case register ''app'' of
        Some e \<Rightarrow> Inl e
      | None \<Rightarrow> Inr ([(''app'', OwnRegistry)], ps\<lparr>ps_own := pm_NewRegistry env\<rparr>))"

definition startMetricsServer :: "(string \<times> registry_ref) list \<Rightarrow> 16 word \<Rightarrow> 'r process \<Rightarrow> 'r process go_outcome" where
  "startMetricsServer gatherer port ps =
     (case http_Handle ''/metrics'' (MetricsHandler gatherer) ps of
        Done ps' \<Rightarrow> Done (go_ListenAndServe port ps')
      | res \<Rightarrow> res)"

definition HandleMetricsRequest :: "(string \<times> registry_ref) list \<Rightarrow> 'r process \<Rightarrow> 'r process go_outcome" where
  "HandleMetricsRequest gatherer ps = http_Handle ''/metrics'' (MetricsHandler gatherer) ps"

definition metrics_Initialize :: "'r prom_env \<Rightarrow> (string \<Rightarrow> error option) \<Rightarrow> 16 word \<Rightarrow> 'r process \<Rightarrow> 'r process go_outcome" where
  "metrics_Initialize env register port ps =
     (case register ''signature-aggregator'' of
        Some e \<Rightarrow> Panicked
      | None \<Rightarrow>
          (case http_Handle ''/metrics'' (MetricsHandler [(''signature-aggregator'', OwnRegistry)]) (ps\<lparr>ps_own := pm_NewRegistry env\<rparr>) of
             Done ps' \<Rightarrow> Done (go_ListenAndServe port ps')
           | res \<Rightarrow> res))"

definition HealthAPIPath :: string where
  "HealthAPIPath = ''/health''"

definition RelayAPIPath :: string where
  "RelayAPIPath = ''/relay''"

definition RelayMessageAPIPath :: string where
  "RelayMessageAPIPath = RelayAPIPath @ ''/message''"

definition APIPath :: string where
  "APIPath = ''/aggregate-signatures''"

text \<open>The names of the second and the third are the other way round, as in the source.\<close>

definition HandleHealthCheck :: "'r process \<Rightarrow> 'r process go_outcome" where
  "HandleHealthCheck ps = http_Handle HealthAPIPath HealthHandler ps"

definition HandleRelay :: "'r process \<Rightarrow> 'r process go_outcome" where
  "HandleRelay ps = http_Handle RelayMessageAPIPath RelayMessageHandler ps"

definition HandleRelayMessage :: "'r process \<Rightarrow> 'r process go_outcome" where
  "HandleRelayMessage ps = http_Handle RelayAPIPath RelayHandler ps"

definition HandleAggregateSignaturesByRawMsgRequest :: "'r process \<Rightarrow> 'r process go_outcome" where
  "HandleAggregateSignaturesByRawMsgRequest ps = http_Handle APIPath AggregateSignaturesHandler ps"

definition HandleHealthCheckRequest :: "'r process \<Rightarrow> 'r process go_outcome" where
  "HandleHealthCheckRequest ps = http_Handle ''/health'' HealthHandler ps"

text \<open>The metrics that a handler answers with.\<close>

fun served :: "('r \<Rightarrow> string set) \<Rightarrow> 'r process \<Rightarrow> http_handler \<Rightarrow> (string \<times> string) set" where
  "served names ps (MetricsHandler gatherer) =
     {(prefix, name). \<exists>ref. (prefix, ref) \<in> set gatherer \<and>
        name \<in> names (case ref of DefaultRegistry \<Rightarrow> ps_default ps | OwnRegistry \<Rightarrow> ps_own ps)}"
| "served names ps _ = {}"

section \<open>The relayer's metrics and routes\<close>

text \<open>
  The part of \<^verbatim>\<open>main\<close> of the relayer that touches the registries, the multiplexer and the ports, in
  its order: the metrics of the network are created in \<^verbatim>\<open>NewNetwork\<close>, those of the aggregator with the
  default registry. Every error ends the process, as a panic does.
\<close>

definition main_monitoring :: "'r prom_env \<Rightarrow> (string \<Rightarrow> error option) \<Rightarrow> 16 word \<Rightarrow> 16 word \<Rightarrow> 'r process \<Rightarrow> 'r process go_outcome" where
  "main_monitoring env register metricsPort apiPort ps0 =
     (case initializeMetrics env register ps0 of
        Inl e \<Rightarrow> Panicked
      | Inr (gatherer, ps1) \<Rightarrow>
          (case newAppRequestNetworkMetrics env (ps_own ps1) of
             (Done (Inr _), own2) \<Rightarrow>
               (case startMetricsServer gatherer metricsPort (ps1\<lparr>ps_own := own2\<rparr>) of
                  Done ps3 \<Rightarrow>
                    (case NewApplicationRelayerMetrics env (ps_own ps3) of
                       (Done (Inr _), own4) \<Rightarrow>
                         (case NewSignatureAggregatorMetrics env (ps_default ps3) of
                            (Done _, default5) \<Rightarrow>
                              (case HandleHealthCheck (ps3\<lparr>ps_own := own4, ps_default := default5\<rparr>) of
                                 Done ps6 \<Rightarrow>
                                   (case HandleRelay ps6 of
                                      Done ps7 \<Rightarrow>
                                        (case HandleRelayMessage ps7 of
                                           Done ps8 \<Rightarrow> Done (go_ListenAndServe apiPort ps8)
                                         | _ \<Rightarrow> Panicked)
                                    | _ \<Rightarrow> Panicked)
                               | _ \<Rightarrow> Panicked)
                          | _ \<Rightarrow> Panicked)
                     | _ \<Rightarrow> Panicked)
                | _ \<Rightarrow> Panicked)
           | _ \<Rightarrow> Panicked))"

lemma metric_names_disjoint:
  "set network_metric_names \<inter> set relayer_metric_names = {}" "set network_metric_names \<inter> set aggregator_metric_names = {}"
  "set relayer_metric_names \<inter> set aggregator_metric_names = {}"
  by (simp_all add: network_metric_names_def relayer_metric_names_def aggregator_metric_names_def)

lemma main_monitoring_ok:
  assumes "prom_env_ok env names" and "register ''app'' = None" and "ps_mux ps = []" and "names (ps_default ps) \<inter> set aggregator_metric_names = {}"
  shows "\<exists>ps'. main_monitoring env register metricsPort apiPort ps = Done ps' \<and>
    ps_mux ps' = [(''/metrics'', MetricsHandler [(''app'', OwnRegistry)]), (''/health'', HealthHandler), (''/relay/message'', RelayMessageHandler),
      (''/relay'', RelayHandler)] \<and> ps_ports ps' = ps_ports ps @ [metricsPort, apiPort] \<and>
    names (ps_own ps') = set network_metric_names \<union> set relayer_metric_names \<and>
    names (ps_default ps') = names (ps_default ps) \<union> set aggregator_metric_names"
proof -
  have "names (pm_NewRegistry env) = {}" using assms(1) by (simp add: prom_env_ok_def)
  with newAppRequestNetworkMetrics_ok [OF assms(1), of "pm_NewRegistry env"]
  obtain own2 where own2: "newAppRequestNetworkMetrics env (pm_NewRegistry env) = (Done (Inr network_metrics), own2)"
      "names own2 = set network_metric_names" by auto
  with NewApplicationRelayerMetrics_ok [OF assms(1), of own2] metric_names_disjoint(1)
  obtain own4 where own4: "NewApplicationRelayerMetrics env own2 = (Done (Inr relayer_metrics), own4)"
      "names own4 = set network_metric_names \<union> set relayer_metric_names" by auto
  from NewSignatureAggregatorMetrics_ok [OF assms(1,4)]
  obtain default5 where "NewSignatureAggregatorMetrics env (ps_default ps) = (Done aggregator_metrics, default5)"
      "names default5 = names (ps_default ps) \<union> set aggregator_metric_names" by blast
  with own2(1) own4 assms(2,3) show ?thesis
    by (simp add: main_monitoring_def initializeMetrics_def startMetricsServer_def HandleHealthCheck_def HandleRelay_def HandleRelayMessage_def
        http_Handle_def go_ListenAndServe_def HealthAPIPath_def RelayAPIPath_def RelayMessageAPIPath_def)
qed

section \<open>A concrete registry\<close>

definition sample_prom_env :: "string list prom_env" where
  "sample_prom_env = \<lparr>pm_nil = \<lambda>_. False, pm_NewRegistry = [],
     pm_MustRegister = \<lambda>c r. if co_Name c \<in> set r then None else Some (co_Name c # r)\<rparr>"

lemma sample_prom_env_ok: "prom_env_ok sample_prom_env set"
  by (simp add: prom_env_ok_def sample_prom_env_def)

definition sample_process :: "string list process" where
  "sample_process = \<lparr>ps_default = [''go_goroutines''], ps_own = [], ps_mux = [], ps_ports = []\<rparr>"

section \<open>Properties\<close>

text \<open>
  The relayer registers each of its metrics and routes once, so that none of this panics, and
  serves all metrics of its network and its application relayers under the prefix of the
  program, but none of the signature aggregator that it contains.
\<close>

theorem relayer_metrics_served:
  assumes "prom_env_ok env names" and "register ''app'' = None" and "ps_mux ps = []" and "names (ps_default ps) \<inter> set aggregator_metric_names = {}"
  shows "\<exists>ps' h. main_monitoring env register metricsPort apiPort ps = Done ps' \<and> (''/metrics'', h) \<in> set (ps_mux ps') \<and>
    served names ps' h = {''app''} \<times> (set network_metric_names \<union> set relayer_metric_names) \<and>
    (\<forall>m \<in> set aggregator_metric_names. \<forall>prefix. (prefix, m) \<notin> served names ps' h) \<and>
    distinct (map fst (ps_mux ps')) \<and> {metricsPort, apiPort} \<subseteq> set (ps_ports ps')"
proof -
  obtain ps' where ps': "main_monitoring env register metricsPort apiPort ps = Done ps'"
      "ps_mux ps' = [(''/metrics'', MetricsHandler [(''app'', OwnRegistry)]), (''/health'', HealthHandler), (''/relay/message'', RelayMessageHandler),
        (''/relay'', RelayHandler)]" "ps_ports ps' = ps_ports ps @ [metricsPort, apiPort]"
      "names (ps_own ps') = set network_metric_names \<union> set relayer_metric_names"
    using main_monitoring_ok [where register = register, OF assms] by blast
  then have "served names ps' (MetricsHandler [(''app'', OwnRegistry)]) = {''app''} \<times> (set network_metric_names \<union> set relayer_metric_names)"
    by auto
  moreover from this have "\<forall>m \<in> set aggregator_metric_names. \<forall>prefix. (prefix, m) \<notin> served names ps' (MetricsHandler [(''app'', OwnRegistry)])"
    using metric_names_disjoint by auto
  ultimately show ?thesis using ps'
    by (intro exI [of _ ps'] exI [of _ "MetricsHandler [(''app'', OwnRegistry)]"]) simp
qed

theorem relayer_metrics_served_witness:
  "\<exists>ps' h. main_monitoring sample_prom_env (\<lambda>_. None) 9090 8080 sample_process = Done ps' \<and> (''/metrics'', h) \<in> set (ps_mux ps') \<and>
     (''app'', ''connects'') \<in> served set ps' h \<and> (''app'', ''agg_sigs_req_count'') \<notin> served set ps' h"
proof -
  have "ps_mux sample_process = []" "set (ps_default sample_process) \<inter> set aggregator_metric_names = {}"
    by (simp_all add: sample_process_def aggregator_metric_names_def)
  from relayer_metrics_served [where register = "\<lambda>_. None", OF sample_prom_env_ok refl this, of 9090 8080]
  obtain ps' h where ps': "main_monitoring sample_prom_env (\<lambda>_. None) 9090 8080 sample_process = Done ps'" "(''/metrics'', h) \<in> set (ps_mux ps')"
      "served set ps' h = {''app''} \<times> (set network_metric_names \<union> set relayer_metric_names)" by auto
  have "''connects'' \<in> set network_metric_names \<union> set relayer_metric_names" "''agg_sigs_req_count'' \<notin> set network_metric_names \<union> set relayer_metric_names"
    by (simp_all add: network_metric_names_def relayer_metric_names_def)
  with ps' show ?thesis by blast
qed

end
