(* ===== verification/Network_Start.thy ===== *)
theory Network_Start
  imports App_Network Aggregator_Config Relayer_Metrics
begin

text \<open>
  The construction of the network: \<^verbatim>\<open>peers/info_client.go\<close>, the constructors of
  \<^verbatim>\<open>peers/validators/canonical_validator_client.go\<close> and \<^verbatim>\<open>NewNetwork\<close> of \<^verbatim>\<open>peers/app_request_network.go\<close>.
  The theory shows that the network a program starts with speaks to the configured APIs with the
  configured options, and that its handler starts in a state in which it cannot block.
\<close>

section \<open>The clients\<close>

text \<open>
  avalanchego's clients of the Info API and of the P-chain. Every request takes the RPC options.
  Replies that are only passed on have the types \<open>'v\<close>, \<open>'f\<close> and \<open>'u\<close>.
\<close>

record ('v, 'f, 'u) info_client =
  ic_GetBlockchainID :: "string \<Rightarrow> rpc_option list \<Rightarrow> ids_ID result"
  ic_GetNetworkID :: "rpc_option list \<Rightarrow> u32 result"
  ic_GetNetworkName :: "rpc_option list \<Rightarrow> string result"
  ic_GetNodeID :: "rpc_option list \<Rightarrow> (nodeID \<times> bytes) result"
  ic_GetNodeIP :: "rpc_option list \<Rightarrow> string result"
  ic_GetNodeVersion :: "rpc_option list \<Rightarrow> 'v result"
  ic_GetTxFee :: "rpc_option list \<Rightarrow> 'f result"
  ic_GetVMs :: "rpc_option list \<Rightarrow> (ids_ID \<Rightarrow> string list option) result"
  ic_IsBootstrapped :: "string \<Rightarrow> rpc_option list \<Rightarrow> bool result"
  ic_Peers :: "rpc_option list \<Rightarrow> (nodeID \<times> string) list result"
  ic_Uptime :: "ids_ID \<Rightarrow> rpc_option list \<Rightarrow> 'u result"

record 'pk platform_client =
  pl_GetHeight :: "rpc_option list \<Rightarrow> u64 result"
  pl_GetValidatorsAt :: "ids_ID \<Rightarrow> u64 \<Rightarrow> rpc_option list \<Rightarrow> (nodeID \<Rightarrow> 'pk validator_output option) result"
  pl_GetCurrentValidators :: "ids_ID \<Rightarrow> nodeID list \<Rightarrow> rpc_option list \<Rightarrow> 'pk client_validator list result"
  pl_ValidatedBy :: "ids_ID \<Rightarrow> rpc_option list \<Rightarrow> ids_ID result"

record ('v, 'f, 'u) info_api =
  ia_client :: "('v, 'f, 'u) info_client"
  ia_options :: "rpc_option list"

definition NewInfoAPI :: "(string \<Rightarrow> ('v, 'f, 'u) info_client) \<Rightarrow> api_config \<Rightarrow> ('v, 'f, 'u) info_api result" where
  "NewInfoAPI newClient apiConfig =
     Inr \<lparr>ia_client = newClient (BaseURL apiConfig), ia_options = InitializeOptions apiConfig\<rparr>"

definition InfoAPI_GetBlockchainID :: "('v, 'f, 'u) info_api \<Rightarrow> string \<Rightarrow> ids_ID result" where
  "InfoAPI_GetBlockchainID i alias = ic_GetBlockchainID (ia_client i) alias (ia_options i)"

definition InfoAPI_GetNetworkID :: "('v, 'f, 'u) info_api \<Rightarrow> u32 result" where
  "InfoAPI_GetNetworkID i = ic_GetNetworkID (ia_client i) (ia_options i)"

definition InfoAPI_GetNetworkName :: "('v, 'f, 'u) info_api \<Rightarrow> string result" where
  "InfoAPI_GetNetworkName i = ic_GetNetworkName (ia_client i) (ia_options i)"

definition InfoAPI_GetNodeID :: "('v, 'f, 'u) info_api \<Rightarrow> (nodeID \<times> bytes) result" where
  "InfoAPI_GetNodeID i = ic_GetNodeID (ia_client i) (ia_options i)"

definition InfoAPI_GetNodeIP :: "('v, 'f, 'u) info_api \<Rightarrow> string result" where
  "InfoAPI_GetNodeIP i = ic_GetNodeIP (ia_client i) (ia_options i)"

definition InfoAPI_GetNodeVersion :: "('v, 'f, 'u) info_api \<Rightarrow> 'v result" where
  "InfoAPI_GetNodeVersion i = ic_GetNodeVersion (ia_client i) (ia_options i)"

definition InfoAPI_GetTxFee :: "('v, 'f, 'u) info_api \<Rightarrow> 'f result" where
  "InfoAPI_GetTxFee i = ic_GetTxFee (ia_client i) (ia_options i)"

definition InfoAPI_GetVMs :: "('v, 'f, 'u) info_api \<Rightarrow> (ids_ID \<Rightarrow> string list option) result" where
  "InfoAPI_GetVMs i = ic_GetVMs (ia_client i) (ia_options i)"

definition InfoAPI_IsBootstrapped :: "('v, 'f, 'u) info_api \<Rightarrow> string \<Rightarrow> bool result" where
  "InfoAPI_IsBootstrapped i chainID = ic_IsBootstrapped (ia_client i) chainID (ia_options i)"

definition InfoAPI_Peers :: "('v, 'f, 'u) info_api \<Rightarrow> (nodeID \<times> string) list result" where
  "InfoAPI_Peers i = ic_Peers (ia_client i) (ia_options i)"

definition InfoAPI_Uptime :: "('v, 'f, 'u) info_api \<Rightarrow> ids_ID \<Rightarrow> 'u result" where
  "InfoAPI_Uptime i subnetID = ic_Uptime (ia_client i) subnetID (ia_options i)"

text \<open>The client of the P-chain with the options bound, which each of its methods passes on.\<close>

definition NewCanonicalValidatorClient :: "(string \<Rightarrow> 'pk platform_client) \<Rightarrow> api_config \<Rightarrow> 'pk pchain_client" where
  "NewCanonicalValidatorClient newClient apiConfig =
     (let client = newClient (BaseURL apiConfig); options = InitializeOptions apiConfig
      in \<lparr>pc_GetHeight = pl_GetHeight client options,
          pc_GetValidatorsAt = \<lambda>subnetID height. pl_GetValidatorsAt client subnetID height options,
          pc_GetCurrentValidators = \<lambda>subnetID nodeIDs. pl_GetCurrentValidators client subnetID nodeIDs options,
          pc_ValidatedBy = \<lambda>blockchainID. pl_ValidatedBy client blockchainID options\<rparr>)"

section \<open>The network\<close>

text \<open>
  The library: avalanchego's clients, its timeout manager and its network, which reports the
  connected peers, together with the canonical sets and with what the other nodes will do.
\<close>

record ('pk, 'tm, 'v, 'f, 'u) net_lib =
  nl_NewInfoClient :: "string \<Rightarrow> ('v, 'f, 'u) info_client"
  nl_NewPlatformClient :: "string \<Rightarrow> 'pk platform_client"
  nl_NewTimeoutManager :: "'tm result"
  nl_timeout_ops :: "'tm timeout_ops"
  nl_NewTestNetwork :: "u32 \<Rightarrow> ids_ID set \<Rightarrow> (nodeID set \<Rightarrow> nodeID list) result"
  nl_canonical :: "(u64 \<Rightarrow> ids_ID \<Rightarrow> (nodeID \<Rightarrow> 'pk validator_output option) result) \<Rightarrow> u64 \<Rightarrow> ids_ID
     \<Rightarrow> ('pk warp_validator list \<times> u64) result"
  nl_reached :: "nodeID set list"
  nl_arrivals :: "(int \<times> inbound_message) list list"

text \<open>A failure to create the metrics panics, and so does a missing API configuration; other errors are returned.\<close>

definition NewNetwork ::
  "('pk, 'tm, 'v, 'f, 'u) net_lib \<Rightarrow> 'r prom_env \<Rightarrow> 'r \<Rightarrow> ids_ID set \<Rightarrow> api_config option \<Rightarrow> api_config option
     \<Rightarrow> ('pk, 'tm) network result go_outcome \<times> 'r" where
  "NewNetwork lib env registerer trackedSubnets infoConfig pChainConfig =
     (case newAppRequestNetworkMetrics env registerer of
        (Done (Inr metrics), registerer') \<Rightarrow>
          (case NewRelayerExternalHandler (nl_NewTimeoutManager lib) of
             Inl e \<Rightarrow> (Done (Inl e), registerer')
           | Inr handler \<Rightarrow>
               (case infoConfig of
                  None \<Rightarrow> (Panicked, registerer')
                | Some infoConfig' \<Rightarrow>
                    (case NewInfoAPI (nl_NewInfoClient lib) infoConfig' of
                       Inl e \<Rightarrow> (Done (Inl e), registerer')
                     | Inr infoAPI \<Rightarrow>
                         (case InfoAPI_GetNetworkID infoAPI of
                            Inl e \<Rightarrow> (Done (Inl e), registerer')
                          | Inr networkID \<Rightarrow>
                              (case nl_NewTestNetwork lib networkID trackedSubnets of
                                 Inl e \<Rightarrow> (Done (Inl e), registerer')
                               | Inr peerInfo \<Rightarrow>
                                   (case pChainConfig of
                                      None \<Rightarrow> (Panicked, registerer')
                                    | Some pChainConfig' \<Rightarrow>
                                        (Done (Inr \<lparr>nt_env = \<lparr>ne_client = NewCanonicalValidatorClient (nl_NewPlatformClient lib) pChainConfig',
                                             ne_canonical = nl_canonical lib, ne_PeerInfo = peerInfo, ne_Peers = InfoAPI_Peers infoAPI,
                                             ne_GetNodeID = map_sum id fst (InfoAPI_GetNodeID infoAPI), ne_GetNodeIP = InfoAPI_GetNodeIP infoAPI\<rparr>,
                                           nt_tracked = [], nt_ops = nl_timeout_ops lib, nt_handler = handler,
                                           nt_reached = nl_reached lib, nt_arrivals = nl_arrivals lib\<rparr>), registerer')))))))
      | (_, registerer') \<Rightarrow> (Panicked, registerer'))"

section \<open>What the network starts with\<close>

definition network_speaks :: "('pk, 'tm, 'v, 'f, 'u) net_lib \<Rightarrow> api_config \<Rightarrow> api_config \<Rightarrow> ('pk, 'tm) network \<Rightarrow> bool" where
  "network_speaks lib i p n \<longleftrightarrow>
     (let info = nl_NewInfoClient lib (BaseURL i); pchain = nl_NewPlatformClient lib (BaseURL p)
      in ne_Peers (nt_env n) = ic_Peers info (InitializeOptions i) \<and> ne_GetNodeIP (nt_env n) = ic_GetNodeIP info (InitializeOptions i) \<and>
         (\<forall>b. GetSubnetID (ne_client (nt_env n)) b = pl_ValidatedBy pchain b (InitializeOptions p)) \<and>
         GetCurrentHeight (ne_client (nt_env n)) = pl_GetHeight pchain (InitializeOptions p))"

lemma NewNetwork_started:
  assumes "NewNetwork lib env registerer tracked infoConfig pChainConfig = (Done (Inr n), registerer')"
  shows "\<exists>i p networkID. infoConfig = Some i \<and> pChainConfig = Some p \<and> network_speaks lib i p n \<and>
    ic_GetNetworkID (nl_NewInfoClient lib (BaseURL i)) (InitializeOptions i) = Inr networkID \<and>
    nl_NewTestNetwork lib networkID tracked = Inr (ne_PeerInfo (nt_env n)) \<and>
    handler_reach (nt_ops n) (nt_handler n) \<and> ne_canonical (nt_env n) = nl_canonical lib \<and> nt_arrivals n = nl_arrivals lib \<and>
    snd (newAppRequestNetworkMetrics env registerer) = registerer'"
  using assms unfolding NewNetwork_def
  by (auto simp: network_speaks_def NewInfoAPI_def InfoAPI_Peers_def InfoAPI_GetNodeIP_def InfoAPI_GetNetworkID_def NewCanonicalValidatorClient_def
      GetSubnetID_def GetCurrentHeight_def Let_def intro: handler_reach.new split: prod.splits go_outcome.splits sum.splits option.splits)

text \<open>A library that keeps what is documented, and nodes that answer each request at most once.\<close>

definition net_lib_ok :: "'pk warp_validator set \<Rightarrow> ('pk, 'tm, 'v, 'f, 'u) net_lib \<Rightarrow> bool" where
  "net_lib_ok Vs lib \<longleftrightarrow>
     (\<forall>get height subnet vs t. nl_canonical lib get height subnet = Inr (vs, t) \<longrightarrow> canonical_set_ok vs t \<and> set vs \<subseteq> Vs) \<and>
     (\<forall>ms \<in> set (nl_arrivals lib). distinct (map (im_NodeID \<circ> snd) ms))"

lemma NewNetwork_single:
  assumes "net_lib_ok Vs lib" and "NewNetwork lib env registerer tracked infoConfig pChainConfig = (Done (Inr n), registerer')"
  shows "network_single Vs n"
proof -
  have n: "ne_canonical (nt_env n) = nl_canonical lib" "nt_arrivals n = nl_arrivals lib"
    using NewNetwork_started [OF assms(2)] by auto
  have "net_env_ok (nt_env n)" "known_validators (nt_env n) \<subseteq> Vs"
    using assms(1) unfolding net_lib_ok_def net_env_ok_def known_validators_def n(1) by blast+
  then show ?thesis using assms(1) by (simp add: network_single_def network_ok_def net_lib_ok_def n(2))
qed

end
