(* ===== verification/Relayer_Main.thy ===== *)
theory Relayer_Main
  imports Relayer_API Teleporter_Handler Subscriber_Listener Network_Start
begin

text \<open>
  \<^verbatim>\<open>relayer/network_utils.go\<close> and \<^verbatim>\<open>relayer/main/main.go\<close>: how the relayer is put together. The source
  clients, the message handler factories, the application relayers with their starting heights and
  the health trackers are created from the configuration, and the coordinator from all of them.
  The theory shows that the relayers created are those the configuration asks for, that none of
  them lacks its destination client, and that the listener of a chain starts early enough for all.
\<close>

section \<open>Initial connections\<close>

text \<open>Whether the connected stake is enough for a destination; a missing quorum is an error.\<close>

definition checkForSufficientConnectedStake ::
  "cfg_env \<Rightarrow> relayer_config \<Rightarrow> 'pk connected_validators \<Rightarrow> ids_ID \<Rightarrow> bool \<times> warp_quorum option \<times> error option" where
  "checkForSufficientConnectedStake cenv cfg cv destinationBlockchainID =
     (case GetWarpQuorum cenv cfg destinationBlockchainID of
        Inl e \<Rightarrow> (False, None, Some e)
      | Inr quorum \<Rightarrow>
          (CheckStakeWeightExceedsThreshold (Some (uint (ConnectedWeight cv))) (TotalValidatorWeight cv)
             (QuorumNumerator quorum) (QuorumDenominator quorum), Some quorum, None))"

text \<open>The loops end at the first destination without enough stake, with the error of the check, if any.\<close>

fun check_destinations :: "cfg_env \<Rightarrow> relayer_config \<Rightarrow> 'pk connected_validators \<Rightarrow> supported_destination list \<Rightarrow> error option" where
  "check_destinations cenv cfg cv [] = None"
| "check_destinations cenv cfg cv (d # ds) =
     (case checkForSufficientConnectedStake cenv cfg cv (sd_blockchainID d) of
        (ok, quorum, e) \<Rightarrow> if \<not> ok then e else check_destinations cenv cfg cv ds)"

definition connectToNonPrimaryNetworkPeers ::
  "cfg_env \<Rightarrow> ('pk, 'n) app_network \<Rightarrow> relayer_config \<Rightarrow> source_blockchain \<Rightarrow> 'n \<Rightarrow> error option \<times> 'n" where
  "connectToNonPrimaryNetworkPeers cenv nw cfg src n =
     (case an_ConnectToCanonicalValidators nw (sb_subnetID src) n of
        (Inl e, n') \<Rightarrow> (Some e, n')
      | (Inr connectedValidators, n') \<Rightarrow> (check_destinations cenv cfg connectedValidators (sb_SupportedDestinations src), n'))"

fun connect_destinations ::
  "cfg_env \<Rightarrow> ('pk, 'n) app_network \<Rightarrow> relayer_config \<Rightarrow> supported_destination list \<Rightarrow> 'n \<Rightarrow> error option \<times> 'n" where
  "connect_destinations cenv nw cfg [] n = (None, n)"
| "connect_destinations cenv nw cfg (d # ds) n =
     (case an_ConnectToCanonicalValidators nw (Config_GetSubnetID cfg (sd_blockchainID d)) n of
        (Inl e, n') \<Rightarrow> (Some e, n')
      | (Inr connectedValidators, n') \<Rightarrow>
          (case checkForSufficientConnectedStake cenv cfg connectedValidators (sd_blockchainID d) of
             (ok, quorum, e) \<Rightarrow> if \<not> ok then (e, n') else connect_destinations cenv nw cfg ds n'))"

definition connectToPrimaryNetworkPeers ::
  "cfg_env \<Rightarrow> ('pk, 'n) app_network \<Rightarrow> relayer_config \<Rightarrow> source_blockchain \<Rightarrow> 'n \<Rightarrow> error option \<times> 'n" where
  "connectToPrimaryNetworkPeers cenv nw cfg src n = connect_destinations cenv nw cfg (sb_SupportedDestinations src) n"

fun connect_sources ::
  "cfg_env \<Rightarrow> ('pk, 'n) app_network \<Rightarrow> relayer_config \<Rightarrow> source_blockchain list \<Rightarrow> 'n \<Rightarrow> error option \<times> 'n" where
  "connect_sources cenv nw cfg [] n = (None, n)"
| "connect_sources cenv nw cfg (src # srcs) n =
     (if sb_subnetID src = PrimaryNetworkID then
        (case connectToPrimaryNetworkPeers cenv nw cfg src n of
           (Some e, n') \<Rightarrow> (Some (err_wrap ''failed to connect to primary network peers'' e), n')
         | (None, n') \<Rightarrow> connect_sources cenv nw cfg srcs n')
      else
        (case connectToNonPrimaryNetworkPeers cenv nw cfg src n of
           (Some e, n') \<Rightarrow> (Some (err_wrap ''failed to connect to non-primary network peers'' e), n')
         | (None, n') \<Rightarrow> connect_sources cenv nw cfg srcs n'))"

definition InitializeConnectionsAndCheckStake ::
  "cfg_env \<Rightarrow> ('pk, 'n) app_network \<Rightarrow> relayer_config \<Rightarrow> 'n \<Rightarrow> error option \<times> 'n" where
  "InitializeConnectionsAndCheckStake cenv nw cfg n = connect_sources cenv nw cfg (cfg_SourceBlockchains cfg) n"

context app_request_network
begin

lemma connect_destinations_invar: "invar n \<Longrightarrow> invar (snd (connect_destinations cenv nw cfg ds n))"
proof (induction ds arbitrary: n)
  case (Cons d ds)
  let ?c = "an_ConnectToCanonicalValidators nw (Config_GetSubnetID cfg (sd_blockchainID d)) n"
  have "invar (snd ?c)" using Cons.prems by (rule invar_connect)
  with Cons.IH show ?case by (auto split: prod.split sum.split)
qed simp

lemma connect_sources_invar: "invar n \<Longrightarrow> invar (snd (connect_sources cenv nw cfg srcs n))"
proof (induction srcs arbitrary: n)
  case (Cons src srcs)
  obtain e1 n1 where p: "connectToPrimaryNetworkPeers cenv nw cfg src n = (e1, n1)" by force
  obtain e2 n2 where q: "connectToNonPrimaryNetworkPeers cenv nw cfg src n = (e2, n2)" by force
  have "invar n1"
    using connect_destinations_invar [OF Cons.prems, of cenv cfg "sb_SupportedDestinations src"] p
    by (simp add: connectToPrimaryNetworkPeers_def)
  moreover have "invar n2"
    using invar_connect [OF Cons.prems, of "sb_subnetID src"] q
    by (auto simp: connectToNonPrimaryNetworkPeers_def split: prod.splits sum.splits)
  ultimately show ?case using Cons.IH by (simp add: p q split: option.split)
qed simp

end

section \<open>The network of the relayer\<close>

text \<open>The subnets of the sources, other than the primary network, are tracked.\<close>

definition trackedSubnets :: "relayer_config \<Rightarrow> ids_ID set" where
  "trackedSubnets cfg =
     fold (\<lambda>src subnets. if sb_subnetID src = PrimaryNetworkID then subnets else insert (sb_subnetID src) subnets) (cfg_SourceBlockchains cfg) {}"

definition main_network ::
  "('pk, 'tm, 'v, 'f, 'u) net_lib \<Rightarrow> 'r prom_env \<Rightarrow> 'r \<Rightarrow> relayer_config \<Rightarrow> ('pk, 'tm) network result" where
  "main_network lib prom registerer cfg =
     (case fst (NewNetwork lib prom registerer (trackedSubnets cfg) (cfg_InfoAPI cfg) (cfg_PChainAPI cfg)) of
        Done res \<Rightarrow> res
      | _ \<Rightarrow> Inl (Panic ''panic in NewNetwork''))"

lemma trackedSubnets_set: "trackedSubnets cfg = sb_subnetID ` set (cfg_SourceBlockchains cfg) - {PrimaryNetworkID}"
proof -
  have "fold (\<lambda>src subnets. if sb_subnetID src = PrimaryNetworkID then subnets else insert (sb_subnetID src) subnets) srcs S =
      S \<union> (sb_subnetID ` set srcs - {PrimaryNetworkID})" for srcs :: "source_blockchain list" and S
    by (induction srcs arbitrary: S) auto
  then show ?thesis by (simp add: trackedSubnets_def)
qed

lemma main_network_single: "net_lib_ok Vs lib \<Longrightarrow> main_network lib prom registerer cfg = Inr n \<Longrightarrow> network_single Vs n"
  using NewNetwork_single [of Vs lib prom registerer "trackedSubnets cfg" "cfg_InfoAPI cfg" "cfg_PChainAPI cfg" n]
  by (auto simp: main_network_def split: go_outcome.splits) (metis prod.collapse)

section \<open>Clients, factories and trackers\<close>

text \<open>Whether there is a connection to the decider; \<open>newClient\<close> is \<^verbatim>\<open>grpc.NewClient\<close>.\<close>

definition createDeciderConnection :: "(string \<Rightarrow> error option) \<Rightarrow> string \<Rightarrow> bool result" where
  "createDeciderConnection newClient url =
     (if length url = 0 then Inr False
      else case newClient url of
          Some e \<Rightarrow> Inl (Wrap ''Failed to instantiate grpc client'' e)
        | None \<Rightarrow> Inr True)"

definition createHealthTrackers :: "relayer_config \<Rightarrow> (ids_ID \<times> bool) list" where
  "createHealthTrackers cfg = fold (\<lambda>src. AList.update (sb_blockchainID src) True) (cfg_SourceBlockchains cfg) []"

definition new_factory ::
  "('k, 'x) protocol_env \<Rightarrow> bool \<Rightarrow> address \<Rightarrow> message_protocol_config \<Rightarrow> (ids_ID, ('k, 'x) world) handler_factory result" where
  "new_factory env deciderConnection address cfg =
     (case ParseMessageProtocol (MessageFormat cfg) of
        TELEPORTER \<Rightarrow>
          (case teleporter_NewMessageHandlerFactory env address cfg deciderConnection of
             Inl e \<Rightarrow> Inl e
           | Inr f \<Rightarrow> Inr (teleporter_NewMessageHandler env f))
      | OFF_CHAIN_REGISTRY \<Rightarrow>
          (case registry_NewMessageHandlerFactory env cfg of
             Inl e \<Rightarrow> Inl e
           | Inr a \<Rightarrow> Inr (registry_NewMessageHandler env a))
      | UNKNOWN_MESSAGE_PROTOCOL \<Rightarrow> Inl (Errorf ''invalid message format''))"

fun source_factories ::
  "('k, 'x) protocol_env \<Rightarrow> bool \<Rightarrow> (string \<times> message_protocol_config) list
     \<Rightarrow> (address \<Rightarrow> (ids_ID, ('k, 'x) world) handler_factory option)
     \<Rightarrow> (address \<Rightarrow> (ids_ID, ('k, 'x) world) handler_factory option) result" where
  "source_factories env deciderConnection [] m = Inr m"
| "source_factories env deciderConnection ((addressStr, cfg) # contracts) m =
     (let address = de_HexToAddress (pe_dest env) addressStr
      in case new_factory env deciderConnection address cfg of
           Inl e \<Rightarrow> Inl e
         | Inr f \<Rightarrow> source_factories env deciderConnection contracts (m(address \<mapsto> f)))"

fun handler_factories ::
  "('k, 'x) protocol_env \<Rightarrow> bool \<Rightarrow> source_blockchain list
     \<Rightarrow> (ids_ID \<Rightarrow> (address \<Rightarrow> (ids_ID, ('k, 'x) world) handler_factory option) option)
     \<Rightarrow> (ids_ID \<Rightarrow> (address \<Rightarrow> (ids_ID, ('k, 'x) world) handler_factory option) option) result" where
  "handler_factories env deciderConnection [] m = Inr m"
| "handler_factories env deciderConnection (src # srcs) m =
     (case source_factories env deciderConnection (sb_MessageContracts src) Map.empty of
        Inl e \<Rightarrow> Inl e
      | Inr fs \<Rightarrow> handler_factories env deciderConnection srcs (m(sb_blockchainID src \<mapsto> fs)))"

definition createMessageHandlerFactories ::
  "('k, 'x) protocol_env \<Rightarrow> relayer_config \<Rightarrow> bool
     \<Rightarrow> (ids_ID \<Rightarrow> (address \<Rightarrow> (ids_ID, ('k, 'x) world) handler_factory option) option) result" where
  "createMessageHandlerFactories env cfg deciderConnection =
     handler_factories env deciderConnection (cfg_SourceBlockchains cfg) Map.empty"

fun source_clients ::
  "url_env \<Rightarrow> source_blockchain list \<Rightarrow> (ids_ID \<Rightarrow> rpc_client option) \<Rightarrow> (ids_ID \<Rightarrow> rpc_client option) result" where
  "source_clients uenv [] clients = Inr clients"
| "source_clients uenv (src # srcs) clients =
     (case NewEthClientWithConfig uenv (BaseURL (sb_RPCEndpoint src)) (HTTPHeaders (sb_RPCEndpoint src)) (QueryParams (sb_RPCEndpoint src)) of
        Inl e \<Rightarrow> Inl e
      | Inr client \<Rightarrow> source_clients uenv srcs (clients(sb_blockchainID src \<mapsto> client)))"

definition createSourceClients :: "url_env \<Rightarrow> relayer_config \<Rightarrow> (ids_ID \<Rightarrow> rpc_client option) result" where
  "createSourceClients uenv cfg = source_clients uenv (cfg_SourceBlockchains cfg) Map.empty"

section \<open>The application relayers\<close>

text \<open>
  The parameters: the \<^verbatim>\<open>Get\<close> method of the database, dialling the Warp API, and the block number and
  the logs a source client reports. A destination client is known by its blockchain ID. The Go map of relayers
  is an association list without repeated keys.
\<close>

record start_env =
  se_cfg :: cfg_env
  se_rid :: rid_env
  se_Get :: "hash \<Rightarrow> data_key \<Rightarrow> string result"
  se_DialWarp :: "api_config \<Rightarrow> error option"
  se_BlockNumber :: "rpc_client \<Rightarrow> u64 result"
  se_FilterLogs :: "rpc_client \<Rightarrow> eth_client"

fun create_relayers ::
  "start_env \<Rightarrow> relayer_config \<Rightarrow> source_blockchain \<Rightarrow> u64 \<Rightarrow> relayer_id list \<Rightarrow> u64 \<Rightarrow> u64 \<Rightarrow> ticker
     \<Rightarrow> (hash \<times> ids_ID application_relayer) list \<Rightarrow> ((hash \<times> ids_ID application_relayer) list \<times> u64 \<times> ticker) result" where
  "create_relayers env cfg src currentHeight [] height minHeight t applicationRelayers = Inr (applicationRelayers, minHeight, t)"
| "create_relayers env cfg src currentHeight (rid # rids) height minHeight t applicationRelayers =
     (case (if cfg_ProcessMissedBlocks cfg
            then CalculateStartingBlockHeight (se_Get env) rid (sb_ProcessHistoricalBlocksFromHeight src) currentHeight
            else Inr height) of
        Inl e \<Rightarrow> Inl e
      | Inr height' \<Rightarrow>
          (let minHeight' = (if cfg_ProcessMissedBlocks cfg \<and> (minHeight = 0 \<or> height' < minHeight) then height' else minHeight);
               (signal, t') = Ticker_Subscribe t;
               checkpointManager = NewCheckpointManager rid height'
           in case NewApplicationRelayer (se_cfg env) (se_DialWarp env) rid (DestinationBlockchainID rid) src checkpointManager cfg of
                Inl e \<Rightarrow> Inl e
              | Inr applicationRelayer \<Rightarrow>
                  create_relayers env cfg src currentHeight rids height' minHeight' t'
                    (AList.update (rid_ID rid) applicationRelayer applicationRelayers)))"

definition createApplicationRelayersForSourceChain ::
  "start_env \<Rightarrow> ticker \<Rightarrow> source_blockchain \<Rightarrow> relayer_config \<Rightarrow> u64
     \<Rightarrow> ((hash \<times> ids_ID application_relayer) list \<times> u64 \<times> ticker) result" where
  "createApplicationRelayersForSourceChain env t src cfg currentHeight =
     (let height = (if \<not> cfg_ProcessMissedBlocks cfg then currentHeight + 1 else 0)
      in create_relayers env cfg src currentHeight (GetSourceBlockchainRelayerIDs (se_rid env) src) height height t [])"

text \<open>A missing source client is a nil interface, on which the call panics.\<close>

fun create_for_sources ::
  "start_env \<Rightarrow> relayer_config \<Rightarrow> (ids_ID \<Rightarrow> rpc_client option) \<Rightarrow> source_blockchain list \<Rightarrow> ticker
     \<Rightarrow> (hash \<times> ids_ID application_relayer) list \<Rightarrow> (ids_ID \<Rightarrow> u64 option)
     \<Rightarrow> ((hash \<times> ids_ID application_relayer) list \<times> (ids_ID \<Rightarrow> u64 option) \<times> ticker) result" where
  "create_for_sources env cfg sourceClients [] t applicationRelayers minHeights = Inr (applicationRelayers, minHeights, t)"
| "create_for_sources env cfg sourceClients (src # srcs) t applicationRelayers minHeights =
     (case sourceClients (sb_blockchainID src) of
        None \<Rightarrow> Inl nil_client
      | Some client \<Rightarrow>
          (case se_BlockNumber env client of
             Inl e \<Rightarrow> Inl e
           | Inr currentHeight \<Rightarrow>
               (case createApplicationRelayersForSourceChain env t src cfg currentHeight of
                  Inl e \<Rightarrow> Inl e
                | Inr (applicationRelayersForSource, minHeight, t') \<Rightarrow>
                    create_for_sources env cfg sourceClients srcs t'
                      (fold (\<lambda>(k, r). AList.update k r) applicationRelayersForSource applicationRelayers)
                      (minHeights(sb_blockchainID src \<mapsto> minHeight)))))"

definition createApplicationRelayers ::
  "start_env \<Rightarrow> ticker \<Rightarrow> relayer_config \<Rightarrow> (ids_ID \<Rightarrow> rpc_client option)
     \<Rightarrow> ((hash \<times> ids_ID application_relayer) list \<times> (ids_ID \<Rightarrow> u64 option) \<times> ticker) result" where
  "createApplicationRelayers env t cfg sourceClients =
     create_for_sources env cfg sourceClients (cfg_SourceBlockchains cfg) t [] Map.empty"

section \<open>Starting the relayer\<close>

text \<open>
  What \<^verbatim>\<open>main\<close> builds before it starts the listeners: from the configuration as
  unmarshalled up to the coordinator. Opening the database, whose \<^verbatim>\<open>Get\<close> method is what
  is used of it here, is the argument \<open>newDatabase\<close>, and creating the network is
  \<open>newNetwork\<close>, for which \<open>main_network\<close> stands. Logging and the message creator are
  left out; the metrics and the routes are the subject of \<^verbatim>\<open>Relayer_Metrics\<close>. Every
  error ends the process.
\<close>

record ('k, 'x, 'c, 'n) relayer_service =
  sv_cfg :: relayer_config
  sv_world :: "('k, 'x) world"
  sv_sourceClients :: "ids_ID \<Rightarrow> rpc_client option"
  sv_network :: 'n
  sv_ticker :: ticker
  sv_relayerHealth :: "(ids_ID \<times> bool) list"
  sv_aggregator :: "'c aggregator"
  sv_minHeights :: "ids_ID \<Rightarrow> u64 option"
  sv_coordinator :: "(ids_ID, ('k, 'x) world) message_coordinator"

text \<open>The second half, once the configuration, the clients, the network and the database are there.\<close>

definition main_relayers ::
  "start_env \<Rightarrow> ('k, 'x) protocol_env \<Rightarrow> (string \<Rightarrow> error option) \<Rightarrow> 'c lru_ops \<Rightarrow> int option \<Rightarrow> u32 \<Rightarrow> relayer_config
     \<Rightarrow> ('k, 'x) world \<Rightarrow> (ids_ID \<Rightarrow> rpc_client option) \<Rightarrow> 'n \<Rightarrow> ('k, 'x, 'c, 'n) relayer_service result" where
  "main_relayers env penv grpcNewClient lru etna random cfg w sourceClients n =
     (let t = NewTicker (cfg_DBWriteIntervalSeconds cfg); relayerHealth = createHealthTrackers cfg
      in case createDeciderConnection grpcNewClient (cfg_DeciderURL cfg) of
           Inl e \<Rightarrow> Inl e
         | Inr deciderConnection \<Rightarrow>
             (case createMessageHandlerFactories penv cfg deciderConnection of
                Inl e \<Rightarrow> Inl e
              | Inr messageHandlerFactories \<Rightarrow>
                  (case NewSignatureAggregator lru (cfg_SignatureCacheSize cfg) etna random of
                     Inl e \<Rightarrow> Inl e
                   | Inr signatureAggregator \<Rightarrow>
                       (case createApplicationRelayers env t cfg sourceClients of
                          Inl e \<Rightarrow> Inl e
                        | Inr (applicationRelayers, minHeights, t') \<Rightarrow>
                            Inr \<lparr>sv_cfg = cfg, sv_world = w, sv_sourceClients = sourceClients, sv_network = n, sv_ticker = t',
                              sv_relayerHealth = relayerHealth, sv_aggregator = signatureAggregator, sv_minHeights = minHeights,
                              sv_coordinator = NewMessageCoordinator messageHandlerFactories applicationRelayers
                                (\<lambda>b. map_option (se_FilterLogs env) (sourceClients b))\<rparr>))))"

definition main_initialize ::
  "start_env \<Rightarrow> ('k, 'x) protocol_env \<Rightarrow> (string \<Rightarrow> error option) \<Rightarrow> 'c lru_ops \<Rightarrow> int option \<Rightarrow> u32 \<Rightarrow> ('pk, 'n) app_network
     \<Rightarrow> (relayer_config \<Rightarrow> (hash \<Rightarrow> data_key \<Rightarrow> string result) result) \<Rightarrow> (string \<Rightarrow> string) \<Rightarrow> string \<Rightarrow> relayer_config result
     \<Rightarrow> 'x \<Rightarrow> (relayer_config \<Rightarrow> 'n result) \<Rightarrow> ('k, 'x, 'c, 'n) relayer_service result" where
  "main_initialize env penv grpcNewClient lru etna random nw newDatabase getenv accountPrivateKey unmarshalled x newNetwork =
     (case NewConfig (se_cfg env) getenv accountPrivateKey unmarshalled of
        Inl e \<Rightarrow> Inl (err_wrap ''couldn't build config'' e)
      | Inr cfg0 \<Rightarrow>
          (case InitializeWarpQuorums (se_cfg env) cfg0 of
             Inl e \<Rightarrow> Inl (err_wrap ''couldn't initialize warp quorums'' e)
           | Inr cfg \<Rightarrow>
               (case CreateDestinationClients (pe_dest penv) cfg x of
                  Inl e \<Rightarrow> Inl e
                | Inr destinationClients \<Rightarrow>
                    (case createSourceClients (de_url (pe_dest penv)) cfg of
                       Inl e \<Rightarrow> Inl e
                     | Inr sourceClients \<Rightarrow>
                         (case newNetwork cfg of
                            Inl e \<Rightarrow> Inl e
                          | Inr n \<Rightarrow>
                              (case InitializeConnectionsAndCheckStake (se_cfg env) nw cfg n of
                                 (Some e, n') \<Rightarrow> Inl e
                               | (None, n') \<Rightarrow>
                                   (case newDatabase cfg of
                                      Inl e \<Rightarrow> Inl e
                                    | Inr get \<Rightarrow>
                                        main_relayers (env\<lparr>se_Get := get\<rparr>) penv grpcNewClient lru etna random cfg
                                          \<lparr>w_clients = destinationClients, w_chain = x\<rparr> sourceClients n')))))))"

section \<open>What is created\<close>

lemma NewApplicationRelayer_fields:
  assumes "NewApplicationRelayer cenv dial rid dc src cm cfg = Inr r"
  shows "ar_relayerID r = rid \<and> ar_destinationClient r = dc \<and> ar_sourceBlockchain r = src \<and> ar_checkpointManager r = cm \<and>
    GetWarpQuorum cenv cfg (DestinationBlockchainID rid) = Inr (ar_warpQuorum r)"
  using assms by (auto simp: NewApplicationRelayer_def Let_def split: sum.splits if_splits option.splits)

text \<open>An entry that belongs to a source: the key is the ID of one of its routes.\<close>

definition entry_of :: "start_env \<Rightarrow> relayer_config \<Rightarrow> source_blockchain \<Rightarrow> hash \<times> ids_ID application_relayer \<Rightarrow> bool" where
  "entry_of env cfg src kr \<longleftrightarrow> (case kr of (k, r) \<Rightarrow>
     rid_ID (ar_relayerID r) = k \<and> ar_sourceBlockchain r = src \<and> ar_relayerID r \<in> set (GetSourceBlockchainRelayerIDs (se_rid env) src) \<and>
     ar_destinationClient r = DestinationBlockchainID (ar_relayerID r) \<and>
     (\<exists>q. GetWarpQuorum (se_cfg env) cfg (DestinationBlockchainID (ar_relayerID r)) = Inr q))"

text \<open>The height from which a relayer of the source starts.\<close>

definition starting_height :: "start_env \<Rightarrow> relayer_config \<Rightarrow> source_blockchain \<Rightarrow> u64 \<Rightarrow> relayer_id \<Rightarrow> u64 result" where
  "starting_height env cfg src currentHeight rid =
     (if cfg_ProcessMissedBlocks cfg
      then CalculateStartingBlockHeight (se_Get env) rid (sb_ProcessHistoricalBlocksFromHeight src) currentHeight
      else Inr (currentHeight + 1))"

lemma set_update_sub: "set (AList.update k v xs) \<subseteq> insert (k, v) (set xs)"
  by (induction xs) auto

lemma fst_set_update: "fst ` set (AList.update k v xs) = insert k (fst ` set xs)"
  using dom_update [of k v xs] by (simp add: dom_map_of_conv_image_fst)

lemma create_relayers_spec:
  assumes "create_relayers env cfg src cur rids height m t rs = Inr (rs', m', t')"
    and "distinct (map fst rs)" and "\<forall>kr \<in> set rs. entry_of env cfg src kr"
    and "set rids \<subseteq> set (GetSourceBlockchainRelayerIDs (se_rid env) src)"
  shows "distinct (map fst rs') \<and> (\<forall>kr \<in> set rs'. entry_of env cfg src kr) \<and> fst ` set rs' = fst ` set rs \<union> rid_ID ` set rids"
  using assms
proof (induction rids arbitrary: height m t rs)
  case (Cons rid rids)
  obtain h where h: "(if cfg_ProcessMissedBlocks cfg
      then CalculateStartingBlockHeight (se_Get env) rid (sb_ProcessHistoricalBlocksFromHeight src) cur else Inr height) = Inr h"
    using Cons.prems(1) by (auto split: sum.splits if_splits)
  obtain signal t1 where t1: "Ticker_Subscribe t = (signal, t1)" by force
  obtain r where r: "NewApplicationRelayer (se_cfg env) (se_DialWarp env) rid (DestinationBlockchainID rid) src (NewCheckpointManager rid h) cfg = Inr r"
    using Cons.prems(1) h t1 by (auto simp: Let_def split: sum.splits)
  let ?rs = "AList.update (rid_ID rid) r rs"
  have e: "entry_of env cfg src (rid_ID rid, r)"
    using NewApplicationRelayer_fields [OF r] Cons.prems(4) by (auto simp: entry_of_def)
  obtain m1 where "create_relayers env cfg src cur rids h m1 t1 ?rs = Inr (rs', m', t')"
    using Cons.prems(1) h t1 r by (auto simp: Let_def)
  moreover have "\<forall>kr \<in> set ?rs. entry_of env cfg src kr" using e Cons.prems(3) set_update_sub [of "rid_ID rid" r rs] by blast
  moreover have "set rids \<subseteq> set (GetSourceBlockchainRelayerIDs (se_rid env) src)" using Cons.prems(4) by simp
  ultimately have "distinct (map fst rs') \<and> (\<forall>kr \<in> set rs'. entry_of env cfg src kr) \<and> fst ` set rs' = fst ` set ?rs \<union> rid_ID ` set rids"
    using Cons.IH distinct_update [OF Cons.prems(2)] by metis
  then show ?case by (simp add: fst_set_update)
qed auto

lemma fold_update_spec:
  assumes "distinct (map fst rs)"
  shows "distinct (map fst (fold (\<lambda>(k, r). AList.update k r) xs rs)) \<and>
    set (fold (\<lambda>(k, r). AList.update k r) xs rs) \<subseteq> set rs \<union> set xs \<and>
    fst ` set (fold (\<lambda>(k, r). AList.update k r) xs rs) = fst ` set rs \<union> fst ` set xs"
  using assms
proof (induction xs arbitrary: rs)
  case (Cons x xs)
  obtain k r where x: "x = (k, r)" by force
  from Cons.IH [OF distinct_update [OF Cons.prems, of k r]] set_update_sub [of k r rs]
  show ?case by (auto simp: x fst_set_update)
qed simp

lemma create_for_sources_spec:
  assumes "create_for_sources env cfg clients srcs t rs mh = Inr (rs', mh', t')"
    and "distinct (map fst rs)" and "\<forall>kr \<in> set rs. \<exists>src \<in> S. entry_of env cfg src kr"
  shows "distinct (map fst rs') \<and> (\<forall>kr \<in> set rs'. \<exists>src \<in> S \<union> set srcs. entry_of env cfg src kr) \<and>
    fst ` set rs' = fst ` set rs \<union> (\<Union>src \<in> set srcs. rid_ID ` set (GetSourceBlockchainRelayerIDs (se_rid env) src))"
  using assms
proof (induction srcs arbitrary: t rs mh S)
  case (Cons src srcs)
  obtain client cur where c: "clients (sb_blockchainID src) = Some client" "se_BlockNumber env client = Inr cur"
    using Cons.prems(1) by (auto split: option.splits sum.splits)
  obtain xs m1 t1 where x: "createApplicationRelayersForSourceChain env t src cfg cur = Inr (xs, m1, t1)"
    using Cons.prems(1) c by (cases "createApplicationRelayersForSourceChain env t src cfg cur") auto
  let ?rs = "fold (\<lambda>(k, r). AList.update k r) xs rs"
  have run: "create_for_sources env cfg clients srcs t1 ?rs (mh(sb_blockchainID src \<mapsto> m1)) = Inr (rs', mh', t')"
    using Cons.prems(1) c x by simp
  have xs: "\<forall>kr \<in> set xs. entry_of env cfg src kr" "fst ` set xs = rid_ID ` set (GetSourceBlockchainRelayerIDs (se_rid env) src)"
    using create_relayers_spec [OF x [unfolded createApplicationRelayersForSourceChain_def Let_def]] by auto
  note f = fold_update_spec [OF Cons.prems(2), of xs]
  have "\<forall>kr \<in> set ?rs. \<exists>s \<in> insert src S. entry_of env cfg s kr"
    using f xs(1) Cons.prems(3) by blast
  from Cons.IH [OF run _ this] f xs(2) show ?case by auto
qed auto

lemma created_entries:
  assumes "createApplicationRelayers env t cfg clients = Inr (rs, mh, t')"
  shows "registered (se_rid env) cfg rs \<and>
    (\<forall>kr \<in> set rs. \<exists>src \<in> set (cfg_SourceBlockchains cfg). entry_of env cfg src kr)"
proof -
  have prems: "distinct []" "\<forall>kr \<in> {}. \<exists>src \<in> {}. entry_of env cfg src kr" by simp_all
  note spec = create_for_sources_spec [OF assms [unfolded createApplicationRelayers_def], where S = "{}",
      unfolded list.set list.map image_empty Un_empty_left, OF prems]
  note s = spec [THEN conjunct1] spec [THEN conjunct2, THEN conjunct1] spec [THEN conjunct2, THEN conjunct2]
  have "rid_ID rid \<in> fst ` set rs" if rid: "rid \<in> set (GetConfigRelayerIDs (se_rid env) cfg)" for rid
  proof -
    obtain src where "src \<in> set (cfg_SourceBlockchains cfg)" "rid \<in> set (GetSourceBlockchainRelayerIDs (se_rid env) src)"
      using rid [unfolded config_ids_iff] by (rule bexE)
    then show ?thesis unfolding s(3) by (intro UN_I imageI)
  qed
  moreover have "rid_ID (ar_relayerID r) = k \<and> ar_sourceBlockchain r \<in> set (cfg_SourceBlockchains cfg) \<and>
      ar_relayerID r \<in> set (GetSourceBlockchainRelayerIDs (se_rid env) (ar_sourceBlockchain r))" if kr: "(k, r) \<in> set rs" for k r
  proof -
    obtain src where "src \<in> set (cfg_SourceBlockchains cfg)" "entry_of env cfg src (k, r)" using bspec [OF s(2) kr] by (rule bexE)
    then show ?thesis by (simp add: entry_of_def)
  qed
  ultimately have "registered (se_rid env) cfg rs" unfolding registered_def using s(1) by (intro conjI ballI) auto
  with s(2) show ?thesis by (rule conjI [rotated])
qed

section \<open>Where listening starts\<close>

lemma create_relayers_heights:
  assumes "create_relayers env cfg src cur rids height m t rs = Inr (rs', m', t')" and "cfg_ProcessMissedBlocks cfg"
    and "\<forall>rid \<in> set rids. starting_height env cfg src cur rid \<noteq> Inr 0"
  shows "(\<forall>rid \<in> set rids. \<exists>h. starting_height env cfg src cur rid = Inr h \<and> m' \<le> h) \<and> (m = 0 \<or> m' \<le> m) \<and>
    (m' = m \<or> (\<exists>rid \<in> set rids. starting_height env cfg src cur rid = Inr m')) \<and> (m' = 0 \<longrightarrow> m = 0 \<and> rids = [])"
  using assms
proof (induction rids arbitrary: height m t rs)
  case (Cons rid rids)
  obtain h where h: "CalculateStartingBlockHeight (se_Get env) rid (sb_ProcessHistoricalBlocksFromHeight src) cur = Inr h"
    using Cons.prems(1,2) by (auto split: sum.splits)
  have sh: "starting_height env cfg src cur rid = Inr h" using h Cons.prems(2) by (simp add: starting_height_def)
  then have "h \<noteq> 0" using Cons.prems(3) by auto
  obtain signal t1 where t1: "Ticker_Subscribe t = (signal, t1)" by force
  let ?m = "if m = 0 \<or> h < m then h else m"
  obtain r where "create_relayers env cfg src cur rids h ?m t1 (AList.update (rid_ID rid) r rs) = Inr (rs', m', t')"
    using Cons.prems(1,2) h t1 by (auto simp: Let_def split: sum.splits)
  from Cons.IH [OF this Cons.prems(2)] Cons.prems(3) sh \<open>h \<noteq> 0\<close>
  show ?case by (auto split: if_splits)
qed auto

lemma create_relayers_fixed:
  assumes "create_relayers env cfg src cur rids height m t rs = Inr (rs', m', t')" and "\<not> cfg_ProcessMissedBlocks cfg"
  shows "m' = m"
  using assms by (induction rids arbitrary: height m t rs) (auto simp: Let_def split: sum.splits prod.splits)

lemma created_heights:
  assumes "create_relayers env cfg src cur rids height m t rs = Inr (rs', m', t')"
    and "\<not> cfg_ProcessMissedBlocks cfg \<longrightarrow> height = cur + 1"
    and "\<forall>kr \<in> set rs. starting_height env cfg src cur (ar_relayerID (snd kr)) = Inr (committedHeight (ar_checkpointManager (snd kr)))"
  shows "\<forall>kr \<in> set rs'. starting_height env cfg src cur (ar_relayerID (snd kr)) = Inr (committedHeight (ar_checkpointManager (snd kr)))"
  using assms
proof (induction rids arbitrary: height m t rs)
  case (Cons rid rids)
  obtain h where h: "(if cfg_ProcessMissedBlocks cfg
      then CalculateStartingBlockHeight (se_Get env) rid (sb_ProcessHistoricalBlocksFromHeight src) cur else Inr height) = Inr h"
    using Cons.prems(1) by (auto split: sum.splits if_splits)
  have sh: "starting_height env cfg src cur rid = Inr h" "\<not> cfg_ProcessMissedBlocks cfg \<longrightarrow> h = cur + 1"
    using h Cons.prems(2) by (auto simp: starting_height_def split: if_splits)
  obtain signal t1 where t1: "Ticker_Subscribe t = (signal, t1)" by force
  obtain r where r: "NewApplicationRelayer (se_cfg env) (se_DialWarp env) rid (DestinationBlockchainID rid) src (NewCheckpointManager rid h) cfg = Inr r"
    using Cons.prems(1) h t1 by (auto simp: Let_def split: sum.splits)
  obtain m1 where run: "create_relayers env cfg src cur rids h m1 t1 (AList.update (rid_ID rid) r rs) = Inr (rs', m', t')"
    using Cons.prems(1) h t1 r by (auto simp: Let_def)
  have "\<forall>kr \<in> set (AList.update (rid_ID rid) r rs). starting_height env cfg src cur (ar_relayerID (snd kr)) =
      Inr (committedHeight (ar_checkpointManager (snd kr)))"
    using set_update_sub [of "rid_ID rid" r rs] NewApplicationRelayer_fields [OF r] sh(1) Cons.prems(3)
    by (auto simp: NewCheckpointManager_def)
  from Cons.IH [OF run sh(2) this] show ?case .
qed auto

section \<open>What starting establishes\<close>

lemma find_quorum_member: "find_quorum b ds = Inr q \<Longrightarrow> \<exists>d \<in> set ds. db_BlockchainID d = b \<and> db_warpQuorum d = q"
  by (induction ds) (auto split: if_splits)

lemma source_clients_dom:
  "source_clients uenv srcs clients = Inr clients' \<Longrightarrow> dom clients' = dom clients \<union> sb_blockchainID ` set srcs"
proof (induction srcs arbitrary: clients)
  case (Cons src srcs)
  from Cons.prems obtain c where "source_clients uenv srcs (clients(sb_blockchainID src \<mapsto> c)) = Inr clients'"
    by (auto split: sum.splits)
  from Cons.IH [OF this] show ?case by auto
qed simp

lemma map_of_health:
  "map_of (fold (\<lambda>src. AList.update (sb_blockchainID src) True) srcs xs) b =
     (if b \<in> sb_blockchainID ` set srcs then Some True else map_of xs b)"
  by (induction srcs arbitrary: xs) (auto simp: update_conv')

lemma create_for_sources_heights:
  "create_for_sources env cfg clients srcs t rs mh = Inr (rs', mh', t') \<Longrightarrow> dom mh' = dom mh \<union> sb_blockchainID ` set srcs"
proof (induction srcs arbitrary: t rs mh)
  case (Cons src srcs)
  from Cons.prems obtain t1 rs1 m where "create_for_sources env cfg clients srcs t1 rs1 (mh(sb_blockchainID src \<mapsto> m)) = Inr (rs', mh', t')"
    by (auto split: option.splits sum.splits)
  from Cons.IH [OF this] show ?case by auto
qed simp

lemma main_initialize_steps:
  assumes "main_initialize env penv grpcNewClient lru etna random nw newDatabase getenv key unmarshalled x newNetwork = Inr svc"
  shows "\<exists>cfg0 cfg clients sourceClients get n n' decider factories agg rs mh t'. NewConfig (se_cfg env) getenv key unmarshalled = Inr cfg0 \<and>
    InitializeWarpQuorums (se_cfg env) cfg0 = Inr cfg \<and> CreateDestinationClients (pe_dest penv) cfg x = Inr clients \<and>
    createSourceClients (de_url (pe_dest penv)) cfg = Inr sourceClients \<and> newNetwork cfg = Inr n \<and>
    InitializeConnectionsAndCheckStake (se_cfg env) nw cfg n = (None, n') \<and> newDatabase cfg = Inr get \<and>
    createDeciderConnection grpcNewClient (cfg_DeciderURL cfg) = Inr decider \<and>
    createMessageHandlerFactories penv cfg decider = Inr factories \<and>
    NewSignatureAggregator lru (cfg_SignatureCacheSize cfg) etna random = Inr agg \<and>
    createApplicationRelayers (env\<lparr>se_Get := get\<rparr>) (NewTicker (cfg_DBWriteIntervalSeconds cfg)) cfg sourceClients = Inr (rs, mh, t') \<and>
    svc = \<lparr>sv_cfg = cfg, sv_world = \<lparr>w_clients = clients, w_chain = x\<rparr>, sv_sourceClients = sourceClients, sv_network = n', sv_ticker = t',
      sv_relayerHealth = createHealthTrackers cfg, sv_aggregator = agg, sv_minHeights = mh,
      sv_coordinator = NewMessageCoordinator factories rs (\<lambda>b. map_option (se_FilterLogs env) (sourceClients b))\<rparr>"
  using assms unfolding main_initialize_def main_relayers_def Let_def
  by (auto split: sum.splits prod.splits option.splits)

lemma InitializeWarpQuorums_sources:
  "InitializeWarpQuorums cenv c = Inr c' \<Longrightarrow> cfg_SourceBlockchains c' = cfg_SourceBlockchains c"
  by (auto simp: InitializeWarpQuorums_def split: sum.splits)

text \<open>A created relayer has its destination client: its quorum was found under the cb58 text of its destination.\<close>

lemma relayer_has_client:
  assumes "ids_env_ok (ce_ids (se_cfg env))" and "de_ids denv = ce_ids (se_cfg env)"
    and "CreateDestinationClients denv cfg x = Inr clients" and "entry_of env cfg src (k, r)"
  shows "\<exists>c. clients (ar_destinationClient r) = Some c \<and> dc_destinationBlockchainID c = DestinationBlockchainID (ar_relayerID r)"
proof -
  let ?b = "DestinationBlockchainID (ar_relayerID r)"
  obtain q where "find_quorum (ids_String (ce_ids (se_cfg env)) ?b) (cfg_DestinationBlockchains cfg) = Inr q"
      and dc: "ar_destinationClient r = ?b"
    using assms(4) by (auto simp: entry_of_def GetWarpQuorum_def)
  from find_quorum_member [OF this(1)] obtain d where d: "d \<in> set (cfg_DestinationBlockchains cfg)"
      "db_BlockchainID d = ids_String (ce_ids (se_cfg env)) ?b" by blast
  have "ids_FromString (de_ids denv) (db_BlockchainID d) = Inr ?b"
    using assms(1,2) d(2) by (simp add: ids_env_ok_def)
  then have "?b \<in> {b. \<exists>d \<in> set (cfg_DestinationBlockchains cfg). ids_FromString (de_ids denv) (db_BlockchainID d) = Inr b}"
    using d(1) by blast
  moreover have spec: "dom clients = {b. \<exists>d \<in> set (cfg_DestinationBlockchains cfg). ids_FromString (de_ids denv) (db_BlockchainID d) = Inr b}"
      "\<forall>b c. clients b = Some c \<longrightarrow> dc_destinationBlockchainID c = b"
    using create_clients_spec [OF assms(3) [unfolded CreateDestinationClients_def]] by simp_all
  ultimately obtain c where "clients ?b = Some c" by (metis domD)
  with dc spec(2) show ?thesis by simp
qed

lemma started_wf:
  assumes "ids_env_ok (ce_ids (se_cfg env))" and "de_ids (pe_dest penv) = ce_ids (se_cfg env)"
    and "main_initialize env penv grpcNewClient lru etna random nw newDatabase getenv key unmarshalled x newNetwork = Inr svc"
  shows "registered (se_rid env) (sv_cfg svc) (mc_applicationRelayers (sv_coordinator svc)) \<and>
    (\<forall>(k, r) \<in> set (mc_applicationRelayers (sv_coordinator svc)).
       \<exists>c. w_clients (sv_world svc) (ar_destinationClient r) = Some c \<and> dc_destinationBlockchainID c = DestinationBlockchainID (ar_relayerID r)) \<and>
    (\<forall>src \<in> set (cfg_SourceBlockchains (sv_cfg svc)). sv_sourceClients svc (sb_blockchainID src) \<noteq> None \<and>
       sv_minHeights svc (sb_blockchainID src) \<noteq> None \<and> map_of (sv_relayerHealth svc) (sb_blockchainID src) = Some True \<and>
       mc_sourceClients (sv_coordinator svc) (sb_blockchainID src) \<noteq> None)"
proof -
  obtain cfg clients sourceClients get factories rs mh t' where
    c: "CreateDestinationClients (pe_dest penv) cfg x = Inr clients"
      "createSourceClients (de_url (pe_dest penv)) cfg = Inr sourceClients"
      "createApplicationRelayers (env\<lparr>se_Get := get\<rparr>) (NewTicker (cfg_DBWriteIntervalSeconds cfg)) cfg sourceClients = Inr (rs, mh, t')"
    and svc: "sv_cfg svc = cfg" "sv_world svc = \<lparr>w_clients = clients, w_chain = x\<rparr>" "sv_sourceClients svc = sourceClients"
      "sv_minHeights svc = mh" "sv_relayerHealth svc = createHealthTrackers cfg"
      "sv_coordinator svc = NewMessageCoordinator factories rs (\<lambda>b. map_option (se_FilterLogs env) (sourceClients b))"
    using main_initialize_steps [OF assms(3)] by (elim exE conjE) simp
  note e = created_entries [OF c(3)]
  have mc: "mc_applicationRelayers (sv_coordinator svc) = rs"
      "mc_sourceClients (sv_coordinator svc) = (\<lambda>b. map_option (se_FilterLogs env) (sourceClients b))"
    by (simp_all add: svc(6) NewMessageCoordinator_def)
  have "\<exists>c. clients (ar_destinationClient r) = Some c \<and> dc_destinationBlockchainID c = DestinationBlockchainID (ar_relayerID r)"
    if "(k, r) \<in> set rs" for k r
    using that e assms(1,2) relayer_has_client [OF _ _ c(1), of "env\<lparr>se_Get := get\<rparr>"] by fastforce
  moreover have "dom sourceClients = sb_blockchainID ` set (cfg_SourceBlockchains cfg)"
    using source_clients_dom [OF c(2) [unfolded createSourceClients_def]] by simp
  moreover have "dom mh = sb_blockchainID ` set (cfg_SourceBlockchains cfg)"
    using create_for_sources_heights [OF c(3) [unfolded createApplicationRelayers_def]] by simp
  ultimately show ?thesis
    using e unfolding mc svc(1-5) createHealthTrackers_def map_of_health by auto
qed

text \<open>
  The relayer starts with a network and an aggregator as its message processing relies on: the
  network keeps its invariant from \<^verbatim>\<open>NewNetwork\<close> through the initial connections, and the cache is empty.
\<close>

lemma started_network:
  assumes "net_lib_ok Vs lib" and "lru_ok lru" and "lru_fresh lru"
    and "main_initialize env penv grpcNewClient lru etna random network_ops newDatabase getenv key unmarshalled x (main_network lib prom registerer) = Inr svc"
  shows "network_single Vs (sv_network svc) \<and> cache_verified aenv Ms Vs (sa_cache (sv_aggregator svc))"
proof -
  obtain cfg n where n: "main_network lib prom registerer cfg = Inr n"
      "InitializeConnectionsAndCheckStake (se_cfg env) network_ops cfg n = (None, sv_network svc)"
    and agg: "NewSignatureAggregator lru (cfg_SignatureCacheSize cfg) etna random = Inr (sv_aggregator svc)"
    using main_initialize_steps [OF assms(4)] by (elim exE conjE) simp
  have "network_single Vs (sv_network svc)"
    using srn.connect_sources_invar [OF main_network_single [OF assms(1) n(1)]] n(2)
    by (metis InitializeConnectionsAndCheckStake_def snd_conv)
  with NewSignatureAggregator_verified [OF assms(2,3) agg] show ?thesis by blast
qed

section \<open>A concrete start\<close>

definition sample_start_env :: start_env where
  "sample_start_env = \<lparr>se_cfg = sample_cfg_env, se_rid = sample_rid_env, se_Get = \<lambda>_ _. Inl ErrKeyNotFound, se_DialWarp = \<lambda>_. None,
     se_BlockNumber = \<lambda>_. Inr 30, se_FilterLogs = \<lambda>_ _ _. Inr [\<lparr>log_Topics = [17, 4, 99], log_Data = [7]\<rparr>]\<rparr>"

definition sample_start ::
  "(string, u64, ids_ID \<Rightarrow> signature_map option, (nat, unit) network) relayer_service result" where
  "sample_start = main_initialize sample_start_env (sample_protocol_env False) (\<lambda>_. None) sample_lru None 0 network_ops
     (\<lambda>_. Inr (\<lambda>_ _. Inr ''20'')) (\<lambda>_. []) [] (Inr (sample_config ''C7'')) 7 (\<lambda>_. Inr (rs_network sample_relay_state))"

definition sample_main_cfg :: relayer_config where
  "sample_main_cfg = (case InitializeWarpQuorums sample_cfg_env sample_cfg of Inr c \<Rightarrow> c)"

lemma sample_started:
  "\<exists>svc. sample_start = Inr svc \<and> length (mc_applicationRelayers (sv_coordinator svc)) = 1 \<and> sv_minHeights svc 5 = Some 20"
proof -
  have run: "case sample_start of Inl _ \<Rightarrow> False | Inr svc \<Rightarrow>
      length (mc_applicationRelayers (sv_coordinator svc)) = 1 \<and> sv_minHeights svc 5 = Some 20"
    by code_simp
  show ?thesis
  proof (cases sample_start)
    case (Inl e)
    show ?thesis using run by (subst (asm) Inl) simp
  next
    case (Inr svc)
    have "length (mc_applicationRelayers (sv_coordinator svc)) = 1 \<and> sv_minHeights svc 5 = Some 20"
      using run by (subst (asm) Inr) simp
    with Inr show ?thesis by blast
  qed
qed

section \<open>Properties\<close>

text \<open>
  C37: When the relayer starts, its parts fit together: the coordinator has the relayers that the
  configuration asks for, each under its ID; each relayer's destination client exists and is one
  of its destination; and each source chain has its client, a starting height and a tracker that
  says healthy. So no message meets a missing client.
\<close>

theorem startup_well_formed:
  assumes "ids_env_ok (ce_ids (se_cfg env))" and "de_ids (pe_dest penv) = ce_ids (se_cfg env)"
    and "main_initialize env penv grpcNewClient lru etna random nw newDatabase getenv key unmarshalled x newNetwork = Inr svc"
  shows "registered (se_rid env) (sv_cfg svc) (mc_applicationRelayers (sv_coordinator svc)) \<and>
    (\<forall>(k, r) \<in> set (mc_applicationRelayers (sv_coordinator svc)).
       \<exists>c. w_clients (sv_world svc) (ar_destinationClient r) = Some c \<and> dc_destinationBlockchainID c = DestinationBlockchainID (ar_relayerID r)) \<and>
    (\<forall>src \<in> set (cfg_SourceBlockchains (sv_cfg svc)). sv_sourceClients svc (sb_blockchainID src) \<noteq> None \<and>
       sv_minHeights svc (sb_blockchainID src) \<noteq> None \<and> map_of (sv_relayerHealth svc) (sb_blockchainID src) = Some True \<and>
       mc_sourceClients (sv_coordinator svc) (sb_blockchainID src) \<noteq> None)"
  by (rule started_wf [OF assms])

theorem startup_well_formed_witness:
  "\<exists>svc k r c. sample_start = Inr svc \<and> mc_applicationRelayers (sv_coordinator svc) = [(k, r)] \<and>
     w_clients (sv_world svc) (ar_destinationClient r) = Some c"
proof -
  obtain svc where svc: "sample_start = Inr svc" "length (mc_applicationRelayers (sv_coordinator svc)) = 1"
    using sample_started by blast
  obtain k r where kr: "mc_applicationRelayers (sv_coordinator svc) = [(k, r)]"
    using svc(2) by (cases "mc_applicationRelayers (sv_coordinator svc)") auto
  have "ids_env_ok (ce_ids (se_cfg sample_start_env))"
      "de_ids (pe_dest (sample_protocol_env False)) = ce_ids (se_cfg sample_start_env)"
    by (simp_all add: sample_start_env_def sample_cfg_env_def sample_ids_env_ok sample_protocol_env_def sample_dest_env_def)
  note wf = startup_well_formed [OF this svc(1) [unfolded sample_start_def]]
  have "(k, r) \<in> set (mc_applicationRelayers (sv_coordinator svc))" by (simp add: kr)
  from bspec [OF wf [THEN conjunct2, THEN conjunct1] this]
  obtain c where "w_clients (sv_world svc) (ar_destinationClient r) = Some c" by auto
  with svc(1) kr show ?thesis by blast
qed



end
