(* ===== verification/Relayer_Service.thy ===== *)
theory Relayer_Service
  imports Relayer_Main
begin

text \<open>
  The last part of \<^verbatim>\<open>main\<close> of \<^verbatim>\<open>relayer/main/main.go\<close>: the error
  group that runs one listener per source chain until they have all returned. The goroutines interleave freely,
  which is a step relation over the state of the group, the shared health trackers and the context. The theory
  shows what the health check reports about listeners that have returned, that the relayer never ends without an
  error, and that the first error brings every listener to its end.
\<close>

section \<open>The group of listeners\<close>

text \<open>
  A goroutine of the group: not yet scheduled, in the loop of \<^verbatim>\<open>processLogs\<close>, or returned, either
  because the listener could not be created or from the loop.
\<close>

datatype goroutine = Pending | Running listener | Refused error | Exited "error option"

text \<open>
  The state of the group: the goroutine of each source chain, the health trackers, which the
  health check reads, and of the \<^verbatim>\<open>errgroup\<close> the error it keeps and whether its context is done.
\<close>

record service_run =
  r_listeners :: "(source_blockchain \<times> goroutine) list"
  r_health :: "(ids_ID \<times> bool) list"
  r_err :: "error option"
  r_cancelled :: bool

definition main_listeners :: "('k, 'x, 'c, 'n) relayer_service \<Rightarrow> service_run" where
  "main_listeners svc =
     \<lparr>r_listeners = map (\<lambda>s. (s, Pending)) (cfg_SourceBlockchains (sv_cfg svc)), r_health = sv_relayerHealth svc,
      r_err = None, r_cancelled = False\<rparr>"

text \<open>
  The function given to \<^verbatim>\<open>errGroup.Go\<close> up to the loop: its arguments are looked up in the maps. A
  missing height is 0; a missing client or tracker is nil, on which the goroutines of the listener
  panic.
\<close>

definition start_listener ::
  "url_env \<Rightarrow> ids_env \<Rightarrow> ('k, 'x, 'c, 'n) relayer_service \<Rightarrow> (nat \<Rightarrow> nat result) \<Rightarrow> u32 \<Rightarrow> source_blockchain \<Rightarrow> (ids_ID \<times> bool) list
     \<Rightarrow> (listener \<times> int) result go_outcome" where
  "start_listener uenv ienv svc newHead requestID sourceBlockchain relayerHealth =
     (let blockchainID = sb_blockchainID sourceBlockchain
      in case (sv_sourceClients svc blockchainID, map_of relayerHealth blockchainID) of
           (Some client, Some healthy) \<Rightarrow>
             (case newListener uenv ienv newHead requestID sourceBlockchain client healthy
                     (case sv_minHeights svc blockchainID of None \<Rightarrow> 0 | Some height \<Rightarrow> height) of
                Done (Inl e) \<Rightarrow> Done (Inl (Wrap ''failed to create listener instance'' e))
              | res \<Rightarrow> res)
         | _ \<Rightarrow> Panicked)"

text \<open>What the group does with the result of a goroutine: the first error is kept and ends the context.\<close>

definition eg_return :: "error option \<Rightarrow> service_run \<Rightarrow> service_run" where
  "eg_return res g =
     (case res of
        None \<Rightarrow> g
      | Some e \<Rightarrow> if r_err g = None then g\<lparr>r_err := Some e, r_cancelled := True\<rparr> else g)"

fun returned :: "goroutine \<Rightarrow> bool" where
  "returned (Refused e) = True"
| "returned (Exited res) = True"
| "returned _ = False"

text \<open>\<^verbatim>\<open>Wait\<close> returns the kept error when all goroutines have returned.\<close>

definition eg_wait :: "service_run \<Rightarrow> error option option" where
  "eg_wait g = (if list_all (returned \<circ> snd) (r_listeners g) then Some (r_err g) else None)"

section \<open>Interleavings\<close>

text \<open>
  A goroutine starts, with the answers to its attempts to subscribe and its random request ID, or
  its loop receives an event. The loop reads and writes the tracker of its chain; the end of the
  context can be received only once it is cancelled.
\<close>

datatype service_action = Start nat "nat \<Rightarrow> nat result" u32 | Receive nat listener_event

inductive service_step ::
  "url_env \<Rightarrow> ids_env \<Rightarrow> ('k, 'x, 'c, 'n) relayer_service \<Rightarrow> service_run \<Rightarrow> service_action \<Rightarrow> service_run \<Rightarrow> bool"
  for uenv ienv svc where
  created: "service_step uenv ienv svc g (Start i newHead requestID) (g\<lparr>r_listeners := (r_listeners g)[i := (src, Running l)]\<rparr>)"
    if "i < length (r_listeners g)" "r_listeners g ! i = (src, Pending)"
      "start_listener uenv ienv svc newHead requestID src (r_health g) = Done (Inr (l, height))"
| refused: "service_step uenv ienv svc g (Start i newHead requestID)
      (eg_return (Some e) (g\<lparr>r_listeners := (r_listeners g)[i := (src, Refused e)]\<rparr>))"
    if "i < length (r_listeners g)" "r_listeners g ! i = (src, Pending)"
      "start_listener uenv ienv svc newHead requestID src (r_health g) = Done (Inl e)"
| continued: "service_step uenv ienv svc g (Receive i ev)
      (g\<lparr>r_listeners := (r_listeners g)[i := (src, Running l')],
         r_health := AList.update (sb_blockchainID src) (l_healthStatus l') (r_health g)\<rparr>)"
    if "i < length (r_listeners g)" "r_listeners g ! i = (src, Running l)" "ev = CtxDone \<Longrightarrow> r_cancelled g"
      "map_of (r_health g) (sb_blockchainID src) = Some healthy"
      "listener_step ev (l\<lparr>l_healthStatus := healthy\<rparr>) = Continue l'"
| exited: "service_step uenv ienv svc g (Receive i ev)
      (eg_return res (g\<lparr>r_listeners := (r_listeners g)[i := (src, Exited res)],
         r_health := AList.update (sb_blockchainID src) (l_healthStatus l') (r_health g)\<rparr>))"
    if "i < length (r_listeners g)" "r_listeners g ! i = (src, Running l)" "ev = CtxDone \<Longrightarrow> r_cancelled g"
      "map_of (r_health g) (sb_blockchainID src) = Some healthy"
      "listener_step ev (l\<lparr>l_healthStatus := healthy\<rparr>) = Exit res l'"

inductive_cases Receive_stepE: "service_step uenv ienv svc g (Receive i ev) g'"

inductive service_steps ::
  "url_env \<Rightarrow> ids_env \<Rightarrow> ('k, 'x, 'c, 'n) relayer_service \<Rightarrow> service_run \<Rightarrow> service_action list \<Rightarrow> service_run \<Rightarrow> bool"
  for uenv ienv svc where
  Nil: "service_steps uenv ienv svc g [] g"
| Cons: "service_steps uenv ienv svc g (act # acts) g''"
    if "service_step uenv ienv svc g act g'" "service_steps uenv ienv svc g' acts g''"

inductive_simps service_steps_Nil [simp]: "service_steps uenv ienv svc g [] g'"
inductive_simps service_steps_Cons: "service_steps uenv ienv svc g (act # acts) g'"

section \<open>Invariants of the group\<close>

lemma CtxDone_cancelled: "service_step uenv ienv svc g (Receive i CtxDone) g' \<Longrightarrow> r_cancelled g"
  by (elim Receive_stepE) simp_all

lemma eg_return_simps [simp]:
  "r_listeners (eg_return res g) = r_listeners g" "r_health (eg_return res g) = r_health g"
  by (simp_all add: eg_return_def split: option.split)

text \<open>The step changes one goroutine; the results and errors of the others stay.\<close>

definition group_ok :: "service_run \<Rightarrow> bool" where
  "group_ok g \<longleftrightarrow> r_cancelled g = (r_err g \<noteq> None) \<and>
     (\<forall>e. r_err g = Some e \<longrightarrow> (\<exists>src. (src, Refused e) \<in> set (r_listeners g) \<or> (src, Exited (Some e)) \<in> set (r_listeners g))) \<and>
     (\<forall>src gr. (src, gr) \<in> set (r_listeners g) \<longrightarrow> returned gr \<longrightarrow> r_err g \<noteq> None)"

text \<open>The listener of a source that has returned has left its chain marked as unhealthy.\<close>

definition health_ok :: "service_run \<Rightarrow> bool" where
  "health_ok g \<longleftrightarrow> distinct (map (sb_blockchainID \<circ> fst) (r_listeners g)) \<and>
     (\<forall>src gr. (src, gr) \<in> set (r_listeners g) \<longrightarrow> map_of (r_health g) (sb_blockchainID src) \<noteq> None) \<and>
     (\<forall>src res. (src, Exited res) \<in> set (r_listeners g) \<longrightarrow> map_of (r_health g) (sb_blockchainID src) = Some False)"

lemma set_update_keeps: "x \<in> set xs \<Longrightarrow> x \<noteq> xs ! i \<Longrightarrow> x \<in> set (xs[i := y])"
  by (induction xs arbitrary: i) (auto split: nat.split)

lemma map_fst_update: "xs ! i = (k, v) \<Longrightarrow> map (f \<circ> fst) (xs[i := (k, v')]) = map (f \<circ> fst) xs"
  by (cases "i < length xs") (simp_all add: map_update list_update_same_conv list_update_beyond)

lemma map_fst_distinct_eq:
  assumes "distinct (map (f \<circ> fst) xs)" and "(k, v) \<in> set xs" and "i < length xs" and "xs ! i = (k', v')" and "f k = f k'"
  shows "(k, v) = (k', v')"
proof -
  obtain j where j: "j < length xs" "xs ! j = (k, v)" using assms(2) by (auto simp: in_set_conv_nth)
  then have "map (f \<circ> fst) xs ! j = map (f \<circ> fst) xs ! i" using assms(3-5) by simp
  then have "j = i" using assms(1,3) j(1) by (metis distinct_conv_nth length_map)
  with j(2) assms(4) show ?thesis by simp
qed

text \<open>The loop returns no error only when its context is done.\<close>

lemma Exit_None: "listener_step ev l = Exit None l' \<Longrightarrow> ev = CtxDone"
  by (cases ev) (auto simp: Let_def split: if_splits option.splits)

lemma Exit_unhealthy: "listener_step ev l = Exit res l' \<Longrightarrow> \<not> l_healthStatus l'"
  using listener_step_cases [where ev = ev and l = l] by simp

lemma group_ok_return:
  assumes "group_ok g" and "i < length (r_listeners g)" and "r_listeners g ! i = (src, gr)" and "\<not> returned gr"
    and "returned gr'" and "res = None \<Longrightarrow> r_err g \<noteq> None" and "\<And>e. res = Some e \<Longrightarrow> gr' \<in> {Refused e, Exited (Some e)}"
    and "r_listeners g' = (r_listeners g)[i := (src, gr')]" and "r_err g' = r_err g" and "r_cancelled g' = r_cancelled g"
  shows "group_ok (eg_return res g')"
proof -
  have mem: "(src, gr') \<in> set (r_listeners g')" using assms(2,8) by (simp add: set_update_memI)
  have keep: "x \<in> set (r_listeners g')" if "x \<in> set (r_listeners g)" "returned (snd x)" for x
    using that assms(3,4,8) by (auto intro!: set_update_keeps)
  have old: "\<exists>s. (s, Refused e) \<in> set (r_listeners g') \<or> (s, Exited (Some e)) \<in> set (r_listeners g')" if "r_err g = Some e" for e
    using assms(1) that keep unfolding group_ok_def by (metis returned.simps(1,2) snd_conv)
  show ?thesis
  proof (cases "r_err g")
    case None
    then obtain e where "res = Some e" using assms(6) by (cases res) auto
    with assms(7) [of e] mem None assms(9) show ?thesis by (auto simp: group_ok_def eg_return_def)
  next
    case (Some e)
    then have "r_cancelled g" using assms(1) by (simp add: group_ok_def)
    with Some old [of e] assms(9,10) show ?thesis by (auto simp: group_ok_def eg_return_def split: option.split)
  qed
qed

lemma group_ok_continue:
  assumes "group_ok g" and "i < length (r_listeners g)" and "r_listeners g ! i = (src, gr)" and "\<not> returned gr" and "\<not> returned gr'"
    and "r_listeners g' = (r_listeners g)[i := (src, gr')]" and "r_err g' = r_err g" and "r_cancelled g' = r_cancelled g"
  shows "group_ok g'"
proof -
  have "x \<in> set (r_listeners g')" if "x \<in> set (r_listeners g)" "returned (snd x)" for x
    using that assms(3,4,6) by (auto intro!: set_update_keeps)
  moreover have "x \<in> set (r_listeners g)" if "x \<in> set (r_listeners g')" "returned (snd x)" for x
    using that assms(5,6) set_update_subset_insert [of "r_listeners g" i "(src, gr')"] by auto
  ultimately show ?thesis using assms(1,7,8) unfolding group_ok_def by (metis returned.simps(1,2) snd_conv)
qed

lemma group_ok_step: "service_step uenv ienv svc g act g' \<Longrightarrow> group_ok g \<Longrightarrow> group_ok g'"
proof (induction rule: service_step.induct)
  case (created i g src newHead requestID l height)
  then show ?case by - (rule group_ok_continue [of g i src Pending "Running l"], auto)
next
  case (refused i g src newHead requestID e)
  then show ?case by - (rule group_ok_return [of g i src Pending "Refused e"], auto)
next
  case (continued i g src l ev healthy l')
  then show ?case by - (rule group_ok_continue [of g i src "Running l" "Running l'"], auto)
next
  case (exited i g src l ev healthy res l')
  have "r_err g \<noteq> None" if "res = None"
    using exited that Exit_None by (auto simp: group_ok_def)
  with exited show ?case by - (rule group_ok_return [of g i src "Running l" "Exited res"], auto)
qed

lemma health_ok_update:
  assumes "health_ok g" and "i < length (r_listeners g)" and "r_listeners g ! i = (src, gr)" and "\<not> returned gr"
    and "r_listeners g' = (r_listeners g)[i := (src, gr')]" and "map_of (r_health g') (sb_blockchainID src) \<noteq> None"
    and "\<And>b. b \<noteq> sb_blockchainID src \<Longrightarrow> map_of (r_health g') b = map_of (r_health g) b"
    and "\<And>res. gr' = Exited res \<Longrightarrow> map_of (r_health g') (sb_blockchainID src) = Some False"
  shows "health_ok g'"
proof -
  have d: "distinct (map (sb_blockchainID \<circ> fst) (r_listeners g))" using assms(1) by (simp add: health_ok_def)
  have mem: "(s, x) = (src, gr') \<or> (s, x) \<in> set (r_listeners g)" if "(s, x) \<in> set (r_listeners g')" for s x
    using that assms(5) set_update_subset_insert [of "r_listeners g" i "(src, gr')"] by auto
  have "map_of (r_health g') (sb_blockchainID s) = Some False" if "(s, Exited res) \<in> set (r_listeners g')" for s res
  proof (cases "(s, Exited res) = (src, gr')")
    case False
    then have old: "(s, Exited res) \<in> set (r_listeners g)" using mem that by auto
    then have "sb_blockchainID s \<noteq> sb_blockchainID src"
      using map_fst_distinct_eq [OF d old assms(2,3)] assms(4) by auto
    with old assms(1,7) show ?thesis unfolding health_ok_def by metis
  qed (use assms(8) in auto)
  moreover have "map_of (r_health g') (sb_blockchainID s) \<noteq> None" if "(s, x) \<in> set (r_listeners g')" for s x
    using mem [OF that] assms(1,6,7) by (cases "sb_blockchainID s = sb_blockchainID src") (auto simp: health_ok_def)
  moreover have "map (sb_blockchainID \<circ> fst) (r_listeners g') = map (sb_blockchainID \<circ> fst) (r_listeners g)"
    using assms(3,5) by (simp add: map_fst_update)
  ultimately show ?thesis using d unfolding health_ok_def by metis
qed

lemma health_ok_step: "service_step uenv ienv svc g act g' \<Longrightarrow> health_ok g \<Longrightarrow> health_ok g'"
proof (induction rule: service_step.induct)
  case (created i g src newHead requestID l height)
  then have "(src, Pending) \<in> set (r_listeners g)" by (metis nth_mem)
  with created show ?case by - (rule health_ok_update [of g i src Pending _ "Running l"], auto simp: health_ok_def)
next
  case (refused i g src newHead requestID e)
  then have "(src, Pending) \<in> set (r_listeners g)" by (metis nth_mem)
  with refused show ?case by - (rule health_ok_update [of g i src Pending _ "Refused e"], auto simp: health_ok_def)
next
  case (continued i g src l ev healthy l')
  then show ?case by - (rule health_ok_update [of g i src "Running l" _ "Running l'"], auto simp: update_conv')
next
  case (exited i g src l ev healthy res l')
  then show ?case using Exit_unhealthy [OF exited(5)]
    by - (rule health_ok_update [of g i src "Running l" _ "Exited res"], auto simp: update_conv')
qed

lemma steps_invariant:
  assumes "service_steps uenv ienv svc g acts g'" and "P g"
    and "\<And>g act g'. service_step uenv ienv svc g act g' \<Longrightarrow> P g \<Longrightarrow> P g'"
  shows "P g'"
  using assms(1,2) by (induction rule: service_steps.induct) (auto dest: assms(3))

lemma health_ok_steps: "service_steps uenv ienv svc g acts g' \<Longrightarrow> health_ok g \<Longrightarrow> health_ok g'"
  using steps_invariant [where P = health_ok] health_ok_step by blast

lemma steps_append:
  "service_steps uenv ienv svc g acts g' \<Longrightarrow> service_steps uenv ienv svc g' acts' g'' \<Longrightarrow> service_steps uenv ienv svc g (acts @ acts') g''"
  by (induction rule: service_steps.induct) (auto intro: service_steps.Cons)

lemma group_ok_main: "group_ok (main_listeners svc)"
  by (auto simp: group_ok_def main_listeners_def)

section \<open>What a start provides\<close>

lemma validated_source:
  assumes "SourceBlockchain_Validate env names s = Inr s'"
  shows "ParseVM (sb_VM s') = EVM \<and> HexOrCB58ToID (ce_ids env) (sb_BlockchainID s') = Inr (sb_blockchainID s')"
proof -
  have "ParseVM (sb_VM s) = EVM" if "validate_contracts env s = None"
    using that by (auto simp: validate_contracts_def split: vm.splits)
  then show ?thesis using assms unfolding SourceBlockchain_Validate_def Let_def
    by (auto split: sum.splits option.splits)
qed

lemma validated_sources_evm:
  "validate_sources env names ss seen m = Inr (ss', m') \<Longrightarrow> length ss' = length ss \<and>
     (\<forall>s \<in> set ss'. ParseVM (sb_VM s) = EVM \<and> HexOrCB58ToID (ce_ids env) (sb_BlockchainID s) = Inr (sb_blockchainID s))"
  by (induction ss arbitrary: seen m ss') (auto split: sum.splits if_splits dest!: validated_source)

lemma Config_Validate_sources:
  assumes "Config_Validate env c = Inr c'"
  shows "cfg_SourceBlockchains c' \<noteq> [] \<and>
    (\<forall>s \<in> set (cfg_SourceBlockchains c'). ParseVM (sb_VM s) = EVM \<and> HexOrCB58ToID (ce_ids env) (sb_BlockchainID s) = Inr (sb_blockchainID s))"
proof -
  obtain names m where ss: "validate_sources env names (cfg_SourceBlockchains c) [] m =
      Inr (cfg_SourceBlockchains c', cfg_blockchainIDToSubnetID c')" and "cfg_SourceBlockchains c \<noteq> []"
    using assms unfolding Config_Validate_def Let_def by (auto split: sum.splits option.splits if_splits)
  then show ?thesis using validated_sources_evm [OF ss] by auto
qed

text \<open>What the goroutines rely on: an EVM chain with a client and a tracker for each.\<close>

definition sources_ready :: "('k, 'x, 'c, 'n) relayer_service \<Rightarrow> bool" where
  "sources_ready svc \<longleftrightarrow> cfg_SourceBlockchains (sv_cfg svc) \<noteq> [] \<and>
     (\<forall>src \<in> set (cfg_SourceBlockchains (sv_cfg svc)). ParseVM (sb_VM src) = EVM \<and>
        sv_sourceClients svc (sb_blockchainID src) \<noteq> None \<and> map_of (sv_relayerHealth svc) (sb_blockchainID src) = Some True)"

lemma started_sources_ready:
  assumes "ids_env_ok (ce_ids (se_cfg env))" and "de_ids (pe_dest penv) = ce_ids (se_cfg env)"
    and "main_initialize env penv grpcNewClient lru etna random nw newDatabase getenv key unmarshalled x newNetwork = Inr svc"
  shows "sources_ready svc \<and> (\<forall>src \<in> set (cfg_SourceBlockchains (sv_cfg svc)).
    HexOrCB58ToID (ce_ids (se_cfg env)) (sb_BlockchainID src) = Inr (sb_blockchainID src))"
proof -
  obtain cfg0 where "NewConfig (se_cfg env) getenv key unmarshalled = Inr cfg0" "InitializeWarpQuorums (se_cfg env) cfg0 = Inr (sv_cfg svc)"
    using main_initialize_steps [OF assms(3)] by (elim exE conjE) simp
  then obtain c where "Config_Validate (se_cfg env) c = Inr cfg0" "cfg_SourceBlockchains (sv_cfg svc) = cfg_SourceBlockchains cfg0"
    using InitializeWarpQuorums_sources by (auto simp: NewConfig_def split: sum.splits)
  with Config_Validate_sources started_wf [OF assms] show ?thesis unfolding sources_ready_def by auto
qed

lemma start_listener_ends:
  assumes "ParseVM (sb_VM src) = EVM" and "sv_sourceClients svc (sb_blockchainID src) \<noteq> None"
    and "map_of health (sb_blockchainID src) \<noteq> None"
  shows "\<exists>res. start_listener uenv ienv svc newHead requestID src health = Done res"
proof -
  have "maxSubscribeAttempts \<noteq> 0" by (simp add: maxSubscribeAttempts_def)
  from Subscribe_ends [OF this] have "\<exists>res s'. Subscribe newHead maxSubscribeAttempts s = Some (res, s')" for s by blast
  then have "newListener uenv ienv newHead requestID src client healthy h \<noteq> Blocked"
      "newListener uenv ienv newHead requestID src client healthy h \<noteq> Panicked" for client healthy h
    unfolding newListener_def NewSubscriber_def assms(1) by (auto split: sum.split option.split prod.split) (metis option.distinct(1))+
  then show ?thesis using assms(2,3)
    by (auto simp: start_listener_def Let_def split: go_outcome.split sum.split)
qed

text \<open>The sources stay, and so do their trackers.\<close>

definition run_ok :: "('k, 'x, 'c, 'n) relayer_service \<Rightarrow> service_run \<Rightarrow> bool" where
  "run_ok svc g \<longleftrightarrow> group_ok g \<and> map fst (r_listeners g) = cfg_SourceBlockchains (sv_cfg svc) \<and>
     (\<forall>src \<in> set (cfg_SourceBlockchains (sv_cfg svc)). map_of (r_health g) (sb_blockchainID src) \<noteq> None)"

lemma run_ok_step: "service_step uenv ienv svc g act g' \<Longrightarrow> run_ok svc g \<Longrightarrow> run_ok svc g'"
proof -
  assume step: "service_step uenv ienv svc g act g'" and ok: "run_ok svc g"
  have "map fst (r_listeners g') = map fst (r_listeners g) \<and> (\<forall>b. map_of (r_health g) b \<noteq> None \<longrightarrow> map_of (r_health g') b \<noteq> None)"
    using step map_fst_update [where f = id, simplified]
    by (induction rule: service_step.induct) (auto simp: update_conv')
  with ok group_ok_step [OF step] show ?thesis by (simp add: run_ok_def)
qed

lemma run_ok_main: "sources_ready svc \<Longrightarrow> run_ok svc (main_listeners svc)"
  using group_ok_main [of svc] by (auto simp: run_ok_def sources_ready_def main_listeners_def comp_def)

lemma run_ok_steps: "service_steps uenv ienv svc g acts g' \<Longrightarrow> run_ok svc g \<Longrightarrow> run_ok svc g'"
  using steps_invariant [where P = "run_ok svc"] run_ok_step by blast

section \<open>The end of the group\<close>

text \<open>The actions that bring the group to its end: goroutines start, and loops see that the context is done.\<close>

fun stops :: "service_action \<Rightarrow> bool" where
  "stops (Start i newHead requestID) = True"
| "stops (Receive i ev) = (ev = CtxDone)"

lemma eg_return_err: "r_err g \<noteq> None \<Longrightarrow> eg_return res g = g"
  by (auto simp: eg_return_def split: option.split)

lemma run_ok_nth:
  assumes "run_ok svc g" and "i < length (r_listeners g)"
  shows "fst (r_listeners g ! i) \<in> set (cfg_SourceBlockchains (sv_cfg svc))"
  using assms nth_mem [of i "r_listeners g"] unfolding run_ok_def by (metis image_eqI list.set_map)

lemma stop_running:
  assumes "run_ok svc g" and "r_err g \<noteq> None" and "i < length (r_listeners g)" and "r_listeners g ! i = (src, Running l)"
  shows "\<exists>g'. service_step uenv ienv svc g (Receive i CtxDone) g' \<and> r_listeners g' = (r_listeners g)[i := (src, Exited None)] \<and> r_err g' = r_err g"
proof -
  have "src \<in> set (cfg_SourceBlockchains (sv_cfg svc))" using run_ok_nth [OF assms(1,3)] assms(4) by simp
  then obtain healthy where h: "map_of (r_health g) (sb_blockchainID src) = Some healthy" using assms(1) by (auto simp: run_ok_def)
  have "r_cancelled g" using assms(1,2) by (simp add: run_ok_def group_ok_def)
  from exited [OF assms(3,4) this h, where ev = CtxDone and res = None and uenv = uenv and ienv = ienv and svc = svc,
      OF listener_step.simps(5)]
  show ?thesis by (intro exI conjI, assumption) (simp_all add: eg_return_def)
qed

lemma stop_pending:
  assumes "sources_ready svc" and "run_ok svc g" and "r_err g \<noteq> None" and "i < length (r_listeners g)" and "r_listeners g ! i = (src, Pending)"
  shows "\<exists>acts g' gr. service_steps uenv ienv svc g acts g' \<and> length acts \<le> 2 \<and> list_all stops acts \<and>
    r_listeners g' = (r_listeners g)[i := (src, gr)] \<and> returned gr \<and> r_err g' = r_err g"
proof -
  let ?start = "Start i (\<lambda>_. Inl nil_client) 0"
  have src: "src \<in> set (cfg_SourceBlockchains (sv_cfg svc))" using run_ok_nth [OF assms(2,4)] assms(5) by simp
  have "ParseVM (sb_VM src) = EVM" "sv_sourceClients svc (sb_blockchainID src) \<noteq> None" "map_of (r_health g) (sb_blockchainID src) \<noteq> None"
    using assms(1,2) src by (auto simp: sources_ready_def run_ok_def)
  from start_listener_ends [OF this]
  obtain res where res: "start_listener uenv ienv svc (\<lambda>_. Inl nil_client) 0 src (r_health g) = Done res" by blast
  show ?thesis
  proof (cases res)
    case (Inl e)
    let ?g = "g\<lparr>r_listeners := (r_listeners g)[i := (src, Refused e)]\<rparr>"
    have "service_steps uenv ienv svc g [?start] ?g"
      using refused [OF assms(4,5) res [unfolded Inl]] assms(3) by (simp add: service_steps_Cons eg_return_err)
    then show ?thesis by (intro exI [of _ "[?start]"] exI [of _ ?g] exI [of _ "Refused e"]) simp
  next
    case (Inr lh)
    then obtain l height where lh: "res = Inr (l, height)" by (cases lh) simp
    let ?g = "g\<lparr>r_listeners := (r_listeners g)[i := (src, Running l)]\<rparr>"
    have step: "service_step uenv ienv svc g ?start ?g" by (rule created [OF assms(4,5) res [unfolded lh]])
    have "r_err ?g \<noteq> None" "i < length (r_listeners ?g)" "r_listeners ?g ! i = (src, Running l)" using assms(3,4) by simp_all
    from stop_running [OF run_ok_step [OF step assms(2)] this]
    obtain g' where "service_step uenv ienv svc ?g (Receive i CtxDone) g'" "r_listeners g' = (r_listeners g)[i := (src, Exited None)]"
        "r_err g' = r_err g" by auto
    with step show ?thesis
      by (intro exI [of _ "[?start, Receive i CtxDone]"] exI [of _ g'] exI [of _ "Exited None"]) (auto simp: service_steps_Cons)
  qed
qed

lemma stop_goroutine:
  assumes "sources_ready svc" and "run_ok svc g" and "r_err g \<noteq> None" and "i < length (r_listeners g)"
  shows "\<exists>acts g' src gr. service_steps uenv ienv svc g acts g' \<and> length acts \<le> 2 \<and> list_all stops acts \<and>
    r_listeners g' = (r_listeners g)[i := (src, gr)] \<and> returned gr \<and> r_err g' = r_err g"
proof -
  obtain src gr where i: "r_listeners g ! i = (src, gr)" by (cases "r_listeners g ! i")
  have "r_listeners g = (r_listeners g)[i := (src, gr)]" using i list_update_id [of "r_listeners g" i] by simp
  then have ret: ?thesis if "returned gr"
    using that by (intro exI [of _ "[]"] exI [of _ g] exI [of _ src] exI [of _ gr]) simp
  show ?thesis
  proof (cases gr)
    case Pending
    with stop_pending [OF assms] i show ?thesis by blast
  next
    case (Running l)
    from stop_running [OF assms(2-4) i [unfolded Running]]
    obtain g' where "service_step uenv ienv svc g (Receive i CtxDone) g'" "r_listeners g' = (r_listeners g)[i := (src, Exited None)]"
        "r_err g' = r_err g" by blast
    then show ?thesis
      by (intro exI [of _ "[Receive i CtxDone]"] exI [of _ g'] exI [of _ src] exI [of _ "Exited None"]) (simp add: service_steps_Cons)
  qed (use ret in simp_all)
qed

lemma stop_first:
  assumes "sources_ready svc" and "run_ok svc g" and "r_err g \<noteq> None" and "k \<le> length (r_listeners g)"
  shows "\<exists>acts g'. service_steps uenv ienv svc g acts g' \<and> length acts \<le> 2 * k \<and> list_all stops acts \<and> run_ok svc g' \<and>
    length (r_listeners g') = length (r_listeners g) \<and> r_err g' = r_err g \<and> (\<forall>i < k. returned (snd (r_listeners g' ! i)))"
  using assms(4)
proof (induction k)
  case 0
  show ?case using assms(2) by (intro exI [of _ "[]"] exI [of _ g]) simp
next
  case (Suc k)
  then obtain acts g1 where g1: "service_steps uenv ienv svc g acts g1" "length acts \<le> 2 * k" "list_all stops acts" "run_ok svc g1"
      "length (r_listeners g1) = length (r_listeners g)" "r_err g1 = r_err g" "\<forall>i < k. returned (snd (r_listeners g1 ! i))" by auto
  then have "r_err g1 \<noteq> None" "k < length (r_listeners g1)" using assms(3) Suc.prems by auto
  from stop_goroutine [OF assms(1) g1(4) this]
  obtain acts' g' src gr where g': "service_steps uenv ienv svc g1 acts' g'" "length acts' \<le> 2" "list_all stops acts'"
      "r_listeners g' = (r_listeners g1)[k := (src, gr)]" "returned gr" "r_err g' = r_err g1" by blast
  have "run_ok svc g'" by (rule run_ok_steps [OF g'(1) g1(4)])
  moreover have "\<forall>i < Suc k. returned (snd (r_listeners g' ! i))"
    using g1(7) g'(4,5) \<open>k < length (r_listeners g1)\<close> by (auto simp: less_Suc_eq nth_list_update)
  ultimately show ?case using g' g1 steps_append [OF g1(1) g'(1)]
    by (intro exI [of _ "acts @ acts'"] exI [of _ g']) simp
qed

section \<open>Sources whose listener cannot be created\<close>

text \<open>A listener is created when the ID parses as cb58, the node can be dialled and one of ten attempts to subscribe is answered.\<close>

lemma start_listener_succeeds:
  assumes "ParseVM (sb_VM src) = EVM" and "sv_sourceClients svc (sb_blockchainID src) \<noteq> None"
    and "map_of health (sb_blockchainID src) \<noteq> None" and "ids_FromString ienv (sb_BlockchainID src) = Inr b"
    and "NewEthClientWithConfig uenv (BaseURL (sb_WSEndpoint src)) (HTTPHeaders (sb_WSEndpoint src)) (QueryParams (sb_WSEndpoint src)) = Inr ws"
    and "i \<in> {1..10}" and "newHead i = Inr sub"
  shows "\<exists>l height. start_listener uenv ienv svc newHead requestID src health = Done (Inr (l, height)) \<and> l_catchUpResultChan l"
proof -
  have m: "maxSubscribeAttempts \<noteq> 0" "unat maxSubscribeAttempts = 10" by (simp_all add: maxSubscribeAttempts_def)
  have "\<exists>s'. Subscribe newHead maxSubscribeAttempts s = Some (None, s')" for s
    using Subscribe_ends [OF m(1), of newHead s] assms(6,7) unfolding m(2) by blast
  then obtain s' where "\<And>s. Subscribe newHead maxSubscribeAttempts s = Some (None, s' s)" by metis
  then show ?thesis using assms(1-5) by (auto simp: start_listener_def newListener_def NewSubscriber_def)
qed

definition never_listened :: "source_blockchain \<Rightarrow> service_run \<Rightarrow> bool" where
  "never_listened src g \<longleftrightarrow> distinct (map (sb_blockchainID \<circ> fst) (r_listeners g)) \<and> map_of (r_health g) (sb_blockchainID src) = Some True \<and>
     (\<forall>gr. (src, gr) \<in> set (r_listeners g) \<longrightarrow> gr = Pending \<or> (\<exists>e. gr = Refused e))"

lemma start_listener_cb58:
  assumes "ids_FromString ienv (sb_BlockchainID src) = Inl e0"
  shows "start_listener uenv ienv svc newHead requestID src health \<noteq> Done (Inr lh)"
  using assms by (auto simp: start_listener_def newListener_def Let_def split: option.split)

lemma never_listened_update:
  assumes "never_listened src g" and "i < length (r_listeners g)" and "r_listeners g ! i = (src', gr)"
    and "src \<in> fst ` set (r_listeners g)" and "r_listeners g' = (r_listeners g)[i := (src', gr')]"
    and "src' = src \<Longrightarrow> (\<exists>e. gr' = Refused e) \<and> r_health g' = r_health g"
    and "\<And>b. b \<noteq> sb_blockchainID src' \<Longrightarrow> map_of (r_health g') b = map_of (r_health g) b"
  shows "never_listened src g'"
proof -
  have d: "distinct (map (sb_blockchainID \<circ> fst) (r_listeners g))" using assms(1) by (simp add: never_listened_def)
  obtain x where x: "(src, x) \<in> set (r_listeners g)" using assms(4) by auto
  have "src' = src" if "sb_blockchainID src' = sb_blockchainID src"
    using map_fst_distinct_eq [OF d x assms(2,3)] that by simp
  with assms(1,6,7) have "map_of (r_health g') (sb_blockchainID src) = Some True" by (metis never_listened_def)
  moreover have "y = Pending \<or> (\<exists>e. y = Refused e)" if "(src, y) \<in> set (r_listeners g')" for y
    using that assms(1,5,6) set_update_subset_insert [of "r_listeners g" i "(src', gr')"] by (auto simp: never_listened_def)
  moreover have "map (sb_blockchainID \<circ> fst) (r_listeners g') = map (sb_blockchainID \<circ> fst) (r_listeners g)"
    using assms(3,5) by (simp add: map_fst_update)
  ultimately show ?thesis using d unfolding never_listened_def by metis
qed

lemma never_listened_step:
  assumes "service_step uenv ienv svc g act g'" and "never_listened src g" and "ids_FromString ienv (sb_BlockchainID src) = Inl e0"
    and "src \<in> fst ` set (r_listeners g)"
  shows "never_listened src g'"
  using assms(1)
proof (cases rule: service_step.cases)
  case (created i src' newHead requestID l height)
  moreover have "src' \<noteq> src" using created(5) start_listener_cb58 [OF assms(3)] by metis
  ultimately show ?thesis using assms(2,4) by - (rule never_listened_update [of src g i src' Pending _ "Running l"], auto)
next
  case (refused i src' newHead requestID e)
  with assms(2,4) show ?thesis by - (rule never_listened_update [of src g i src' Pending _ "Refused e"], auto)
next
  case (continued i src' l ev healthy l')
  moreover have "src' \<noteq> src" using continued(3,4) assms(2) nth_mem [of i "r_listeners g"] by (auto simp: never_listened_def)
  ultimately show ?thesis using assms(2,4)
    by - (rule never_listened_update [of src g i src' "Running l" _ "Running l'"], auto simp: update_conv')
next
  case (exited i src' l ev healthy res l')
  moreover have "src' \<noteq> src" using exited(3,4) assms(2) nth_mem [of i "r_listeners g"] by (auto simp: never_listened_def)
  ultimately show ?thesis using assms(2,4)
    by - (rule never_listened_update [of src g i src' "Running l" _ "Exited res"], auto simp: update_conv')
qed

section \<open>A concrete group\<close>

text \<open>Two source chains, the second one configured by a hexadecimal ID.\<close>

definition sample_group_config :: relayer_config where
  "sample_group_config = (sample_config ''C7'')\<lparr>cfg_SourceBlockchains :=
     [sample_source, sample_source\<lparr>sb_BlockchainID := ''0x'' @ hex_EncodeToString (replicate 31 0 @ [9])\<rparr>]\<rparr>"

definition sample_group ::
  "(string, u64, ids_ID \<Rightarrow> signature_map option, (nat, unit) network) relayer_service result" where
  "sample_group = main_initialize sample_start_env (sample_protocol_env False) (\<lambda>_. None) sample_lru None 0 network_ops
     (\<lambda>_. Inr (\<lambda>_ _. Inr ''20'')) (\<lambda>_. []) [] (Inr sample_group_config) 7 (\<lambda>_. Inr (rs_network sample_relay_state))"

lemma sample_group_started:
  "\<exists>svc s1 s2. sample_group = Inr svc \<and> cfg_SourceBlockchains (sv_cfg svc) = [s1, s2] \<and> sb_blockchainID s1 = 5 \<and> sb_BlockchainID s1 = ''C5'' \<and>
     (\<exists>ws. NewEthClientWithConfig (de_url sample_dest_env) (BaseURL (sb_WSEndpoint s1)) (HTTPHeaders (sb_WSEndpoint s1))
        (QueryParams (sb_WSEndpoint s1)) = Inr ws) \<and> sb_blockchainID s2 = 9 \<and> HasPrefix (sb_BlockchainID s2) ''0x''"
proof -
  let ?ok = "\<lambda>svc. case cfg_SourceBlockchains (sv_cfg svc) of
      [s1, s2] \<Rightarrow> sb_blockchainID s1 = 5 \<and> sb_BlockchainID s1 = ''C5'' \<and>
        (case NewEthClientWithConfig (de_url sample_dest_env) (BaseURL (sb_WSEndpoint s1)) (HTTPHeaders (sb_WSEndpoint s1))
           (QueryParams (sb_WSEndpoint s1)) of Inl _ \<Rightarrow> False | Inr _ \<Rightarrow> True) \<and>
        sb_blockchainID s2 = 9 \<and> HasPrefix (sb_BlockchainID s2) ''0x''
    | _ \<Rightarrow> False"
  have run: "case sample_group of Inl _ \<Rightarrow> False | Inr svc \<Rightarrow> ?ok svc" by code_simp
  show ?thesis
  proof (cases sample_group)
    case (Inl e)
    show ?thesis using run by (subst (asm) Inl) simp
  next
    case (Inr svc)
    have "?ok svc" using run by (subst (asm) Inr) simp
    with Inr show ?thesis by (auto split: list.splits sum.splits)
  qed
qed

lemma sample_env_ok:
  "ids_env_ok (ce_ids (se_cfg sample_start_env))" "de_ids (pe_dest (sample_protocol_env False)) = ce_ids (se_cfg sample_start_env)"
  "ce_ids (se_cfg sample_start_env) = sample_ids_env"
  by (simp_all add: sample_start_env_def sample_cfg_env_def sample_ids_env_ok sample_protocol_env_def sample_dest_env_def)

lemma sample_cb58: "\<forall>s. HasPrefix s ''0x'' \<longrightarrow> (\<exists>e. ids_FromString sample_ids_env s = Inl e)"
proof (intro allI impI)
  fix s assume "HasPrefix s ''0x''"
  then obtain cs where "s = CHR ''0'' # CHR ''x'' # cs"
    by (auto simp: HasPrefix_def take_Suc split: list.splits elim: prefixE) (metis append_take_drop_id append_Cons append_Nil)
  then show "\<exists>e. ids_FromString sample_ids_env s = Inl e" by (simp add: sample_ids_env_def char_digit_def)
qed

text \<open>The listener of the first chain starts and fails to catch up; the second one has not started yet.\<close>

lemma sample_group_run:
  "\<exists>svc s1 s2 g. sample_group = Inr svc \<and> cfg_SourceBlockchains (sv_cfg svc) = [s1, s2] \<and> sb_blockchainID s1 = 5 \<and> sb_blockchainID s2 = 9 \<and>
     HasPrefix (sb_BlockchainID s2) ''0x'' \<and>
     service_steps (de_url sample_dest_env) sample_ids_env svc (main_listeners svc) [Start 0 sample_newHead 0, Receive 0 (CatchUp (Some False))] g \<and>
     r_listeners g = [(s1, Exited (Some (Errorf ''failed to catch up on historical blocks''))), (s2, Pending)] \<and>
     r_err g = Some (Errorf ''failed to catch up on historical blocks'')"
proof -
  obtain svc s1 s2 ws where svc: "sample_group = Inr svc" "cfg_SourceBlockchains (sv_cfg svc) = [s1, s2]" and s1: "sb_blockchainID s1 = 5" "sb_BlockchainID s1 = ''C5''"
      "NewEthClientWithConfig (de_url sample_dest_env) (BaseURL (sb_WSEndpoint s1)) (HTTPHeaders (sb_WSEndpoint s1)) (QueryParams (sb_WSEndpoint s1)) = Inr ws"
    and s2: "sb_blockchainID s2 = 9" "HasPrefix (sb_BlockchainID s2) ''0x''"
    using sample_group_started by blast
  let ?g = "main_listeners svc"
  have ready: "sources_ready svc" using started_sources_ready [OF sample_env_ok(1,2) svc(1) [unfolded sample_group_def]] by blast
  have b: "ids_FromString sample_ids_env (sb_BlockchainID s1) = Inr 5" unfolding s1(2) by code_simp
  have gs: "r_listeners ?g = [(s1, Pending), (s2, Pending)]" "r_err ?g = None" "r_health ?g = sv_relayerHealth svc"
    by (simp_all add: main_listeners_def svc(2))
  have h: "map_of (r_health ?g) (sb_blockchainID s1) = Some True" using ready svc(2) by (simp add: sources_ready_def gs)
  have "\<exists>l height. start_listener (de_url sample_dest_env) sample_ids_env svc sample_newHead 0 s1 (r_health ?g) = Done (Inr (l, height)) \<and> l_catchUpResultChan l"
    by (rule start_listener_succeeds [OF _ _ _ b s1(3), of _ _ 3 _ 2])
      (use ready svc(2) h in \<open>auto simp: sources_ready_def sample_newHead_def\<close>)
  then obtain l height where l: "start_listener (de_url sample_dest_env) sample_ids_env svc sample_newHead 0 s1 (r_health ?g) = Done (Inr (l, height))"
      "l_catchUpResultChan l" by blast
  let ?g1 = "?g\<lparr>r_listeners := (r_listeners ?g)[0 := (s1, Running l)]\<rparr>"
  have step: "service_step (de_url sample_dest_env) sample_ids_env svc ?g (Start 0 sample_newHead 0) ?g1"
    by (rule created [OF _ _ l(1)]) (simp_all add: gs)
  let ?e = "Errorf ''failed to catch up on historical blocks''"
  obtain l' where l': "listener_step (CatchUp (Some False)) (l\<lparr>l_healthStatus := True\<rparr>) = Exit (Some ?e) l'" using l(2) by simp
  have "service_step (de_url sample_dest_env) sample_ids_env svc ?g1 (Receive 0 (CatchUp (Some False)))
      (eg_return (Some ?e) (?g1\<lparr>r_listeners := (r_listeners ?g1)[0 := (s1, Exited (Some ?e))],
         r_health := AList.update (sb_blockchainID s1) (l_healthStatus l') (r_health ?g1)\<rparr>))"
    by (rule exited [OF _ _ _ _ l']) (use h in \<open>simp_all add: gs\<close>)
  with step svc s1(1) s2 show ?thesis
    by (intro exI [of _ svc] exI [of _ s1] exI [of _ s2]
        exI [of _ "eg_return (Some ?e) (?g1\<lparr>r_listeners := (r_listeners ?g1)[0 := (s1, Exited (Some ?e))],
          r_health := AList.update (sb_blockchainID s1) (l_healthStatus l') (r_health ?g1)\<rparr>)"])
      (auto simp: service_steps_Cons gs eg_return_def)
qed

section \<open>Properties\<close>

text \<open>
  C17: In every interleaving of the listeners, a chain whose listener has left its loop is marked as unhealthy
  from then on and the health check reports an error, provided that no two sources are the same chain, which
  would share a tracker.
\<close>

theorem exited_listener_unhealthy:
  assumes "ids_env_ok (ce_ids (se_cfg env))" and "de_ids (pe_dest penv) = ce_ids (se_cfg env)"
    and "main_initialize env penv grpcNewClient lru etna random nw newDatabase getenv key unmarshalled x newNetwork = Inr svc"
    and "distinct (map sb_blockchainID (cfg_SourceBlockchains (sv_cfg svc)))"
    and "service_steps uenv ienv svc (main_listeners svc) acts g" and "(src, Exited res) \<in> set (r_listeners g)"
  shows "map_of (r_health g) (sb_blockchainID src) = Some False \<and> healthCheck ienv (r_health g) \<noteq> None"
proof -
  have "sources_ready svc" using started_sources_ready [OF assms(1-3)] by blast
  then have "health_ok (main_listeners svc)"
    using assms(4) by (auto simp: health_ok_def sources_ready_def main_listeners_def comp_def)
  from health_ok_steps [OF assms(5) this] have h: "map_of (r_health g) (sb_blockchainID src) = Some False"
    using assms(6) by (auto simp: health_ok_def)
  then have "(sb_blockchainID src, False) \<in> set (r_health g)" by (rule map_of_SomeD)
  then have "unhealthyRelayers ienv (r_health g) \<noteq> []" by (auto simp: unhealthyRelayers_def filter_empty_conv)
  with h show ?thesis by (simp add: healthCheck_def)
qed

theorem exited_listener_unhealthy_witness:
  "\<exists>svc g. sample_group = Inr svc \<and> service_steps (de_url sample_dest_env) sample_ids_env svc (main_listeners svc)
       [Start 0 sample_newHead 0, Receive 0 (CatchUp (Some False))] g \<and>
     map_of (r_health g) 5 = Some False \<and> healthCheck sample_ids_env (r_health g) \<noteq> None"
proof -
  obtain svc s1 s2 g where s: "sample_group = Inr svc" "cfg_SourceBlockchains (sv_cfg svc) = [s1, s2]" "sb_blockchainID s1 = 5" "sb_blockchainID s2 = 9"
    and run: "service_steps (de_url sample_dest_env) sample_ids_env svc (main_listeners svc) [Start 0 sample_newHead 0, Receive 0 (CatchUp (Some False))] g"
    and gs: "r_listeners g = [(s1, Exited (Some (Errorf ''failed to catch up on historical blocks''))), (s2, Pending)]"
    using sample_group_run by blast
  have "distinct (map sb_blockchainID (cfg_SourceBlockchains (sv_cfg svc)))" by (simp add: s)
  from exited_listener_unhealthy [OF sample_env_ok(1,2) s(1) [unfolded sample_group_def] this run] gs s run show ?thesis by auto
qed

text \<open>
  C18: The relayer never ends silently: when \<^verbatim>\<open>errGroup.Wait\<close> returns, it returns an
  error, and the error is one that a listener returned, either because it could not be created or from its loop.
  No listener has returned as long as there is no error.
\<close>

theorem relayer_ends_with_error:
  assumes "ids_env_ok (ce_ids (se_cfg env))" and "de_ids (pe_dest penv) = ce_ids (se_cfg env)"
    and "main_initialize env penv grpcNewClient lru etna random nw newDatabase getenv key unmarshalled x newNetwork = Inr svc"
    and "service_steps uenv ienv svc (main_listeners svc) acts g" and "eg_wait g = Some res"
  shows "\<exists>e src. res = Some e \<and> src \<in> set (cfg_SourceBlockchains (sv_cfg svc)) \<and>
    ((src, Refused e) \<in> set (r_listeners g) \<or> (src, Exited (Some e)) \<in> set (r_listeners g))"
proof -
  have ready: "sources_ready svc" using started_sources_ready [OF assms(1-3)] by blast
  have ok: "run_ok svc g" by (rule run_ok_steps [OF assms(4) run_ok_main [OF ready]])
  have "r_listeners g \<noteq> []" using ok ready by (auto simp: run_ok_def sources_ready_def)
  then obtain s gr where "(s, gr) \<in> set (r_listeners g)" by (cases "r_listeners g") auto
  moreover have "list_all (returned \<circ> snd) (r_listeners g)" "res = r_err g" using assms(5) by (simp_all add: eg_wait_def split: if_splits)
  ultimately obtain e where e: "res = Some e" using ok by (fastforce simp: run_ok_def group_ok_def list_all_iff)
  then obtain src where src: "(src, Refused e) \<in> set (r_listeners g) \<or> (src, Exited (Some e)) \<in> set (r_listeners g)"
    using ok \<open>res = r_err g\<close> by (auto simp: run_ok_def group_ok_def)
  then have "src \<in> set (map fst (r_listeners g))" by force
  with e src ok show ?thesis unfolding run_ok_def by auto
qed

theorem relayer_ends_with_error_witness:
  "\<exists>svc acts g e. sample_group = Inr svc \<and> service_steps (de_url sample_dest_env) sample_ids_env svc (main_listeners svc) acts g \<and>
     eg_wait g = Some (Some e)"
proof -
  obtain svc s1 s2 g where s: "sample_group = Inr svc"
    and run: "service_steps (de_url sample_dest_env) sample_ids_env svc (main_listeners svc) [Start 0 sample_newHead 0, Receive 0 (CatchUp (Some False))] g"
    and err: "r_err g = Some (Errorf ''failed to catch up on historical blocks'')"
    using sample_group_run by blast
  have ready: "sources_ready svc" using started_sources_ready [OF sample_env_ok(1,2) s [unfolded sample_group_def]] by blast
  have "run_ok svc g" by (rule run_ok_steps [OF run run_ok_main [OF ready]])
  from stop_first [OF ready this _ le_refl] err
  obtain acts' g' where g': "service_steps (de_url sample_dest_env) sample_ids_env svc g acts' g'"
      "length (r_listeners g') = length (r_listeners g)" "\<forall>i < length (r_listeners g). returned (snd (r_listeners g' ! i))" by blast
  then have w: "eg_wait g' = Some (r_err g')" by (simp add: eg_wait_def list_all_length)
  note all = steps_append [OF run g'(1)]
  from relayer_ends_with_error [OF sample_env_ok(1,2) s [unfolded sample_group_def] all w]
  obtain e where "r_err g' = Some e" by blast
  with s all w show ?thesis by auto
qed



text \<open>
  C25: A source configured by a hexadecimal blockchain ID, which validation accepts, is never
  listened to: the listener reads the ID as cb58 and cannot be created. Its goroutine ends the
  whole group, while the tracker of the chain says healthy all the time.
\<close>

theorem hex_source_never_listened:
  assumes "ids_env_ok (ce_ids (se_cfg env))" and "de_ids (pe_dest penv) = ce_ids (se_cfg env)"
    and "main_initialize env penv grpcNewClient lru etna random nw newDatabase getenv key unmarshalled x newNetwork = Inr svc"
    and "distinct (map sb_blockchainID (cfg_SourceBlockchains (sv_cfg svc)))"
    and cb58: "\<forall>s. HasPrefix s ''0x'' \<longrightarrow> (\<exists>e. ids_FromString ienv s = Inl e)"
    and "service_steps uenv ienv svc (main_listeners svc) acts g"
    and "(src, gr) \<in> set (r_listeners g)" and "HasPrefix (sb_BlockchainID src) ''0x''"
  shows "(gr = Pending \<or> (\<exists>e. gr = Refused e) \<and> r_cancelled g) \<and> map_of (r_health g) (sb_blockchainID src) = Some True"
proof -
  have ready: "sources_ready svc" using started_sources_ready [OF assms(1-3)] by blast
  have ok: "run_ok svc g" by (rule run_ok_steps [OF assms(6) run_ok_main [OF ready]])
  have "src \<in> set (map fst (r_listeners g))" using assms(7) by force
  then have src: "src \<in> set (cfg_SourceBlockchains (sv_cfg svc))" using ok unfolding run_ok_def by metis
  obtain e where e: "ids_FromString ienv (sb_BlockchainID src) = Inl e" using cb58 assms(8) by blast
  have "never_listened src (main_listeners svc) \<and> run_ok svc (main_listeners svc)"
    using assms(4) src ready run_ok_main [OF ready]
    by (auto simp: never_listened_def sources_ready_def main_listeners_def comp_def)
  moreover have "never_listened src g2 \<and> run_ok svc g2"
    if "service_step uenv ienv svc g1 act g2" "never_listened src g1 \<and> run_ok svc g1" for g1 act g2
    using never_listened_step [OF that(1) _ e] run_ok_step [OF that(1)] that(2) src by (metis run_ok_def list.set_map)
  ultimately have "never_listened src g \<and> run_ok svc g"
    using steps_invariant [OF assms(6), where P = "\<lambda>g. never_listened src g \<and> run_ok svc g"] by blast
  then show ?thesis using assms(7) by (fastforce simp: never_listened_def run_ok_def group_ok_def)
qed

theorem hex_source_never_listened_witness:
  "\<exists>svc g src. sample_group = Inr svc \<and> service_steps (de_url sample_dest_env) sample_ids_env svc (main_listeners svc)
       [Start 0 sample_newHead 0, Receive 0 (CatchUp (Some False))] g \<and>
     (src, Pending) \<in> set (r_listeners g) \<and> HasPrefix (sb_BlockchainID src) ''0x'' \<and> map_of (r_health g) 9 = Some True"
proof -
  obtain svc s1 s2 g where s: "sample_group = Inr svc" "cfg_SourceBlockchains (sv_cfg svc) = [s1, s2]" "sb_blockchainID s1 = 5" "sb_blockchainID s2 = 9"
      "HasPrefix (sb_BlockchainID s2) ''0x''"
    and run: "service_steps (de_url sample_dest_env) sample_ids_env svc (main_listeners svc) [Start 0 sample_newHead 0, Receive 0 (CatchUp (Some False))] g"
    and gs: "r_listeners g = [(s1, Exited (Some (Errorf ''failed to catch up on historical blocks''))), (s2, Pending)]"
    using sample_group_run by blast
  have p: "distinct (map sb_blockchainID (cfg_SourceBlockchains (sv_cfg svc)))" "(s2, Pending) \<in> set (r_listeners g)" by (simp_all add: s gs)
  from hex_source_never_listened [OF sample_env_ok(1,2) s(1) [unfolded sample_group_def] p(1) sample_cb58 run p(2) s(5)]
  have "map_of (r_health g) 9 = Some True" by (simp add: s(4))
  with s(1,5) run p(2) show ?thesis by blast
qed

end
