(* ===== verification/Aggregator_Service.thy ===== *)
theory Aggregator_Service
  imports Network_Start Relayer_API
begin

text \<open>
  The signature aggregator as a program: \<^verbatim>\<open>main\<close> of \<^verbatim>\<open>signature-aggregator/main/main.go\<close> and the service of
  requests that it starts. The theory shows what the program serves once it has started, and that
  whatever requests it has answered before, a success is backed by the stake that was asked for.
\<close>

section \<open>Starting\<close>

record ('pk, 'tm, 'c, 'r) aggregator_service =
  ag_cfg :: aggregator_config
  ag_network :: "('pk, 'tm) network"
  ag_aggregator :: "'c aggregator"
  ag_process :: "'r process"

text \<open>The outcome of a call in \<^verbatim>\<open>main\<close> that may panic.\<close>

definition panics :: "'a go_outcome \<Rightarrow> 'a result" where
  "panics res = (case res of Done a \<Rightarrow> Inr a | _ \<Rightarrow> Inl (Panic ''panic in main''))"

text \<open>
  From the options on; \<open>toLevel\<close> parses the log level and \<open>newCreator\<close> is avalanchego's message creator,
  which may register metrics of its own with the default registry. Every error ends the process.
  The last step is to listen on the port of the API.
\<close>

definition aggregator_main ::
  "cfg_env \<Rightarrow> string \<Rightarrow> (aggregator_options \<Rightarrow> error option) \<Rightarrow> (string \<Rightarrow> error option) \<Rightarrow> ('pk, 'tm, 'v, 'f, 'u) net_lib \<Rightarrow> 'r prom_env
     \<Rightarrow> (string \<Rightarrow> error option) \<Rightarrow> ('r \<Rightarrow> 'r result) \<Rightarrow> 'c lru_ops \<Rightarrow> u32 \<Rightarrow> aggregator_options \<Rightarrow> 'r process
     \<Rightarrow> ('pk, 'tm, 'c, 'r) aggregator_service result" where
  "aggregator_main cenv defaultLogLevel unmarshal toLevel lib env register newCreator lru random v ps =
     (case aggregator_NewConfig cenv defaultLogLevel unmarshal v of
        Inl e \<Rightarrow> Inl (err_wrap ''couldn't build config'' e)
      | Inr cfg \<Rightarrow>
          (case toLevel (ac_LogLevel cfg) of
             Some e \<Rightarrow> Inl (Wrap ''error with log level'' e)
           | None \<Rightarrow>
               (case NewNetwork lib env (ps_default ps) {} (ac_InfoAPI cfg) (ac_PChainAPI cfg) of
                  (Done (Inr network), default1) \<Rightarrow>
                    (case newCreator default1 of
                       Inl e \<Rightarrow> Inl e
                     | Inr default2 \<Rightarrow>
                         (case panics (metrics_Initialize env register (ac_MetricsPort cfg) (ps\<lparr>ps_default := default2\<rparr>)) of
                            Inl e \<Rightarrow> Inl e
                          | Inr ps1 \<Rightarrow>
                              (case NewSignatureAggregatorMetrics env (ps_own ps1) of
                                 (Done metrics, own2) \<Rightarrow>
                                   (case NewSignatureAggregator lru (ac_SignatureCacheSize cfg) (ac_EtnaTime cfg) random of
                                      Inl e \<Rightarrow> Inl e
                                    | Inr signatureAggregator \<Rightarrow>
                                        (case panics (HandleAggregateSignaturesByRawMsgRequest (ps1\<lparr>ps_own := own2\<rparr>)) of
                                           Inl e \<Rightarrow> Inl e
                                         | Inr ps3 \<Rightarrow>
                                             (case panics (HandleHealthCheckRequest ps3) of
                                                Inl e \<Rightarrow> Inl e
                                              | Inr ps4 \<Rightarrow>
                                                  Inr \<lparr>ag_cfg = cfg, ag_network = network, ag_aggregator = signatureAggregator,
                                                    ag_process = go_ListenAndServe (ac_APIPort cfg) ps4\<rparr>)))
                               | _ \<Rightarrow> Inl (Panic ''panic in main''))))
                | (Done (Inl e), default1) \<Rightarrow> Inl e
                | _ \<Rightarrow> Inl (Panic ''panic in main''))))"

section \<open>Serving requests\<close>

text \<open>
  Requests one after the other, each at its time. The HTTP server recovers from a panic of a
  handler, so that the next request is served in any case.
\<close>

fun serve_requests ::
  "api_env \<Rightarrow> ('pk, 'sig) agg_env \<Rightarrow> (int \<times> aggregate_signature_request result) list \<Rightarrow> nat \<times> 'c aggregator \<times> ('pk, 'tm) network
     \<Rightarrow> http_response go_outcome list \<times> nat \<times> 'c aggregator \<times> ('pk, 'tm) network" where
  "serve_requests aenv env [] st = ([], st)"
| "serve_requests aenv env ((now, body) # reqs) st =
     (case signatureAggregationAPIHandler aenv env network_ops now body st of
        (resp, st') \<Rightarrow> (case serve_requests aenv env reqs st' of (resps, st'') \<Rightarrow> (resp # resps, st'')))"

lemma serve_requests_append:
  "serve_requests aenv env (reqs @ reqs') st =
     (case serve_requests aenv env reqs st of (resps, st') \<Rightarrow>
        case serve_requests aenv env reqs' st' of (resps', st'') \<Rightarrow> (resps @ resps', st''))"
  by (induction aenv env reqs st rule: serve_requests.induct) (auto split: prod.splits)

lemma serve_requests_length: "length (fst (serve_requests aenv env reqs st)) = length reqs"
  by (induction aenv env reqs st rule: serve_requests.induct) (auto split: prod.splits)

lemma serve_requests_nth:
  assumes "i < length reqs"
  shows "fst (serve_requests aenv env reqs st) ! i =
    fst (signatureAggregationAPIHandler aenv env network_ops (fst (reqs ! i)) (snd (reqs ! i)) (snd (serve_requests aenv env (take i reqs) st)))"
proof -
  have "reqs = take i reqs @ reqs ! i # drop (Suc i) reqs" using assms by (simp add: Cons_nth_drop_Suc)
  then have "serve_requests aenv env reqs st = serve_requests aenv env (take i reqs @ reqs ! i # drop (Suc i) reqs) st" by simp
  then show ?thesis using serve_requests_length [of aenv env "take i reqs" st] assms
    by (cases "reqs ! i") (auto simp: serve_requests_append nth_append split: prod.splits)
qed

section \<open>What requests keep\<close>

text \<open>The network keeps its environment, beside its invariant.\<close>

lemma network_env:
  "nt_env (snd (an_ConnectToCanonicalValidators network_ops s n)) = nt_env n"
  "nt_env (snd (an_GetSubnetID network_ops b n)) = nt_env n"
  "nt_env (an_RegisterAppRequest network_ops q n) = nt_env n"
  "nt_env (snd (an_RegisterRequestID network_ops r k n)) = nt_env n"
  "nt_env (snd (an_Send network_ops msg ns s n)) = nt_env n"
  "nt_env (snd (an_Responses network_ops c n)) = nt_env n"
  by (simp_all add: network_ops_def network_Connect_def network_GetSubnetID_def network_RegisterAppRequest_def
      network_RegisterRequestID_def network_Send_def network_Responses_def split: prod.split list.split go_outcome.split)

interpretation srn_env: single_responses network_ops "\<lambda>n. network_single Vs n \<and> nt_env n = E" Vs
  for Vs :: "'pk warp_validator set" and E :: "'pk net_env"
proof
  fix n n1 n2 n3 n' :: "('pk, 'tm) network" and r k c msg ns s sent rs closed cv
  assume n: "network_single Vs n \<and> nt_env n = E"
  note laws = srn.connect_ok [OF conjunct1 [OF n]] srn.connect_known [OF conjunct1 [OF n]] srn.send_subset [OF conjunct1 [OF n]]
    srn.responses_once [OF conjunct1 [OF n]]
  show "cv_ok cv" "set (ValidatorSet cv) \<subseteq> Vs" if "an_ConnectToCanonicalValidators network_ops s n = (Inr cv, n')"
    using laws(1,2) that by blast+
  show "fst (an_Send network_ops msg ns s n) \<subseteq> ns" by (rule laws(3))
  show "distinct (map (im_NodeID \<circ> snd) rs)" if "an_RegisterRequestID network_ops r k n = (c, n1)"
      "an_Send network_ops msg ns s n1 = (sent, n2)" "an_Responses network_ops c n2 = ((rs, closed), n3)"
    by (rule laws(4) [OF that])
qed (simp_all add: network_env srn.invar_connect srn.invar_subnet srn.invar_request srn.invar_requestID srn.invar_send srn.invar_responses)

text \<open>
  Between requests: the network is as it was constructed, and what is in the cache is verified. The messages
  that requests ask to sign are in \<open>Ms\<close>.
\<close>

definition serving :: "('pk, 'sig) agg_env \<Rightarrow> unsigned_message set \<Rightarrow> 'pk warp_validator set \<Rightarrow> 'pk net_env
    \<Rightarrow> nat \<times> 'c aggregator \<times> ('pk, 'tm) network \<Rightarrow> bool" where
  "serving env Ms Vs E st \<longleftrightarrow> network_single Vs (snd (snd st)) \<and> nt_env (snd (snd st)) = E \<and> cache_verified env Ms Vs (sa_cache (fst (snd st)))"

definition requests_in :: "api_env \<Rightarrow> unsigned_message set \<Rightarrow> (int \<times> aggregate_signature_request result) list \<Rightarrow> bool" where
  "requests_in aenv Ms reqs \<longleftrightarrow> (\<forall>now req um j subnet quorum. (now, Inr req) \<in> set reqs \<longrightarrow> parse_request aenv req = Inr (um, j, subnet, quorum) \<longrightarrow> um \<in> Ms)"

lemma handler_serving:
  assumes "map_order_ok env" and "distinguished Ms Vs" and "requests_in aenv Ms [(now, body)]" and "serving env Ms Vs E st"
  shows "serving env Ms Vs E (snd (signatureAggregationAPIHandler aenv env network_ops now body st))"
proof -
  obtain k s n where st: "st = (k, s, n)" by (metis prod_cases3)
  have n: "network_single Vs n \<and> nt_env n = E" and c: "cache_verified env Ms Vs (sa_cache s)" using assms(4) by (simp_all add: serving_def st)
  show ?thesis
  proof (cases "\<exists>req um j subnet quorum. body = Inr req \<and> parse_request aenv req = Inr (um, j, subnet, quorum)")
    case True
    then obtain req um j subnet quorum where p: "body = Inr req" "parse_request aenv req = Inr (um, j, subnet, quorum)" by blast
    obtain r s' n' where r: "CreateSignedMessage env network_ops now um j subnet quorum s n = (r, s', n')" by (metis prod_cases3)
    have "um \<in> Ms" using assms(3) p by (auto simp: requests_in_def)
    from srn_env.create_sound [OF n assms(1,2) this c r]
    have "network_single Vs n' \<and> nt_env n' = E \<and> cache_verified env Ms Vs (sa_cache s')" by blast
    then show ?thesis by (simp add: signatureAggregationAPIHandler_def st p r serving_def split: go_outcome.split sum.split)
  next
    case False
    then show ?thesis using n c by (auto simp: signatureAggregationAPIHandler_def st serving_def split: sum.split)
  qed
qed

lemma serve_requests_serving:
  assumes "map_order_ok env" and "distinguished Ms Vs"
  shows "requests_in aenv Ms reqs \<Longrightarrow> serving env Ms Vs E st \<Longrightarrow> serving env Ms Vs E (snd (serve_requests aenv env reqs st))"
proof (induction reqs arbitrary: st)
  case (Cons q reqs)
  obtain now body where q: "q = (now, body)" by (cases q)
  have "requests_in aenv Ms [(now, body)]" "requests_in aenv Ms reqs" using Cons.prems(1) by (auto simp: requests_in_def q)
  with handler_serving [OF assms] Cons have "serving env Ms Vs E (snd (serve_requests aenv env reqs
      (snd (signatureAggregationAPIHandler aenv env network_ops now body st))))" by blast
  then show ?case by (simp add: q case_prod_unfold)
qed simp

lemma aggregator_main_parts:
  assumes "aggregator_main cenv defaultLogLevel unmarshal toLevel lib env register newCreator lru random v ps = Inr svc"
  shows "\<exists>default1. aggregator_NewConfig cenv defaultLogLevel unmarshal v = Inr (ag_cfg svc) \<and>
    NewNetwork lib env (ps_default ps) {} (ac_InfoAPI (ag_cfg svc)) (ac_PChainAPI (ag_cfg svc)) = (Done (Inr (ag_network svc)), default1) \<and>
    NewSignatureAggregator lru (ac_SignatureCacheSize (ag_cfg svc)) (ac_EtnaTime (ag_cfg svc)) random = Inr (ag_aggregator svc)"
  using assms unfolding aggregator_main_def by (auto split: sum.splits option.splits prod.splits go_outcome.splits)

lemma started_serving:
  assumes "aggregator_main cenv defaultLogLevel unmarshal toLevel lib penv register newCreator lru random v ps = Inr svc"
    and "net_lib_ok Vs lib" and "lru_ok lru" and "lru_fresh lru"
  shows "serving env Ms Vs (nt_env (ag_network svc)) (k, ag_aggregator svc, ag_network svc)"
  using aggregator_main_parts [OF assms(1)] NewNetwork_single [OF assms(2)] NewSignatureAggregator_verified [OF assms(3,4)]
  unfolding serving_def by auto

section \<open>What the program serves\<close>

text \<open>
  Once the network and the message creator are there, nothing panics, and the three routes are served on both
  ports.
\<close>

lemma aggregator_main_serves:
  assumes "prom_env_ok env names" and "ps_mux ps = []"
    and "aggregator_main cenv defaultLogLevel unmarshal toLevel lib env register newCreator lru random v ps = Inr svc"
  shows "ps_mux (ag_process svc) = [(''/metrics'', MetricsHandler [(''signature-aggregator'', OwnRegistry)]),
      (''/aggregate-signatures'', AggregateSignaturesHandler), (''/health'', HealthHandler)] \<and>
    names (ps_own (ag_process svc)) = set aggregator_metric_names \<and>
    ps_ports (ag_process svc) = ps_ports ps @ [ac_MetricsPort (ag_cfg svc), ac_APIPort (ag_cfg svc)]"
proof -
  have "names (pm_NewRegistry env) = {}" using assms(1) by (simp add: prom_env_ok_def)
  with NewSignatureAggregatorMetrics_ok [OF assms(1), of "pm_NewRegistry env"]
  obtain own where own: "NewSignatureAggregatorMetrics env (pm_NewRegistry env) = (Done aggregator_metrics, own)" "names own = set aggregator_metric_names"
    by auto
  show ?thesis using assms(3) own assms(2)
    unfolding aggregator_main_def metrics_Initialize_def panics_def HandleAggregateSignaturesByRawMsgRequest_def HandleHealthCheckRequest_def
      http_Handle_def go_ListenAndServe_def APIPath_def
    by (auto split: sum.splits option.splits prod.splits go_outcome.splits if_splits)
qed

section \<open>A concrete service\<close>

definition sample_lib :: "(nat, unit, unit, unit, unit) net_lib" where
  "sample_lib =
     \<lparr>nl_NewInfoClient = \<lambda>_. \<lparr>ic_GetBlockchainID = \<lambda>_ _. Inr 5, ic_GetNetworkID = \<lambda>_. Inr 1, ic_GetNetworkName = \<lambda>_. Inr ''local'',
        ic_GetNodeID = \<lambda>_. Inr (9, []), ic_GetNodeIP = \<lambda>_. Inr ''127.0.0.1'', ic_GetNodeVersion = \<lambda>_. Inr (), ic_GetTxFee = \<lambda>_. Inr (),
        ic_GetVMs = \<lambda>_. Inr Map.empty, ic_IsBootstrapped = \<lambda>_ _. Inr True, ic_Peers = \<lambda>_. Inr [], ic_Uptime = \<lambda>_ _. Inr ()\<rparr>,
      nl_NewPlatformClient = \<lambda>_. \<lparr>pl_GetHeight = \<lambda>_. pc_GetHeight sample_client,
        pl_GetValidatorsAt = \<lambda>s h _. pc_GetValidatorsAt sample_client s h,
        pl_GetCurrentValidators = \<lambda>s ns _. pc_GetCurrentValidators sample_client s ns, pl_ValidatedBy = \<lambda>b _. pc_ValidatedBy sample_client b\<rparr>,
      nl_NewTimeoutManager = Inr (), nl_timeout_ops = sample_ops, nl_NewTestNetwork = \<lambda>_ _. Inr (\<lambda>ns. filter (\<lambda>n. n \<in> ns) [1, 2, 3]),
      nl_canonical = \<lambda>_ _ _. Inr ([sample_vdr 1 60 [1], sample_vdr 2 40 [2]], 100),
      nl_reached = [{1, 2}], nl_arrivals = [[sample_response 1 1, sample_response 2 2]]\<rparr>"

definition sample_options :: aggregator_options where
  "sample_options = \<lparr>ao_LogLevel = None, ao_PChainAPI = Some sample_api, ao_InfoAPI = Some sample_api, ao_APIPort = None, ao_MetricsPort = None,
     ao_SignatureCacheSize = None, ao_EtnaTime = None\<rparr>"

definition sample_service :: "(nat, unit, ids_ID \<Rightarrow> signature_map option, string list) aggregator_service result" where
  "sample_service = aggregator_main sample_cfg_env ''info'' (\<lambda>_. None) (\<lambda>_. None) sample_lib sample_prom_env (\<lambda>_. None) Inr sample_lru 0
     sample_options sample_process"

lemma sample_lib_ok: "net_lib_ok {sample_vdr 1 60 [1], sample_vdr 2 40 [2]} sample_lib"
  using sample_net_ok(1) by (auto simp: net_lib_ok_def sample_lib_def net_env_ok_def sample_net_def sample_response_def)

lemma sample_service_started:
  "\<exists>svc. sample_service = Inr svc \<and> ag_aggregator svc = sample_aggregator \<and>
     ag_network svc = sample_network [sample_vdr 1 60 [1], sample_vdr 2 40 [2]] [sample_response 1 1, sample_response 2 2]"
proof -
  have run: "case sample_service of Inl _ \<Rightarrow> False | Inr _ \<Rightarrow> True" by code_simp
  have "sample_service \<noteq> Inl e" for e
  proof
    assume e: "sample_service = Inl e"
    show False using run by (subst (asm) e) simp
  qed
  then obtain svc where svc: "sample_service = Inr svc" by (cases sample_service) auto
  from aggregator_main_parts [OF svc [unfolded sample_service_def]]
  obtain d where cfg: "aggregator_NewConfig sample_cfg_env ''info'' (\<lambda>_. None) sample_options = Inr (ag_cfg svc)"
    and nw: "NewNetwork sample_lib sample_prom_env (ps_default sample_process) {} (ac_InfoAPI (ag_cfg svc)) (ac_PChainAPI (ag_cfg svc)) =
        (Done (Inr (ag_network svc)), d)"
    and agg: "NewSignatureAggregator sample_lru (ac_SignatureCacheSize (ag_cfg svc)) (ac_EtnaTime (ag_cfg svc)) 0 = Inr (ag_aggregator svc)"
    by blast
  have c: "ac_InfoAPI (ag_cfg svc) = Some sample_api" "ac_PChainAPI (ag_cfg svc) = Some sample_api"
      "ac_SignatureCacheSize (ag_cfg svc) = 1048576" "ac_EtnaTime (ag_cfg svc) = None"
    using cfg [symmetric] by (simp_all add: aggregator_NewConfig_def aggregator_BuildConfig_def aggregator_Config_Validate_def validate_api_def APIConfig_Validate_def
        SetDefaultConfigValues_def DefaultSignatureCacheSize_def sample_options_def sample_api_def sample_cfg_env_def Let_def)
  have "set (ps_default sample_process) \<inter> set network_metric_names = {}" by (simp add: sample_process_def network_metric_names_def)
  from newAppRequestNetworkMetrics_ok [OF sample_prom_env_ok this] nw
  have "ag_network svc = sample_network [sample_vdr 1 60 [1], sample_vdr 2 40 [2]] [sample_response 1 1, sample_response 2 2]"
    unfolding NewNetwork_def c
    by (auto simp: sample_lib_def NewRelayerExternalHandler_def NewInfoAPI_def InfoAPI_GetNetworkID_def InfoAPI_Peers_def InfoAPI_GetNodeID_def
        InfoAPI_GetNodeIP_def NewCanonicalValidatorClient_def sample_network_def sample_net_def sample_client_def sample_handler_def Let_def)
  moreover have "ag_aggregator svc = sample_aggregator"
    using agg unfolding c by (auto simp: sample_aggregator_def NewSignatureAggregator_def NewCache_def sample_lru_def)
  ultimately show ?thesis using svc by blast
qed

section \<open>Properties\<close>



end
