(* ===== verification/Command_Line.thy ===== *)
theory Command_Line
  imports Aggregator_Config
begin

text \<open>
  The start of both programs up to their configuration: \<^verbatim>\<open>keys.go\<close>, \<^verbatim>\<open>flags.go\<close> and the first functions of
  \<^verbatim>\<open>viper.go\<close> of \<^verbatim>\<open>relayer/config\<close> and \<^verbatim>\<open>signature-aggregator/config\<close>, and the first lines of the two \<^verbatim>\<open>main\<close>
  functions. The theory shows what each combination of flags leads to, and which value an option has
  when the configuration does not give it.
\<close>

section \<open>Keys and flags\<close>

datatype config_value = VString string | VBool bool | VUint nat

definition ConfigFileKey :: string where
  "ConfigFileKey = ''config-file''"

definition VersionKey :: string where
  "VersionKey = ''version''"

definition HelpKey :: string where
  "HelpKey = ''help''"

definition LogLevelKey :: string where
  "LogLevelKey = ''log-level''"

definition APIPortKey :: string where
  "APIPortKey = ''api-port''"

definition MetricsPortKey :: string where
  "MetricsPortKey = ''metrics-port''"

definition StorageLocationKey :: string where
  "StorageLocationKey = ''storage-location''"

definition ProcessMissedBlocksKey :: string where
  "ProcessMissedBlocksKey = ''process-missed-blocks''"

definition DBWriteIntervalSecondsKey :: string where
  "DBWriteIntervalSecondsKey = ''db-write-interval-seconds''"

definition SignatureCacheSizeKey :: string where
  "SignatureCacheSizeKey = ''signature-cache-size''"

record flag =
  fl_Name :: string
  fl_Default :: config_value
  fl_Usage :: string

definition relayer_BuildFlagSet :: "flag list" where
  "relayer_BuildFlagSet =
     [\<lparr>fl_Name = ConfigFileKey, fl_Default = VString [], fl_Usage = ''Specifies the relayer config file''\<rparr>,
      \<lparr>fl_Name = VersionKey, fl_Default = VBool False, fl_Usage = ''Display awm-relayer version''\<rparr>,
      \<lparr>fl_Name = HelpKey, fl_Default = VBool False, fl_Usage = ''Display awm-relayer usage''\<rparr>]"

definition aggregator_BuildFlagSet :: "flag list" where
  "aggregator_BuildFlagSet =
     [\<lparr>fl_Name = ConfigFileKey, fl_Default = VString [], fl_Usage = ''Specifies the signature-aggregator config file''\<rparr>,
      \<lparr>fl_Name = VersionKey, fl_Default = VBool False, fl_Usage = ''Display signature-aggregator version''\<rparr>,
      \<lparr>fl_Name = HelpKey, fl_Default = VBool False, fl_Usage = ''Display signature-aggregator usage''\<rparr>]"

section \<open>The viper instance\<close>

text \<open>
  The libraries: pflag with parsed flags \<open>'f\<close> and viper with instances \<open>'v\<close>.
  \<open>cl_New\<close> is a new instance that reads environment variables under the names of the keys, in
  capitals and with underscores for hyphens; \<open>cl_ReadInConfig\<close> reads the named file as a file of
  the given type; \<open>cl_Get\<close> is the value that an instance gives to a key and
  \<open>cl_Explicit\<close> the value it gives without the defaults.
\<close>

record ('f, 'v) cli_env =
  cl_Parse :: "flag list \<Rightarrow> string list \<Rightarrow> 'f result"
  cl_GetBool :: "'f \<Rightarrow> string \<Rightarrow> bool result"
  cl_New :: 'v
  cl_BindPFlags :: "'f \<Rightarrow> 'v \<Rightarrow> 'v result"
  cl_ReadInConfig :: "string \<Rightarrow> string \<Rightarrow> 'v \<Rightarrow> 'v result"
  cl_SetDefault :: "string \<Rightarrow> config_value \<Rightarrow> 'v \<Rightarrow> 'v"
  cl_Get :: "'v \<Rightarrow> string \<Rightarrow> config_value option"
  cl_Explicit :: "'v \<Rightarrow> string \<Rightarrow> config_value option"

definition IsSet :: "('f, 'v) cli_env \<Rightarrow> 'v \<Rightarrow> string \<Rightarrow> bool" where
  "IsSet env v key = (cl_Get env v key \<noteq> None)"

definition GetString :: "('f, 'v) cli_env \<Rightarrow> 'v \<Rightarrow> string \<Rightarrow> string" where
  "GetString env v key = (case cl_Get env v key of Some (VString s) \<Rightarrow> s | _ \<Rightarrow> [])"

text \<open>The same function in both packages. The result says whether the usage was displayed.\<close>

definition BuildViper :: "('f, 'v) cli_env \<Rightarrow> 'f \<Rightarrow> bool \<times> 'v result" where
  "BuildViper env fs =
     (case cl_BindPFlags env fs (cl_New env) of
        Inl e \<Rightarrow> (False, Inl e)
      | Inr v \<Rightarrow>
          if \<not> IsSet env v ConfigFileKey then (True, Inl (Errorf ''config file not set''))
          else (False, cl_ReadInConfig env (GetString env v ConfigFileKey) ''json'' v))"

definition set_defaults :: "('f, 'v) cli_env \<Rightarrow> (string \<times> config_value) list \<Rightarrow> 'v \<Rightarrow> 'v" where
  "set_defaults env ds v = fold (\<lambda>(key, d). cl_SetDefault env key d) ds v"

definition relayer_defaults :: "string \<Rightarrow> (string \<times> config_value) list" where
  "relayer_defaults defaultLogLevel =
     [(LogLevelKey, VString defaultLogLevel), (StorageLocationKey, VString ''./.awm-relayer-storage''), (ProcessMissedBlocksKey, VBool True),
      (APIPortKey, VUint 8080), (MetricsPortKey, VUint 9090), (DBWriteIntervalSecondsKey, VUint 10), (SignatureCacheSizeKey, VUint (1024 * 1024))]"

definition relayer_SetDefaultConfigValues :: "('f, 'v) cli_env \<Rightarrow> string \<Rightarrow> 'v \<Rightarrow> 'v" where
  "relayer_SetDefaultConfigValues env defaultLogLevel v = set_defaults env (relayer_defaults defaultLogLevel) v"

section \<open>The first lines of the programs\<close>

text \<open>
  A program displays its version or its usage and exits with status 0, panics with an error, having
  displayed the usage or not, or goes on with a viper instance.
\<close>

datatype 'v cli_outcome = ShowVersion string | ShowUsage | Fails bool error | Configured 'v

definition start_flags ::
  "('f, 'v) cli_env \<Rightarrow> flag list \<Rightarrow> string \<Rightarrow> string \<Rightarrow> string \<Rightarrow> string list \<Rightarrow> 'v cli_outcome" where
  "start_flags env flags parseMsg versionMsg version args =
     (case cl_Parse env flags args of
        Inl e \<Rightarrow> Fails True (Wrap parseMsg e)
      | Inr fs \<Rightarrow>
          (case cl_GetBool env fs VersionKey of
             Inl e \<Rightarrow> Fails False (Wrap versionMsg e)
           | Inr displayVersion \<Rightarrow>
               if displayVersion then ShowVersion version
               else
                 (case cl_GetBool env fs HelpKey of
                    Inl e \<Rightarrow> Fails False (Wrap ''error reading help flag value'' e)
                  | Inr help \<Rightarrow>
                      if help then ShowUsage
                      else
                        (case BuildViper env fs of
                           (usage, Inl e) \<Rightarrow> Fails usage (Wrap ''couldn't configure flags'' e)
                         | (usage, Inr v) \<Rightarrow> Configured v))))"

definition relayer_main_flags :: "('f, 'v) cli_env \<Rightarrow> string list \<Rightarrow> 'v cli_outcome" where
  "relayer_main_flags env args =
     start_flags env relayer_BuildFlagSet ''couldn't parse flags'' ''error reading version flag value'' ''v0.0.0-dev'' args"

definition aggregator_main_flags :: "('f, 'v) cli_env \<Rightarrow> string list \<Rightarrow> 'v cli_outcome" where
  "aggregator_main_flags env args =
     start_flags env aggregator_BuildFlagSet ''Failed to parse flags'' ''error reading version flag'' ''v0.0.0-dev'' args"

section \<open>What the flags lead to\<close>

text \<open>
  The version wins over the usage and neither needs a configuration; otherwise a program goes on
  exactly when a configuration file is named, by a flag or in the environment, and can be read.
\<close>

lemma start_flags_outcome:
  assumes "cl_Parse env flags args = Inr fs" and "cl_GetBool env fs VersionKey = Inr displayVersion" and "cl_GetBool env fs HelpKey = Inr help"
  shows "displayVersion \<Longrightarrow> start_flags env flags m1 m2 version args = ShowVersion version"
    and "\<not> displayVersion \<Longrightarrow> help \<Longrightarrow> start_flags env flags m1 m2 version args = ShowUsage"
    and "\<not> displayVersion \<Longrightarrow> \<not> help \<Longrightarrow> start_flags env flags m1 m2 version args = Configured v \<longleftrightarrow>
      (\<exists>v0 name. cl_BindPFlags env fs (cl_New env) = Inr v0 \<and> IsSet env v0 ConfigFileKey \<and> GetString env v0 ConfigFileKey = name \<and>
         cl_ReadInConfig env name ''json'' v0 = Inr v)"
  using assms by (auto simp: start_flags_def BuildViper_def split: sum.split)

text \<open>
  Defaults as documented: they give the value of a key that nothing else gives, and change no other
  key. \<open>cl_Explicit\<close> is not changed by them.
\<close>

definition defaults_ok :: "('f, 'v) cli_env \<Rightarrow> bool" where
  "defaults_ok env \<longleftrightarrow> (\<forall>key d v key'. cl_Explicit env (cl_SetDefault env key d v) key' = cl_Explicit env v key' \<and>
     cl_Get env (cl_SetDefault env key d v) key' =
       (if key' = key then Some (case cl_Explicit env v key of None \<Rightarrow> d | Some x \<Rightarrow> x) else cl_Get env v key'))"

lemma set_defaults_get:
  assumes "defaults_ok env" and "distinct (map fst ds)"
  shows "cl_Get env (set_defaults env ds v) key = (case map_of ds key of
      Some d \<Rightarrow> Some (case cl_Explicit env v key of None \<Rightarrow> d | Some x \<Rightarrow> x) | None \<Rightarrow> cl_Get env v key)"
  using assms(2)
proof (induction ds arbitrary: v)
  case (Cons p ds)
  obtain k d where p: "p = (k, d)" by (cases p)
  have law: "cl_Explicit env (cl_SetDefault env k d v) key = cl_Explicit env v key"
    "cl_Get env (cl_SetDefault env k d v) key =
       (if key = k then Some (case cl_Explicit env v k of None \<Rightarrow> d | Some x \<Rightarrow> x) else cl_Get env v key)"
    using assms(1) by (simp_all add: defaults_ok_def)
  have "map_of ds k = None" using Cons.prems by (simp add: p map_of_eq_None_iff)
  with Cons.IH [of "cl_SetDefault env k d v"] Cons.prems law show ?case by (auto simp: p set_defaults_def split: option.split)
qed (simp add: set_defaults_def)

text \<open>Every option with a default has a value, the one that is given or the default.\<close>

lemma relayer_defaults_complete:
  assumes "defaults_ok env"
  shows "cl_Get env (relayer_SetDefaultConfigValues env level v) key = (case map_of (relayer_defaults level) key of
      Some d \<Rightarrow> Some (case cl_Explicit env v key of None \<Rightarrow> d | Some x \<Rightarrow> x) | None \<Rightarrow> cl_Get env v key)"
  unfolding relayer_SetDefaultConfigValues_def
  by (rule set_defaults_get [OF assms])
    (simp add: relayer_defaults_def LogLevelKey_def StorageLocationKey_def ProcessMissedBlocksKey_def APIPortKey_def MetricsPortKey_def
      DBWriteIntervalSecondsKey_def SignatureCacheSizeKey_def)

end
