(* ===== verification/Spec2Isabelle.thy ===== *)
theory Spec2Isabelle
  imports Relayer_Service Aggregator_Service Command_Line
begin

text \<open>
  A verification development for \<^verbatim>\<open>awm-relayer\<close>, the relayer of Avalanche Warp Messages, and for the
  signature aggregator in the same repository. File names are relative to \<^verbatim>\<open>src/\<close>.

  \<^bold>\<open>The program.\<close> For each configured source chain a listener (\<^verbatim>\<open>relayer/listener.go\<close>) receives block
  headers from a subscriber (\<^verbatim>\<open>vms/evm/subscriber.go\<close>), which first catches up from a starting height.
  The message coordinator (\<^verbatim>\<open>relayer/message_coordinator.go\<close>) unpacks the Warp messages of a block
  (\<^verbatim>\<open>types/types.go\<close>), finds for each the handler of its protocol (\<^verbatim>\<open>messages/\<close>) and the application
  relayer of its route (\<^verbatim>\<open>database/relayer_id.go\<close>), and hands each relayer its messages of the block.
  The application relayer (\<^verbatim>\<open>relayer/application_relayer.go\<close>) asks the handler whether to send, has the
  message signed by the signature aggregator (\<^verbatim>\<open>signature-aggregator/aggregator\<close>) or by the Warp API, and
  sends it through the destination client (\<^verbatim>\<open>vms/evm/destination_client.go\<close>). When all messages of a
  block are done the height is staged in the checkpoint manager (\<^verbatim>\<open>relayer/checkpoint\<close>), which commits
  heights without gaps and writes the committed one to the database (\<^verbatim>\<open>database/\<close>), from which the
  next start computes the starting height.

  \<^bold>\<open>Conventions.\<close> Structs are records, Go's 64-bit integers are words and wrap around, \<^verbatim>\<open>big.Int\<close> is
  \<^typ>\<open>int\<close>. A fallible function yields a value of type \<open>'a result\<close>, \<open>Inl\<close> being the error; a call that may
  not return or may panic yields a \<open>go_outcome\<close>, and a \<open>Panic\<close> error is a panic as well. State that the
  code keeps behind a pointer is passed and returned. A Go map is a map of HOL, or an association list
  in the order of the iteration where the code iterates over it. Code of other repositories
  (avalanchego, subnet-evm, go-ethereum, BLS, Prometheus, viper, Redis, KMS) appears as fields of
  environment records, whose documented behaviour is stated in predicates named \<open>..._ok\<close> and assumed
  where it is needed. Calls under a lock are single steps; concurrent goroutines appear as sequences of
  such steps in any order.

  \<^bold>\<open>The theories.\<close>
  \<^item> \<open>Relayer_Prelude\<close>, \<open>Go_Std\<close>: results, errors, outcomes, and what is used of Go's library: decimal
    and hexadecimal text, strings, paths; round trips of the conversions.
  \<^item> \<open>UInt64_Heap\<close> (\<^verbatim>\<open>utils/uint64_heap.go\<close>): the heap operations refine a multiset; the locale
    \<open>min_queue\<close> is the interface the checkpoint manager relies on.
  \<^item> \<open>Relayer_Utils\<close> (\<^verbatim>\<open>utils/utils.go\<close>, \<^verbatim>\<open>utils/ticker.go\<close>): thresholds of stake, retries, IDs.
  \<^item> \<open>Relayer_Database\<close>, \<open>JSON_File_Storage\<close>, \<open>Redis_Database\<close> (\<^verbatim>\<open>database/\<close>): the interface as the
    locale \<open>relayer_db\<close>, with its laws under faults, interpreted on both implementations.
  \<^item> \<open>Checkpoint\<close> (\<^verbatim>\<open>relayer/checkpoint/checkpoint.go\<close>): staging refines the abstract checkpoint; no
    restart skips a height; repeated heights stall it.
  \<^item> \<open>Relayer_Config\<close>, \<open>Aggregator_Config\<close>, \<open>Relayer_ID\<close> (\<^verbatim>\<open>relayer/config\<close>, \<^verbatim>\<open>signature-aggregator/config\<close>,
    \<^verbatim>\<open>database/relayer_id.go\<close>): validation, quorums, key overrides, identifiers of routes and the rule
    \<open>allows\<close> that they stand for.
  \<^item> \<open>Peers_Network\<close>, \<open>External_Handler\<close>, \<open>App_Network\<close> (\<^verbatim>\<open>peers/\<close>): the canonical validators, the
    connections, the handler of responses as a state machine; the network as the locales
    \<open>app_request_network\<close> and \<open>single_responses\<close>.
  \<^item> \<open>Signature_Cache\<close>, \<open>Signature_Aggregator\<close> (\<^verbatim>\<open>signature-aggregator/aggregator\<close>): the whole of
    \<^verbatim>\<open>CreateSignedMessage\<close>; every signature used verifies, and the quorum is met when no node answers
    a request twice.
  \<^item> \<open>Warp_Types\<close>, \<open>Application_Relayer\<close>, \<open>Message_Coordinator\<close>: messages in logs, relaying of messages and
    blocks, routing; the locale \<open>checkpointing\<close> is what a relayer relies on.
  \<^item> \<open>Evm_Signer\<close>, \<open>Destination_Client\<close>, \<open>Teleporter_Handler\<close> (\<^verbatim>\<open>vms/\<close>, \<^verbatim>\<open>utils/client_utils.go\<close>,
    \<^verbatim>\<open>messages/\<close>): signatures, nonces, the two message protocols; the locale \<open>delivery_guard\<close> says that
    a settled message is not sent again.
  \<^item> \<open>Subscriber_Listener\<close> (\<^verbatim>\<open>vms/evm/subscriber.go\<close>, \<^verbatim>\<open>relayer/listener.go\<close>): catching up, subscribing and
    the event loop.
  \<^item> \<open>Relayer_API\<close> (\<^verbatim>\<open>relayer/api\<close>, \<^verbatim>\<open>signature-aggregator/api\<close>): the HTTP handlers.
  \<^item> \<open>Relayer_Metrics\<close>, \<open>Network_Start\<close>, \<open>Command_Line\<close> (the metrics of the three packages, \<^verbatim>\<open>peers/info_client.go\<close>,
    \<^verbatim>\<open>NewNetwork\<close>, \<^verbatim>\<open>keys.go\<close>, \<^verbatim>\<open>flags.go\<close> and \<^verbatim>\<open>viper.go\<close>): what both programs start with. Each metric and each
    route is registered once; a new network satisfies the invariant of \<open>single_responses\<close> and its handler
    starts in a reachable state.
  \<^item> \<open>Aggregator_Service\<close> (\<^verbatim>\<open>signature-aggregator/main/main.go\<close>): the signature aggregator as a program, from
    its options to the requests it serves; every success is backed by the quorum asked for.
  \<^item> \<open>Relayer_Main\<close> (\<^verbatim>\<open>relayer/network_utils.go\<close>, \<^verbatim>\<open>relayer/main/main.go\<close>): what the relayer builds at its start, up
    to the coordinator. The network and the aggregator are in the states the other theorems ask for.
  \<^item> \<open>Relayer_Service\<close> (the end of \<^verbatim>\<open>relayer/main/main.go\<close>): the error group that runs the listeners, as a
    step relation on the goroutines, the health trackers and the context; invariants by rule
    induction over all interleavings, and how the group comes to its end.
  \<^item> This theory: the properties across components. A relayed message has its quorum and its
    transaction is included; a started relayer routes as configured; a repeated block stalls the
    checkpoint.

  \<^bold>\<open>Loops.\<close> Loops over lists are structural; the heap loops, the commit loop, the header requests and
  the ranges of a catch-up have measures. Loops that need not end (retries until a context is done,
  subscribing, the loop over a range with a 64-bit counter) are partial functions whose value is
  \<open>None\<close> when they do not end, and that they end is proved where it holds. The attempts to collect
  signatures and to query the Warp API are bounded by the code's own constants. No fuel is used.

  \<^bold>\<open>Hypotheses worth knowing.\<close> The quorum of a signed message needs that no node answers a request
  twice; without it the statement fails, which \<open>repeated_response_counted_twice\<close> shows. Routing needs
  that the hash of relayer identifiers has no collision among the routes in question. Catching up
  needs heights below \<open>2 ^ 63 - 1\<close>, because the code counts with signed integers.

  The group of listeners needs that no two sources are the same chain where a health tracker is
  concerned, because two listeners of one chain share it. Requests to the aggregator's API are served one
  after the other.

  \<^bold>\<open>Not modelled.\<close> Loggers, the levels they log at, and avalanchego's message creator have no effect on the
  state modelled. The histograms of the network and two gauges of the aggregator measure times and
  percentages that nothing reads. Generated code (\<^verbatim>\<open>proto/pb\<close>), mocks and tests, among them
  \<^verbatim>\<open>relayer/config/test_utils.go\<close>, are left out: they are produced by tools or exercise the code above. What
  remains of the files above are imports, comments and declarations of interfaces.
\<close>

section \<open>From a message to its delivery\<close>

lemma fetch_from_aggregator:
  assumes "ar_sourceWarpSignatureClient r = None" and "fetch_signed_message env now r um st = (Done (Inr msg), st')"
  shows "\<exists>s n. CreateSignedMessage (re_agg env) (re_network env) now um [] (ar_signingSubnetID r)
      (QuorumNumerator (ar_warpQuorum r)) (rs_aggregator st) (rs_network st) = (Done (Inr msg), s, n) \<and> rs_world st' = rs_world st"
  using assms by (auto simp: fetch_signed_message_def Let_def go_simps split: prod.splits go_outcome.splits sum.splits)

lemma sample_relayed:
  "\<exists>txHash st'. ProcessMessage sample_relay_env 0 sample_tele_ar (teleporter_methods (sample_protocol_env False) (sample_th 100)) sample_tele_state =
     (Done (Inr txHash), st')"
proof -
  let ?h = "teleporter_methods (sample_protocol_env False) (sample_th 100)" and ?w = "rs_world sample_tele_state"
  have dc: "ar_destinationClient sample_tele_ar = 7" "?w = sample_world" "mh_GetUnsignedMessage ?h = sample_um"
    by (simp_all add: sample_tele_ar_def sample_tele_state_def teleporter_methods_def sample_th_def)
  have "fst (mh_ShouldSendMessage ?h 7 sample_world) = Inr True" by code_simp
  then have should: "mh_ShouldSendMessage ?h 7 sample_world = (Inr True, sample_world)"
    by (simp add: teleporter_methods_def teleporter_ShouldSendMessage_def Let_def)
  have "fst (fetch_signed_message sample_relay_env 0 sample_tele_ar sample_um sample_tele_state) = Done (Inr sample_msg)" by code_simp
  then obtain st1 where fetch: "fetch_signed_message sample_relay_env 0 sample_tele_ar sample_um sample_tele_state = (Done (Inr sample_msg), st1)"
    by (metis prod.collapse)
  have st1: "rs_world st1 = sample_world" using fetch_counts [OF fetch] dc(2) by simp
  obtain txHash w' where "mh_SendMessage ?h sample_msg 7 sample_world = (Done (Inr txHash), w')"
    using sample_sent by (auto simp: teleporter_methods_def)
  moreover have state: "sample_tele_state\<lparr>rs_world := sample_world\<rparr> = sample_tele_state" by (simp add: sample_tele_state_def)
  ultimately show ?thesis using should fetch st1 by (simp add: ProcessMessage_def Let_def dc state)
qed

text \<open>
  C1: From signature to delivery: when a relayer that uses the aggregator processes a Teleporter
  message successfully, the message either need not be sent, or a transaction was accepted by the
  destination chain and included with success that carries a message signed, when no node answers
  twice, by validators of the signing subnet with at least the destination's quorum of the stake.
\<close>

theorem relayed_message_quorum:
  assumes "network_single Vs (rs_network st)" and "map_order_ok (re_agg env)" and "distinguished Ms Vs"
    and "th_unsignedMessage m \<in> Ms" and "cache_verified (re_agg env) Ms Vs (sa_cache (rs_aggregator st))"
    and "re_network env = network_ops" and "ar_sourceWarpSignatureClient r = None" and "signer_env_ok (de_signer (pe_dest penv))"
    and "ProcessMessage env now r (teleporter_methods penv m) st = (Done (Inr txHash), st')"
  shows "teleporter_ShouldSendMessage penv m (ar_destinationClient r) (rs_world st) = (Inr False, rs_world st') \<and> txHash = 0 \<or>
    (\<exists>msg c tx i cv sigs agg sourceSubnet.
       w_clients (rs_world st) (ar_destinationClient r) = Some c \<and> txHash = de_TxHash (pe_dest penv) tx \<and>
       tx_Nonce (st_tx tx) = dc_currentNonce c \<and> tx_PredicateBytes (st_tx tx) = de_MessageBytes (pe_dest penv) msg \<and>
       eo_TransactionReceipt (de_ops (pe_dest penv)) (dc_client c) txHash (w_chain (rs_world st')) i = Inr 1 \<and>
       fst (getSubnetID network_ops (um_SourceChainID (th_unsignedMessage m)) (rs_aggregator st) (rs_network st)) = Inr sourceSubnet \<and>
       GetCurrentCanonicalValidatorSet (nt_env (rs_network st)) (if ar_signingSubnetID r = 0 then sourceSubnet else ar_signingSubnetID r) =
         Inr (ValidatorSet cv, TotalValidatorWeight cv) \<and>
       sigs_ok (re_agg env) cv (th_unsignedMessage m) sigs \<and>
       uint (TotalValidatorWeight cv) * uint (QuorumNumerator (ar_warpQuorum r)) \<le> signer_weight cv sigs * 100 \<and>
       aggregateSignatures (re_agg env) sigs = Inr (agg, fst ` set sigs) \<and>
       warp_NewMessage (re_agg env) (th_unsignedMessage m) (bits_Bytes (re_agg env) (fst ` set sigs))
         (take SignatureLen (bls_SignatureToBytes (re_agg env) agg)) = Inr msg)"
  using ProcessMessage_success [OF assms(9)]
proof (elim disjE exE conjE)
  fix w
  assume "mh_ShouldSendMessage (teleporter_methods penv m) (ar_destinationClient r) (rs_world st) = (Inr False, w)"
    "txHash = 0" "st' = st\<lparr>rs_world := w\<rparr>"
  then show ?thesis by (simp add: teleporter_methods_def)
next
  fix w msg st1 w2
  let ?um = "th_unsignedMessage m" and ?dc = "ar_destinationClient r"
  assume should: "mh_ShouldSendMessage (teleporter_methods penv m) ?dc (rs_world st) = (Inr True, w)"
    and fetch: "fetch_signed_message env now r (mh_GetUnsignedMessage (teleporter_methods penv m)) (st\<lparr>rs_world := w\<rparr>) = (Done (Inr msg), st1)"
    and send: "mh_SendMessage (teleporter_methods penv m) msg ?dc (rs_world st1) = (Done (Inr txHash), w2)"
    and st': "st' = incSuccessfulRelayMessageCount r
      ((setCreateSignedMessageLatencyMS r (re_latency env (mh_GetUnsignedMessage (teleporter_methods penv m))) st1)\<lparr>rs_world := w2\<rparr>)"
  have w: "w = rs_world st" using should by (simp add: teleporter_methods_def teleporter_ShouldSendMessage_def Let_def)
  obtain s n where cs: "CreateSignedMessage (re_agg env) network_ops now ?um [] (ar_signingSubnetID r) (QuorumNumerator (ar_warpQuorum r))
      (rs_aggregator st) (rs_network st) = (Done (Inr msg), s, n)" and st1: "rs_world st1 = rs_world st"
    using fetch_from_aggregator [OF assms(7) fetch] assms(6) w by (auto simp: teleporter_methods_def)
  have "teleporter_SendMessage penv m msg ?dc (rs_world st) = (Done (Inr txHash), rs_world st')"
    using send st1 st' by (simp add: teleporter_methods_def incSuccessfulRelayMessageCount_def)
  from sent_included [OF assms(8) this] quorum_of_signed [OF assms(1-5) cs] show ?thesis by metis
qed

theorem relayed_message_quorum_witness:
  "\<exists>txHash st' cv sigs. ProcessMessage sample_relay_env 0 sample_tele_ar (teleporter_methods (sample_protocol_env False) (sample_th 100)) sample_tele_state =
       (Done (Inr txHash), st') \<and> sigs_ok sample_agg_env cv sample_um sigs \<and>
     uint (TotalValidatorWeight cv) * 67 \<le> signer_weight cv sigs * 100"
proof -
  let ?pm = "ProcessMessage sample_relay_env 0 sample_tele_ar (teleporter_methods (sample_protocol_env False) (sample_th 100)) sample_tele_state"
  obtain txHash st' where run: "?pm = (Done (Inr txHash), st')" using sample_relayed by blast
  have send: "fst (teleporter_ShouldSendMessage (sample_protocol_env False) (sample_th 100) (ar_destinationClient sample_tele_ar)
      (rs_world sample_tele_state)) = Inr True" by code_simp
  have net: "network_single {sample_vdr 1 60 [1], sample_vdr 2 40 [2]} (rs_network sample_tele_state)"
    using sample_network_single by (simp add: sample_tele_state_def sample_relay_state_def)
  have "map_order_ok (re_agg sample_relay_env)" "th_unsignedMessage (sample_th 100) \<in> {sample_um}"
      "re_network sample_relay_env = network_ops" "ar_sourceWarpSignatureClient sample_tele_ar = None"
      "signer_env_ok (de_signer (pe_dest (sample_protocol_env False)))"
    by (simp_all add: sample_relay_env_def sample_map_order sample_th_def sample_tele_ar_def sample_protocol_env_def sample_dest_env_def
        sample_signer_ok)
  note env = this
  have cache: "cache_verified (re_agg sample_relay_env) {sample_um} {sample_vdr 1 60 [1], sample_vdr 2 40 [2]} (sa_cache (rs_aggregator sample_tele_state))"
    by (simp add: sample_tele_state_def sample_cache_verified)
  from relayed_message_quorum [OF net env(1) sample_distinguished env(2) cache env(3-5) run] send
  obtain cv sigs where "sigs_ok (re_agg sample_relay_env) cv (th_unsignedMessage (sample_th 100)) sigs"
      "uint (TotalValidatorWeight cv) * uint (QuorumNumerator (ar_warpQuorum sample_tele_ar)) \<le> signer_weight cv sigs * 100" by auto
  then have "sigs_ok sample_agg_env cv sample_um sigs" "uint (TotalValidatorWeight cv) * 67 \<le> signer_weight cv sigs * 100"
    by (simp_all add: sample_relay_env_def sample_th_def sample_tele_ar_def)
  with run show ?thesis by blast
qed

section \<open>From the configuration to the route\<close>

lemma NewConfig_validated:
  assumes "NewConfig cenv getenv key (Inr c) = Inr cfg"
  shows "\<exists>c1. Config_Validate cenv c1 = Inr cfg \<and> cfg_SourceBlockchains c1 = cfg_SourceBlockchains c"
  using assms by (auto simp: NewConfig_def BuildConfig_def Let_def split: sum.splits prod.splits)

lemma sample_started_route:
  "\<exists>svc r. sample_start = Inr svc \<and> map rid_route (GetConfigRelayerIDs sample_rid_env (sv_cfg svc)) = [(5, 7, 6, 0)] \<and>
     getApplicationRelayer sample_rid_env (sv_coordinator svc) 5 6 7 2 = Some r"
proof -
  have run: "case sample_start of Inl _ \<Rightarrow> False | Inr svc \<Rightarrow>
      map rid_route (GetConfigRelayerIDs sample_rid_env (sv_cfg svc)) = [(5, 7, 6, 0)] \<and>
      (case getApplicationRelayer sample_rid_env (sv_coordinator svc) 5 6 7 2 of None \<Rightarrow> False | Some _ \<Rightarrow> True)"
    by code_simp
  show ?thesis
  proof (cases sample_start)
    case (Inl e)
    show ?thesis using run by (subst (asm) Inl) simp
  next
    case (Inr svc)
    have "map rid_route (GetConfigRelayerIDs sample_rid_env (sv_cfg svc)) = [(5, 7, 6, 0)] \<and>
        (case getApplicationRelayer sample_rid_env (sv_coordinator svc) 5 6 7 2 of None \<Rightarrow> False | Some _ \<Rightarrow> True)"
      using run by (subst (asm) Inr) simp
    with Inr show ?thesis by (cases "getApplicationRelayer sample_rid_env (sv_coordinator svc) 5 6 7 2") auto
  qed
qed

text \<open>
  C2: A relayer that has started routes as its configuration says: for every source chain, sender,
  destination chain and address, an application relayer is found exactly when some configured source
  allows the route, and the relayer found has a client of the destination chain.
\<close>

theorem started_relayer_routes:
  assumes "rid_env_ok (se_rid env)" and "ids_env_ok (ce_ids (se_cfg env))" and "de_ids (pe_dest penv) = ce_ids (se_cfg env)"
    and "main_initialize env penv grpcNewClient lru etna random nw newDatabase getenv key (Inr c) x newNetwork = Inr svc"
    and "\<forall>s \<in> set (cfg_SourceBlockchains c). \<forall>d \<in> set (sb_SupportedDestinations s). sd_addresses d = []"
    and "collision_free (se_rid env) (rid_route ` set (GetConfigRelayerIDs (se_rid env) (sv_cfg svc)) \<union> set (lookups (src, dst, origin, addr)))"
  shows "case getApplicationRelayer (se_rid env) (sv_coordinator svc) src origin dst addr of
      None \<Rightarrow> \<forall>s \<in> set (cfg_SourceBlockchains (sv_cfg svc)). \<not> allows s (src, dst, origin, addr)
    | Some r \<Rightarrow> (\<exists>s \<in> set (cfg_SourceBlockchains (sv_cfg svc)). allows s (src, dst, origin, addr)) \<and>
        (\<exists>dc. w_clients (sv_world svc) (ar_destinationClient r) = Some dc \<and> dc_destinationBlockchainID dc = dst)"
proof -
  let ?mc = "sv_coordinator svc"
  obtain cfg0 cfg where "NewConfig (se_cfg env) getenv key (Inr c) = Inr cfg0" "InitializeWarpQuorums (se_cfg env) cfg0 = Inr cfg" "sv_cfg svc = cfg"
    using main_initialize_steps [OF assms(4)] by auto
  then have zero: "\<forall>s \<in> set (cfg_SourceBlockchains (sv_cfg svc)). no_zero_address s"
    using NewConfig_validated [of "se_cfg env" getenv key c cfg0] validated_no_zero [of "se_cfg env" _ cfg0] assms(5)
    by (auto simp: InitializeWarpQuorums_sources)
  note wf = started_wf [OF assms(2-4)]
  note route = routed_as_allowed [OF assms(1,6) wf [THEN conjunct1] zero refl]
  show ?thesis
  proof (cases "getApplicationRelayer (se_rid env) ?mc src origin dst addr")
    case None
    with route show ?thesis by simp
  next
    case (Some r)
    obtain k where k: "(k, r) \<in> set (mc_applicationRelayers ?mc)" using lookup_Some [OF Some] by (blast dest: map_of_SomeD)
    have "rid_route (ar_relayerID r) \<in> set (lookups (src, dst, origin, addr))" using route Some by simp
    then have "DestinationBlockchainID (ar_relayerID r) = dst" using lookups_source by fastforce
    then show ?thesis using bspec [OF wf [THEN conjunct2, THEN conjunct1] k] route Some by auto
  qed
qed

theorem started_relayer_routes_witness:
  "\<exists>svc r dc. sample_start = Inr svc \<and> getApplicationRelayer sample_rid_env (sv_coordinator svc) 5 6 7 2 = Some r \<and>
     w_clients (sv_world svc) (ar_destinationClient r) = Some dc \<and> dc_destinationBlockchainID dc = 7"
proof -
  obtain svc r where svc: "sample_start = Inr svc" "map rid_route (GetConfigRelayerIDs sample_rid_env (sv_cfg svc)) = [(5, 7, 6, 0)]"
      "getApplicationRelayer sample_rid_env (sv_coordinator svc) 5 6 7 2 = Some r"
    using sample_started_route by (elim exE conjE)
  have "rid_route ` set (GetConfigRelayerIDs sample_rid_env (sv_cfg svc)) = rid_route ` set (GetConfigRelayerIDs sample_rid_env sample_cfg)"
    using arg_cong [OF svc(2), of set] arg_cong [OF sample_validated(2), of set] by simp
  then have "collision_free (se_rid sample_start_env)
      (rid_route ` set (GetConfigRelayerIDs (se_rid sample_start_env) (sv_cfg svc)) \<union> set (lookups (5, 7, 6, 2)))"
    using sample_collision_free by (simp add: sample_start_env_def)
  moreover have "rid_env_ok (se_rid sample_start_env)" "ids_env_ok (ce_ids (se_cfg sample_start_env))"
      "de_ids (pe_dest (sample_protocol_env False)) = ce_ids (se_cfg sample_start_env)"
    by (simp_all add: sample_start_env_def sample_cfg_env_def sample_ids_env_ok sample_protocol_env_def sample_dest_env_def sample_rid_env_ok)
  ultimately have "case getApplicationRelayer (se_rid sample_start_env) (sv_coordinator svc) 5 6 7 2 of
      None \<Rightarrow> \<forall>s \<in> set (cfg_SourceBlockchains (sv_cfg svc)). \<not> allows s (5, 7, 6, 2)
    | Some r \<Rightarrow> (\<exists>s \<in> set (cfg_SourceBlockchains (sv_cfg svc)). allows s (5, 7, 6, 2)) \<and>
        (\<exists>dc. w_clients (sv_world svc) (ar_destinationClient r) = Some dc \<and> dc_destinationBlockchainID dc = 7)"
    using started_relayer_routes [OF _ _ _ svc(1) [unfolded sample_start_def] sample_fresh] by blast
  moreover have "se_rid sample_start_env = sample_rid_env" by (simp add: sample_start_env_def)
  ultimately show ?thesis using svc(1,3) by auto
qed

section \<open>From a repeated block to a stalled checkpoint\<close>

lemma process_empty:
  "process_heights env (map (\<lambda>h. (h, [])) hs) r st =
     (case hs of [] \<Rightarrow> ([], r, st)
      | h # hs' \<Rightarrow> (case StageCommittedHeight h (ar_checkpointManager r) of
           Inl e \<Rightarrow> ([(h, Panicked)], r, st)
         | Inr cm \<Rightarrow> (case process_heights env (map (\<lambda>h. (h, [])) hs') (r\<lparr>ar_checkpointManager := cm\<rparr>) st of
              (outs, r2, st2) \<Rightarrow> ((h, Done None) # outs, r2, st2))))"
  by (cases hs) (auto simp: ProcessHeight_def eg_Wait_def split: sum.split prod.split)

lemma process_empty_stage:
  assumes "stage_all hs (ar_checkpointManager r) = Inr cm"
  shows "\<exists>outs. process_heights env (map (\<lambda>h. (h, [])) hs) r st = (outs, r\<lparr>ar_checkpointManager := cm\<rparr>, st)"
  using assms
proof (induction hs arbitrary: r)
  case (Cons h hs)
  then obtain cm1 where c: "StageCommittedHeight h (ar_checkpointManager r) = Inr cm1" "stage_all hs cm1 = Inr cm"
    by (auto split: sum.splits)
  from Cons.IH [of "r\<lparr>ar_checkpointManager := cm1\<rparr>"] c show ?case by (subst process_empty) auto
qed auto


end
